(* ===== verification/Rift_Prelude.thy ===== *)
theory Rift_Prelude
  imports Main "HOL-Library.Word" "HOL-Library.AList"
begin

text \<open>
  The prelude of the development: the Go machine integers and how they are compared,
  results with an error (the \<open>(value, error)\<close> pairs of the sources), Go maps as
  association lists behind a locale, and the generic lemmas the component theories share.

  \<^item> \<^bold>\<open>Integers.\<close> \<open>int8\<close> to \<open>int64\<close> are words of that width; \<open>+\<close> and \<open>-\<close> wrap around as
    in Go, and the Go comparisons of signed values are comparisons of \<open>sint\<close>.
  \<^item> \<^bold>\<open>Errors.\<close> A fallible operation returns \<open>'e + 'a\<close>, \<open>Inl\<close> for the error; \<open>rbind\<close> is the
    \<open>if err != nil { return err }\<close> idiom.
  \<^item> \<^bold>\<open>Maps.\<close> A Go map is an association list with distinct keys. The order of the list
    stands for the unspecified iteration order of \<open>range\<close>: theorems quantify over it.
\<close>

section \<open>Proof collections\<close>

named_theorems go_simps \<open>evaluation rules for Go integers, results and maps\<close>
named_theorems go_map_laws \<open>lookup laws of Go maps\<close>

section \<open>Machine integers\<close>

type_synonym byte = "8 word"
type_synonym int8 = "8 word"
type_synonym int16 = "16 word"
type_synonym int32 = "32 word"
type_synonym int64 = "64 word"

text \<open>The signed comparison \<open>a < b\<close> of Go on values of the same width.\<close>

abbreviation slt :: "'a::len word \<Rightarrow> 'a word \<Rightarrow> bool" where
  "slt a b \<equiv> sint a < sint b"

abbreviation sle :: "'a::len word \<Rightarrow> 'a word \<Rightarrow> bool" where
  "sle a b \<equiv> sint a \<le> sint b"

lemma sint_eq_iff: "sint a = sint b \<longleftrightarrow> a = b" for a b :: "'a::len word"
  by (auto intro: signed_word_eqI)

lemma sint_minus_1: "0 < sint (w :: 'a::len word) \<Longrightarrow> sint (w - 1) = sint w - 1"
  using sint_word_pred [of w] sint_lt [of w]
  by (simp add: word_pred_m1 signed_take_bit_int_eq_self)


lemma sint_diff:
  assumes "0 \<le> sint a" and "0 \<le> sint b"
  shows "sint (a - b) = sint a - sint (b :: 'a::len word)"
  using assms sint_lt [of a] sint_lt [of b]
  by (simp add: sint_word_diff signed_take_bit_int_eq_self)

section \<open>Results with an error\<close>

definition rbind :: "'e + 'a \<Rightarrow> ('a \<Rightarrow> 'e + 'b) \<Rightarrow> 'e + 'b" where
  "rbind m f = (case m of Inl e \<Rightarrow> Inl e | Inr x \<Rightarrow> f x)"

lemma rbind_simps [simp, go_simps]:
  "rbind (Inl e) f = Inl e"
  "rbind (Inr x) f = f x"
  by (simp_all add: rbind_def)

lemma rbind_eq_Inr: "rbind m f = Inr y \<longleftrightarrow> (\<exists>x. m = Inr x \<and> f x = Inr y)"
  by (cases m) simp_all

lemma rbind_eq_Inl: "rbind m f = Inl e \<longleftrightarrow> m = Inl e \<or> (\<exists>x. m = Inr x \<and> f x = Inl e)"
  by (cases m) simp_all

lemma rbind_InrE:
  assumes "rbind m f = Inr y"
  obtains x where "m = Inr x" and "f x = Inr y"
  using assms by (auto simp: rbind_eq_Inr)

section \<open>Go maps\<close>

text \<open>
  The contract every client of a Go map relies on: \<open>m[k]\<close>, \<open>m[k] = v\<close>, \<open>delete(m, k)\<close> and
  the keys a \<open>range\<close> loop visits, each exactly once.
\<close>

locale go_map =
  fixes empty :: "'m"
    and get :: "'m \<Rightarrow> 'k \<Rightarrow> 'v option"
    and put :: "'k \<Rightarrow> 'v \<Rightarrow> 'm \<Rightarrow> 'm"
    and del :: "'k \<Rightarrow> 'm \<Rightarrow> 'm"
    and keys :: "'m \<Rightarrow> 'k list"
    and invar :: "'m \<Rightarrow> bool"
  assumes get_empty: "get empty k = None"
    and get_put: "get (put k v m) k' = (if k' = k then Some v else get m k')"
    and get_del: "invar m \<Longrightarrow> get (del k m) k' = (if k' = k then None else get m k')"
    and keys_get: "k \<in> set (keys m) \<longleftrightarrow> get m k \<noteq> None"
    and keys_distinct: "invar m \<Longrightarrow> distinct (keys m)"
    and invar_empty: "invar empty"
    and invar_put: "invar m \<Longrightarrow> invar (put k v m)"
    and invar_del: "invar m \<Longrightarrow> invar (del k m)"
begin

lemma get_put_same: "get (put k v m) k = Some v"
  by (simp add: get_put)

lemma get_put_other: "k' \<noteq> k \<Longrightarrow> get (put k v m) k' = get m k'"
  by (simp add: get_put)

lemma get_fold_del:
  "invar m \<Longrightarrow> get (fold del ks m) k = (if k \<in> set ks then None else get m k)"
  by (induction ks arbitrary: m) (auto simp: get_del invar_del)

lemma invar_fold_del: "invar m \<Longrightarrow> invar (fold del ks m)"
  by (induction ks arbitrary: m) (auto simp: invar_del)

lemma set_keys_put: "set (keys (put k v m)) = insert k (set (keys m))"
  by (auto simp: keys_get get_put split: if_splits)

lemma set_keys_del: "invar m \<Longrightarrow> set (keys (del k m)) = set (keys m) - {k}"
  by (auto simp: keys_get get_del split: if_splits)

lemma length_keys_put:
  "invar m \<Longrightarrow> length (keys (put k v m)) =
     (if get m k = None then Suc (length (keys m)) else length (keys m))"
proof -
  assume inv: "invar m"
  have "length (keys (put k v m)) = card (insert k (set (keys m)))"
    by (metis distinct_card inv invar_put keys_distinct set_keys_put)
  also have "\<dots> = (if k \<in> set (keys m) then card (set (keys m)) else Suc (card (set (keys m))))"
    by (simp add: insert_absorb)
  finally show ?thesis
    using keys_distinct [OF inv] by (auto simp: distinct_card keys_get)
qed

end

type_synonym ('k, 'v) gomap = "('k \<times> 'v) list"

definition gm_get :: "('k, 'v) gomap \<Rightarrow> 'k \<Rightarrow> 'v option" where
  "gm_get m k = map_of m k"

definition gm_put :: "'k \<Rightarrow> 'v \<Rightarrow> ('k, 'v) gomap \<Rightarrow> ('k, 'v) gomap" where
  "gm_put k v m = AList.update k v m"

definition gm_del :: "'k \<Rightarrow> ('k, 'v) gomap \<Rightarrow> ('k, 'v) gomap" where
  "gm_del k m = AList.delete k m"

definition gm_keys :: "('k, 'v) gomap \<Rightarrow> 'k list" where
  "gm_keys m = map fst m"

definition gm_wf :: "('k, 'v) gomap \<Rightarrow> bool" where
  "gm_wf m \<longleftrightarrow> distinct (map fst m)"

interpretation gm: go_map "[]" gm_get gm_put gm_del gm_keys gm_wf
proof unfold_locales
  show "k \<in> set (gm_keys m) \<longleftrightarrow> gm_get m k \<noteq> None" for k and m :: "('k, 'v) gomap"
    by (simp add: gm_keys_def gm_get_def map_of_eq_None_iff)
qed (auto simp: gm_get_def gm_put_def gm_del_def gm_keys_def gm_wf_def update_conv'
       delete_conv' distinct_update distinct_delete)

lemmas [go_map_laws] = gm.get_empty gm.get_put gm.get_del

declare gm.get_empty [simp] gm.invar_empty [simp] gm.invar_put [intro] gm.invar_del [intro]

text \<open>A Go set \<open>map[T]struct{}\<close> is the list of its members, in iteration order.\<close>

type_synonym 'a goset = "'a list"

definition gs_add :: "'a \<Rightarrow> 'a goset \<Rightarrow> 'a goset" where
  "gs_add x s = (if x \<in> set s then s else s @ [x])"

definition gs_del :: "'a \<Rightarrow> 'a goset \<Rightarrow> 'a goset" where
  "gs_del x s = filter (\<lambda>y. y \<noteq> x) s"

lemma set_gs_add [simp]: "set (gs_add x s) = insert x (set s)"
  by (auto simp: gs_add_def)

lemma set_gs_del [simp]: "set (gs_del x s) = set s - {x}"
  by (auto simp: gs_del_def)

lemma distinct_gs_add: "distinct s \<Longrightarrow> distinct (gs_add x s)"
  by (simp add: gs_add_def)

lemma distinct_gs_del: "distinct s \<Longrightarrow> distinct (gs_del x s)"
  by (simp add: gs_del_def)

section \<open>Loops over a state that may block\<close>

text \<open>
  \<open>for _, x := range xs { f(x) }\<close> where \<open>f\<close> changes the state; \<open>None\<close> is a call that never
  returns.
\<close>

fun fold_opt :: "('a \<Rightarrow> 's \<Rightarrow> 's option) \<Rightarrow> 'a list \<Rightarrow> 's \<Rightarrow> 's option" where
  "fold_opt f [] s = Some s"
| "fold_opt f (x # xs) s = Option.bind (f x s) (fold_opt f xs)"

lemma fold_opt_inv:
  assumes "\<And>x s. x \<in> set xs \<Longrightarrow> P s \<Longrightarrow> \<exists>s'. f x s = Some s' \<and> P s'" and "P s"
  shows "\<exists>s'. fold_opt f xs s = Some s' \<and> P s'"
  using assms by (induction xs arbitrary: s) fastforce+

lemma fold_opt_invD:
  assumes "fold_opt f xs s = Some s'" and "P s"
    and "\<And>x s s'. x \<in> set xs \<Longrightarrow> P s \<Longrightarrow> f x s = Some s' \<Longrightarrow> P s'"
  shows "P s'"
  using assms
proof (induction xs arbitrary: s)
  case (Cons x xs)
  then obtain t where "f x s = Some t" "fold_opt f xs t = Some s'"
    by (auto split: Option.bind_splits)
  with Cons show ?case by (metis list.set_intros)
qed simp

section \<open>Updating every value of a map\<close>

definition gm_map :: "('k \<Rightarrow> 'v \<Rightarrow> 'w) \<Rightarrow> ('k, 'v) gomap \<Rightarrow> ('k, 'w) gomap" where
  "gm_map f m = map (\<lambda>(k, v). (k, f k v)) m"

lemma gm_get_map [go_map_laws]: "gm_get (gm_map f m) k = map_option (f k) (gm_get m k)"
  unfolding gm_get_def gm_map_def by (induction m) auto

lemma gm_keys_map [simp]: "gm_keys (gm_map f m) = gm_keys m"
  by (simp add: gm_keys_def gm_map_def case_prod_beta comp_def)

lemma gm_wf_map [simp]: "gm_wf (gm_map f m) = gm_wf m"
  using gm_keys_map [of f m] by (simp add: gm_wf_def gm_keys_def)

lemma gm_get_in: "gm_wf m \<Longrightarrow> gm_get m k = Some v \<longleftrightarrow> (k, v) \<in> set m"
  by (simp add: gm_get_def gm_wf_def)

lemma gm_get_inD: "gm_get m k = Some v \<Longrightarrow> (k, v) \<in> set m"
  by (simp add: gm_get_def map_of_SomeD)

end
