(* ===== verification/Rift_Types.thy ===== *)
theory Rift_Types
  imports Rift_Prelude
begin

text \<open>
  The packet types of \<open>src/internal/encoding/types.go\<close> and the typedefs and constants of
  \<open>src/internal/encoding/common.go\<close>. A Go struct is a record with a field per Go field, a
  pointer field that may be nil is an \<open>option\<close>, an optional string is the empty string when it
  is not set (as in the Go structs), \<open>map[K]struct{}\<close> is a set and \<open>map[K]*V\<close> a Go map. The
  struct \<open>TIEID\<close>, which the code compares and uses as a map key, is a datatype with selectors,
  so that it can carry the order of \<open>CompareTIEID\<close>. The Go enumerations are open \<open>int32\<close> types
  (any value may come from the wire): they are 32-bit words with named constants. The
  \<open>zero_T\<close> constants are the Go zero values \<open>T{}\<close>.
\<close>

section \<open>Typedefs and constants (common.go)\<close>

type_synonym SystemIDType = int64
type_synonym IPv4Address = int32
type_synonym MTUSizeType = int32
type_synonym SeqNrType = int64
type_synonym LifeTimeInSecType = int32
type_synonym LevelType = int8
type_synonym PacketNumberType = int16
type_synonym PodType = int32
type_synonym UDPPortType = int16
type_synonym TIENrType = int32
type_synonym VersionType = int8
type_synonym MinorVersionType = int16
type_synonym MetricType = int32
type_synonym RouteTagType = int64
type_synonym LabelType = int32
type_synonym BandwidthInMegaBitsType = int32
type_synonym KeyIDType = int32
type_synonym LinkIDType = int32
type_synonym PrefixLenType = int8
type_synonym TimestampInSecsType = int64
type_synonym NonceType = int16
type_synonym TimeIntervalInSecType = int16
type_synonym PrefixTransactionIDType = int8
type_synonym PlatformInterfaceIndex = int32
type_synonym KeyValueTargetType = int64
type_synonym OuterSecurityKeyID = int8
type_synonym TIESecurityKeyID = int32
type_synonym FabricIDType = int32
type_synonym IPv6Address = "byte list"
type_synonym TieDirectionType = int32
type_synonym TIETypeType = int32
type_synonym AddressFamilyType = int32
type_synonym RouteType = int32
type_synonym HierarchyIndications = int32

abbreviation (input) TieDirectionSouth :: TieDirectionType where "TieDirectionSouth \<equiv> 1"
abbreviation (input) TieDirectionNorth :: TieDirectionType where "TieDirectionNorth \<equiv> 2"
abbreviation (input) TieDirectionDirectionMaxValue :: TieDirectionType where
  "TieDirectionDirectionMaxValue \<equiv> 3"

abbreviation (input) TIETypeNodeTIEType :: TIETypeType where "TIETypeNodeTIEType \<equiv> 2"
abbreviation (input) TIETypePrefixTIEType :: TIETypeType where "TIETypePrefixTIEType \<equiv> 3"
abbreviation (input) TIETypePositiveDisaggregationPrefixTIEType :: TIETypeType where
  "TIETypePositiveDisaggregationPrefixTIEType \<equiv> 4"
abbreviation (input) TIETypeMaxValue :: TIETypeType where "TIETypeMaxValue \<equiv> 10"

abbreviation (input) RouteTypeNorthPrefix :: RouteType where "RouteTypeNorthPrefix \<equiv> 6"
abbreviation (input) RouteTypeSouthPrefix :: RouteType where "RouteTypeSouthPrefix \<equiv> 8"

abbreviation (input) TopOfFabricLevel :: LevelType where "TopOfFabricLevel \<equiv> 24"
abbreviation (input) LeafLevel :: LevelType where "LeafLevel \<equiv> 0"
abbreviation (input) DefaultDistance :: MetricType where "DefaultDistance \<equiv> 1"
abbreviation (input) DefaultLIEHoldtime :: TimeIntervalInSecType where "DefaultLIEHoldtime \<equiv> 3"
abbreviation (input) MultipleNeighborsLIEHoldtimeMultiplier :: int8 where
  "MultipleNeighborsLIEHoldtimeMultiplier \<equiv> 4"
abbreviation (input) IllegalSystemID :: SystemIDType where "IllegalSystemID \<equiv> 0"
abbreviation (input) DefaultLifetime :: LifeTimeInSecType where "DefaultLifetime \<equiv> 604800"
abbreviation (input) LifetimeDiff2Ignore :: LifeTimeInSecType where "LifetimeDiff2Ignore \<equiv> 400"
abbreviation (input) DefaultTIEUDPFloodPort :: UDPPortType where "DefaultTIEUDPFloodPort \<equiv> 915"
abbreviation (input) DefaultMTUSize :: MTUSizeType where "DefaultMTUSize \<equiv> 1400"
abbreviation (input) ProtocolMajorVersion :: VersionType where "ProtocolMajorVersion \<equiv> 8"
abbreviation (input) ProtocolMinorVersion :: MinorVersionType where "ProtocolMinorVersion \<equiv> 0"

section \<open>Addresses and prefixes\<close>

text \<open>
  \<open>netip.Addr\<close> of the Go library: the zero value, an IPv4 address or an IPv6 address (without a
  zone). Addresses are compared by value.
\<close>

datatype Addr = ZeroAddr | Addr4 "32 word" | Addr6 "128 word"

record IEEE802_1ASTimeStampType =
  ts_ASSec :: int64
  ts_ASNsec :: "int32 option"

record IPv4PrefixType =
  p4_Address :: IPv4Address
  p4_PrefixLen :: PrefixLenType

record IPv6PrefixType =
  p6_Address :: IPv6Address
  p6_PrefixLen :: PrefixLenType

record IPPrefixType =
  ip_IPv4Prefix :: "IPv4PrefixType option"
  ip_IPv6Prefix :: "IPv6PrefixType option"

record PrefixSequenceType =
  ps_Timestamp :: IEEE802_1ASTimeStampType
  ps_TransactionID :: "PrefixTransactionIDType option"

section \<open>Headers and LIE packets\<close>

record PacketHeader =
  ph_MajorVersion :: VersionType
  ph_MinorVersion :: MinorVersionType
  ph_Sender :: SystemIDType
  ph_Level :: "LevelType option"

record Neighbor =
  nb_Originator :: SystemIDType
  nb_RemoteID :: LinkIDType

record NodeCapabilities =
  nc_ProtocolMinorVersion :: MinorVersionType
  nc_FloodReduction :: "bool option"
  nc_HierarchyIndications :: "HierarchyIndications option"

record LinkCapabilities =
  lc_BFD :: "bool option"
  lc_IPv4ForwardingCapable :: "bool option"

record LIEPacket =
  lie_Name :: string
  lie_LocalID :: LinkIDType
  lie_FloodPort :: UDPPortType
  lie_LinkMTUSize :: "MTUSizeType option"
  lie_LinkBandwidth :: "BandwidthInMegaBitsType option"
  lie_Neighbor :: "Neighbor option"
  lie_Pod :: "PodType option"
  lie_NodeCapabilities :: NodeCapabilities
  lie_LinkCapabilities :: "LinkCapabilities option"
  lie_Holdtime :: TimeIntervalInSecType
  lie_Label :: "LabelType option"
  lie_NotAZTPOffer :: "bool option"
  lie_YouAreFloodRepeater :: "bool option"
  lie_YouAreSendingTooQuickly :: "bool option"
  lie_InstanceName :: string
  lie_FabricID :: "FabricIDType option"

section \<open>TIE identifiers, headers, TIDE and TIRE packets\<close>

datatype TIEID = TIEID
  (Direction: TieDirectionType)
  (Originator: SystemIDType)
  (TIEType: TIETypeType)
  (TIENr: TIENrType)

record TIEHeader =
  th_TIEID :: TIEID
  th_SeqNr :: SeqNrType
  th_OriginationTime :: "IEEE802_1ASTimeStampType option"
  th_OriginationLifetime :: "LifeTimeInSecType option"

record TIEHeaderWithLifeTime =
  hl_Header :: TIEHeader
  hl_RemainingLifetime :: LifeTimeInSecType

record TIDEPacket =
  tide_StartRange :: TIEID
  tide_EndRange :: TIEID
  tide_Headers :: "TIEHeaderWithLifeTime list"

record TIREPacket =
  tire_Headers :: "TIEHeaderWithLifeTime list"

section \<open>TIE elements\<close>

record LinkIDPair =
  lp_LocalID :: LinkIDType
  lp_RemoteID :: LinkIDType
  lp_PlatformInterfaceIndex :: "PlatformInterfaceIndex option"
  lp_PlatformInterfaceName :: string
  lp_TrustedOuterSecurityKey :: "OuterSecurityKeyID option"
  lp_BFDUp :: "bool option"
  lp_AddressFamilies :: "AddressFamilyType goset"

record NodeNeighborsTIEElement =
  nn_Level :: LevelType
  nn_Cost :: "MetricType option"
  nn_LinkIDs :: "LinkIDPair list"
  nn_Bandwidth :: "BandwidthInMegaBitsType option"

record NodeFlags =
  nf_Overload :: "bool option"

record NodeTIEElement =
  nt_Level :: LevelType
  nt_Neighbors :: "(SystemIDType, NodeNeighborsTIEElement) gomap"
  nt_Capabilities :: NodeCapabilities
  nt_Flags :: "NodeFlags option"
  nt_Name :: string
  nt_Pod :: "PodType option"
  nt_StartupTime :: "TimestampInSecsType option"
  nt_MiscabledLinks :: "LinkIDType goset"
  nt_SamePlaneTofs :: "SystemIDType goset"
  nt_FabricID :: "FabricIDType option"

record PrefixAttributes =
  pa_Metric :: MetricType
  pa_Tags :: "RouteTagType goset"
  pa_MonotonicClock :: "PrefixSequenceType option"
  pa_Loopback :: "bool option"
  pa_DirectlyAttached :: "bool option"
  pa_FromLink :: "LinkIDType option"
  pa_Label :: "LabelType option"

record PrefixEntry =
  pe_Prefix :: IPPrefixType
  pe_Attributes :: PrefixAttributes

record PrefixTIEElement =
  pt_Prefixes :: "PrefixEntry list"

record KeyValueTIEElementContent =
  kc_Targets :: "KeyValueTargetType option"
  kc_Value :: "byte list option"

record KeyValueTIEElement =
  kv_KeyValues :: "(KeyIDType, KeyValueTIEElementContent) gomap"

text \<open>The union \<open>TIEElement\<close>: a struct of pointers, of which a well-formed value sets one.\<close>

record TIEElement =
  el_Node :: "NodeTIEElement option"
  el_Prefixes :: "PrefixTIEElement option"
  el_PositiveDisaggregationPrefixes :: "PrefixTIEElement option"
  el_NegativeDisaggregationPrefixes :: "PrefixTIEElement option"
  el_ExternalPrefixes :: "PrefixTIEElement option"
  el_PositiveExternalDisaggregationPrefixes :: "PrefixTIEElement option"
  el_KeyValues :: "KeyValueTIEElement option"

record TIEPacket =
  tie_Header :: TIEHeader
  tie_Element :: TIEElement

record PacketContent =
  pc_LIE :: "LIEPacket option"
  pc_TIDE :: "TIDEPacket option"
  pc_TIRE :: "TIREPacket option"
  pc_TIE :: "TIEPacket option"

record ProtocolPacket =
  pp_Header :: PacketHeader
  pp_Content :: PacketContent

section \<open>Zero values\<close>

definition zero_Timestamp :: IEEE802_1ASTimeStampType where
  "zero_Timestamp = \<lparr>ts_ASSec = 0, ts_ASNsec = None\<rparr>"

definition zero_IPv4Prefix :: IPv4PrefixType where
  "zero_IPv4Prefix = \<lparr>p4_Address = 0, p4_PrefixLen = 0\<rparr>"

definition zero_IPv6Prefix :: IPv6PrefixType where
  "zero_IPv6Prefix = \<lparr>p6_Address = [], p6_PrefixLen = 0\<rparr>"

definition zero_IPPrefix :: IPPrefixType where
  "zero_IPPrefix = \<lparr>ip_IPv4Prefix = None, ip_IPv6Prefix = None\<rparr>"

definition zero_PrefixSequence :: PrefixSequenceType where
  "zero_PrefixSequence = \<lparr>ps_Timestamp = zero_Timestamp, ps_TransactionID = None\<rparr>"

definition zero_PacketHeader :: PacketHeader where
  "zero_PacketHeader = \<lparr>ph_MajorVersion = 0, ph_MinorVersion = 0, ph_Sender = 0, ph_Level = None\<rparr>"

definition zero_Neighbor :: Neighbor where
  "zero_Neighbor = \<lparr>nb_Originator = 0, nb_RemoteID = 0\<rparr>"

definition zero_NodeCapabilities :: NodeCapabilities where
  "zero_NodeCapabilities = \<lparr>nc_ProtocolMinorVersion = 0, nc_FloodReduction = None,
     nc_HierarchyIndications = None\<rparr>"

definition zero_LinkCapabilities :: LinkCapabilities where
  "zero_LinkCapabilities = \<lparr>lc_BFD = None, lc_IPv4ForwardingCapable = None\<rparr>"

definition zero_LIEPacket :: LIEPacket where
  "zero_LIEPacket = \<lparr>lie_Name = [], lie_LocalID = 0, lie_FloodPort = 0, lie_LinkMTUSize = None,
     lie_LinkBandwidth = None, lie_Neighbor = None, lie_Pod = None,
     lie_NodeCapabilities = zero_NodeCapabilities, lie_LinkCapabilities = None, lie_Holdtime = 0,
     lie_Label = None, lie_NotAZTPOffer = None, lie_YouAreFloodRepeater = None,
     lie_YouAreSendingTooQuickly = None, lie_InstanceName = [], lie_FabricID = None\<rparr>"

definition zero_TIEID :: TIEID where
  "zero_TIEID = TIEID 0 0 0 0"

definition zero_TIEHeader :: TIEHeader where
  "zero_TIEHeader = \<lparr>th_TIEID = zero_TIEID, th_SeqNr = 0, th_OriginationTime = None,
     th_OriginationLifetime = None\<rparr>"

definition zero_TIEHeaderWithLifeTime :: TIEHeaderWithLifeTime where
  "zero_TIEHeaderWithLifeTime = \<lparr>hl_Header = zero_TIEHeader, hl_RemainingLifetime = 0\<rparr>"

definition zero_TIDEPacket :: TIDEPacket where
  "zero_TIDEPacket = \<lparr>tide_StartRange = zero_TIEID, tide_EndRange = zero_TIEID, tide_Headers = []\<rparr>"

definition zero_TIREPacket :: TIREPacket where
  "zero_TIREPacket = \<lparr>tire_Headers = []\<rparr>"

definition zero_LinkIDPair :: LinkIDPair where
  "zero_LinkIDPair = \<lparr>lp_LocalID = 0, lp_RemoteID = 0, lp_PlatformInterfaceIndex = None,
     lp_PlatformInterfaceName = [], lp_TrustedOuterSecurityKey = None, lp_BFDUp = None,
     lp_AddressFamilies = []\<rparr>"

definition zero_NodeNeighbors :: NodeNeighborsTIEElement where
  "zero_NodeNeighbors = \<lparr>nn_Level = 0, nn_Cost = None, nn_LinkIDs = [], nn_Bandwidth = None\<rparr>"

definition zero_NodeFlags :: NodeFlags where
  "zero_NodeFlags = \<lparr>nf_Overload = None\<rparr>"

definition zero_NodeTIEElement :: NodeTIEElement where
  "zero_NodeTIEElement = \<lparr>nt_Level = 0, nt_Neighbors = [], nt_Capabilities = zero_NodeCapabilities,
     nt_Flags = None, nt_Name = [], nt_Pod = None, nt_StartupTime = None, nt_MiscabledLinks = [],
     nt_SamePlaneTofs = [], nt_FabricID = None\<rparr>"

definition zero_PrefixAttributes :: PrefixAttributes where
  "zero_PrefixAttributes = \<lparr>pa_Metric = 0, pa_Tags = [], pa_MonotonicClock = None,
     pa_Loopback = None, pa_DirectlyAttached = None, pa_FromLink = None, pa_Label = None\<rparr>"

definition zero_PrefixTIEElement :: PrefixTIEElement where
  "zero_PrefixTIEElement = \<lparr>pt_Prefixes = []\<rparr>"

definition zero_KeyValueContent :: KeyValueTIEElementContent where
  "zero_KeyValueContent = \<lparr>kc_Targets = None, kc_Value = None\<rparr>"

definition zero_KeyValueTIEElement :: KeyValueTIEElement where
  "zero_KeyValueTIEElement = \<lparr>kv_KeyValues = []\<rparr>"

definition zero_TIEElement :: TIEElement where
  "zero_TIEElement = \<lparr>el_Node = None, el_Prefixes = None, el_PositiveDisaggregationPrefixes = None,
     el_NegativeDisaggregationPrefixes = None, el_ExternalPrefixes = None,
     el_PositiveExternalDisaggregationPrefixes = None, el_KeyValues = None\<rparr>"

definition zero_TIEPacket :: TIEPacket where
  "zero_TIEPacket = \<lparr>tie_Header = zero_TIEHeader, tie_Element = zero_TIEElement\<rparr>"

definition zero_PacketContent :: PacketContent where
  "zero_PacketContent = \<lparr>pc_LIE = None, pc_TIDE = None, pc_TIRE = None, pc_TIE = None\<rparr>"

definition zero_ProtocolPacket :: ProtocolPacket where
  "zero_ProtocolPacket = \<lparr>pp_Header = zero_PacketHeader, pp_Content = zero_PacketContent\<rparr>"

lemmas zero_defs = zero_Timestamp_def zero_IPv4Prefix_def zero_IPv6Prefix_def zero_IPPrefix_def
  zero_PrefixSequence_def zero_PacketHeader_def zero_Neighbor_def zero_NodeCapabilities_def
  zero_LinkCapabilities_def zero_LIEPacket_def zero_TIEID_def zero_TIEHeader_def
  zero_TIEHeaderWithLifeTime_def zero_TIDEPacket_def zero_TIREPacket_def zero_LinkIDPair_def
  zero_NodeNeighbors_def zero_NodeFlags_def zero_NodeTIEElement_def zero_PrefixAttributes_def
  zero_PrefixTIEElement_def zero_KeyValueContent_def zero_KeyValueTIEElement_def
  zero_TIEElement_def zero_TIEPacket_def zero_PacketContent_def zero_ProtocolPacket_def

end
