(* ===== verification/Tie_LSDB.thy ===== *)
theory Tie_LSDB
  imports Rift_Types
begin

text \<open>
  The link-state database, \<open>src/internal/tie/lsdb.go\<close>: the total order on TIE identifiers, the
  version order on TIE headers, and the operations of \<open>LSDB\<close>. The operations are behind the
  locale \<open>tie_store\<close>, which is what the flood engine relies on.

  The read-write mutex of the \<open>LSDB\<close> struct is modelled by the number of read locks that the
  calling goroutine itself holds (\<open>db_rlocks\<close>). A writer (\<open>Insert\<close>, \<open>Remove\<close>,
  \<open>DecrementLifetimes\<close>) that is called while its own goroutine holds a read lock waits for
  ever: \<open>sync.RWMutex\<close> is not re-entrant. That outcome is the result \<open>None\<close> of the writers.
  Locks held by other goroutines are released by them and only delay the caller.
\<close>

section \<open>Comparisons\<close>

definition cmpInt32 :: "int32 \<Rightarrow> int32 \<Rightarrow> int" where
  "cmpInt32 a b = (if slt a b then -1 else if slt b a then 1 else 0)"

definition cmpInt64 :: "int64 \<Rightarrow> int64 \<Rightarrow> int" where
  "cmpInt64 a b = (if slt a b then -1 else if slt b a then 1 else 0)"

definition CompareTIEID :: "TIEID \<Rightarrow> TIEID \<Rightarrow> int" where
  "CompareTIEID a b =
     (if Direction a \<noteq> Direction b then cmpInt32 (Direction a) (Direction b)
      else if Originator a \<noteq> Originator b then cmpInt64 (Originator a) (Originator b)
      else if TIEType a \<noteq> TIEType b then cmpInt32 (TIEType a) (TIEType b)
      else if TIENr a \<noteq> TIENr b then cmpInt32 (TIENr a) (TIENr b)
      else 0)"

text \<open>
  The difference of the lifetimes is computed in \<open>int32\<close>, where it may wrap around; negating
  the least value leaves it negative.
\<close>

definition CompareTIEHeader :: "TIEHeaderWithLifeTime \<Rightarrow> TIEHeaderWithLifeTime \<Rightarrow> int" where
  "CompareTIEHeader a b =
     (if th_SeqNr (hl_Header a) \<noteq> th_SeqNr (hl_Header b)
      then cmpInt64 (th_SeqNr (hl_Header a)) (th_SeqNr (hl_Header b))
      else
        (let diff = hl_RemainingLifetime a - hl_RemainingLifetime b;
             diff = (if slt diff 0 then - diff else diff)
         in if slt LifetimeDiff2Ignore diff
            then cmpInt32 (hl_RemainingLifetime a) (hl_RemainingLifetime b)
            else 0))"

definition MinTIEID :: TIEID where
  "MinTIEID = TIEID TieDirectionSouth 0 0 0"

definition MaxTIEID :: TIEID where
  "MaxTIEID = TIEID TieDirectionDirectionMaxValue 0x7FFFFFFFFFFFFFFF TIETypeMaxValue 0x7FFFFFFF"

lemma cmpInt32_alt: "cmpInt32 a b = sgn (sint a - sint b)"
  by (auto simp: cmpInt32_def)

lemma cmpInt64_alt: "cmpInt64 a b = sgn (sint a - sint b)"
  by (auto simp: cmpInt64_def)

lemmas cmp_alts = cmpInt32_alt cmpInt64_alt

text \<open>The comparison as the lexicographic order of the four signed fields.\<close>

definition tieid_key :: "TIEID \<Rightarrow> int \<times> int \<times> int \<times> int" where
  "tieid_key i = (sint (Direction i), sint (Originator i), sint (TIEType i), sint (TIENr i))"

lemma tieid_key_inj: "tieid_key a = tieid_key b \<longleftrightarrow> a = b"
  by (cases a; cases b) (auto simp: tieid_key_def sint_eq_iff)

lemma CompareTIEID_le: "CompareTIEID a b \<le> 0 \<longleftrightarrow>
   (let (d, p, t, n) = tieid_key a; (d', p', t', n') = tieid_key b in
      d < d' \<or> d = d' \<and> (p < p' \<or> p = p' \<and> (t < t' \<or> t = t' \<and> n \<le> n')))"
  by (simp add: CompareTIEID_def cmp_alts tieid_key_def sint_eq_iff [symmetric] sgn_if)

lemma CompareTIEID_zero: "CompareTIEID a b = 0 \<longleftrightarrow> a = b"
  by (cases a; cases b) (auto simp: CompareTIEID_def cmp_alts sgn_if sint_eq_iff split: if_splits)

lemma CompareTIEID_swap: "CompareTIEID b a = - CompareTIEID a b"
  by (auto simp: CompareTIEID_def cmp_alts sgn_if)

lemma CompareTIEID_range: "CompareTIEID a b \<in> {-1, 0, 1}"
  by (auto simp: CompareTIEID_def cmp_alts sgn_if)

instantiation TIEID :: linorder
begin

definition less_eq_TIEID :: "TIEID \<Rightarrow> TIEID \<Rightarrow> bool" where
  "less_eq_TIEID a b \<longleftrightarrow> CompareTIEID a b \<le> 0"

definition less_TIEID :: "TIEID \<Rightarrow> TIEID \<Rightarrow> bool" where
  "less_TIEID a b \<longleftrightarrow> CompareTIEID a b < 0"

instance
proof
  fix a b c :: TIEID
  show "(a < b) = (a \<le> b \<and> \<not> b \<le> a)"
    using CompareTIEID_swap [of a b] by (auto simp: less_eq_TIEID_def less_TIEID_def)
  show "a \<le> a"
    by (simp add: less_eq_TIEID_def CompareTIEID_zero [THEN iffD2])
  show "a \<le> b \<Longrightarrow> b \<le> c \<Longrightarrow> a \<le> c"
    by (auto simp: less_eq_TIEID_def CompareTIEID_le Let_def case_prod_beta)
  show "a \<le> b \<Longrightarrow> b \<le> a \<Longrightarrow> a = b"
    using CompareTIEID_swap [of a b] CompareTIEID_zero [of a b] by (auto simp: less_eq_TIEID_def)
  show "a \<le> b \<or> b \<le> a"
    using CompareTIEID_swap [of a b] by (auto simp: less_eq_TIEID_def)
qed

end

section \<open>Database entries and operations\<close>

text \<open>
  \<open>LastReceived\<close> (a \<open>time.Time\<close>) is an abstract clock reading. The packet of an entry is a
  value here: \<open>bumpOwnTIE\<close>, the only code that writes through the pointer, stores the result
  back under the same identifier.
\<close>

record LSDBEntry =
  le_Packet :: TIEPacket
  le_RemainingLifetime :: LifeTimeInSecType
  le_LastReceived :: int
  le_SelfOriginated :: bool

record LSDB =
  db_rlocks :: nat
  db_entries :: "(TIEID, LSDBEntry) gomap"

abbreviation entry_id :: "LSDBEntry \<Rightarrow> TIEID" where
  "entry_id e \<equiv> th_TIEID (tie_Header (le_Packet e))"

abbreviation entry_seq :: "LSDBEntry \<Rightarrow> SeqNrType" where
  "entry_seq e \<equiv> th_SeqNr (tie_Header (le_Packet e))"

definition LSDBEntry_Header :: "LSDBEntry \<Rightarrow> TIEHeaderWithLifeTime" where
  "LSDBEntry_Header e =
     \<lparr>hl_Header = tie_Header (le_Packet e), hl_RemainingLifetime = le_RemainingLifetime e\<rparr>"

definition NewLSDB :: LSDB where
  "NewLSDB = \<lparr>db_rlocks = 0, db_entries = []\<rparr>"

definition LSDB_Get :: "LSDB \<Rightarrow> TIEID \<Rightarrow> LSDBEntry option" where
  "LSDB_Get db tid = gm_get (db_entries db) tid"

definition LSDB_Insert :: "LSDBEntry \<Rightarrow> LSDB \<Rightarrow> (bool \<times> LSDB) option" where
  "LSDB_Insert e db =
     (if db_rlocks db > 0 then None
      else
        let tid = entry_id e; existed = gm_get (db_entries db) tid \<noteq> None
        in Some (\<not> existed, db\<lparr>db_entries := gm_put tid e (db_entries db)\<rparr>))"

definition LSDB_Remove :: "TIEID \<Rightarrow> LSDB \<Rightarrow> LSDB option" where
  "LSDB_Remove tid db =
     (if db_rlocks db > 0 then None
      else Some (db\<lparr>db_entries := gm_del tid (db_entries db)\<rparr>))"

definition LSDB_Len :: "LSDB \<Rightarrow> nat" where
  "LSDB_Len db = length (db_entries db)"

text \<open>The identifiers in \<open>CompareTIEID\<close> order, as \<open>sort.Slice\<close> leaves them.\<close>

definition sorted_ids :: "LSDB \<Rightarrow> TIEID list" where
  "sorted_ids db = sort (gm_keys (db_entries db))"

text \<open>
  \<open>ForEachSorted\<close>: the state \<open>'s\<close> holds the database (\<open>dbof\<close> reads it) and whatever the callback
  changes; the callback says whether to go on, and \<open>None\<close> if it blocks. The identifiers are
  taken first, the entries are looked up one by one under a second read lock, which is held
  while the callback runs.
\<close>

fun ForEachSorted_loop ::
  "('s \<Rightarrow> LSDB) \<Rightarrow> (TIEID \<Rightarrow> LSDBEntry \<Rightarrow> 's \<Rightarrow> (bool \<times> 's) option) \<Rightarrow> TIEID list \<Rightarrow> 's \<Rightarrow> 's option"
where
  "ForEachSorted_loop dbof fn [] s = Some s"
| "ForEachSorted_loop dbof fn (tid # ids) s =
     (case LSDB_Get (dbof s) tid of
        None \<Rightarrow> ForEachSorted_loop dbof fn ids s
      | Some entry \<Rightarrow>
          (case fn tid entry s of
             None \<Rightarrow> None
           | Some (go_on, s') \<Rightarrow>
               if go_on then ForEachSorted_loop dbof fn ids s' else Some s'))"

definition RLock :: "LSDB \<Rightarrow> LSDB" where
  "RLock db = db\<lparr>db_rlocks := Suc (db_rlocks db)\<rparr>"

definition RUnlock :: "LSDB \<Rightarrow> LSDB" where
  "RUnlock db = db\<lparr>db_rlocks := db_rlocks db - 1\<rparr>"

definition ForEachSorted ::
  "('s \<Rightarrow> LSDB) \<Rightarrow> ((LSDB \<Rightarrow> LSDB) \<Rightarrow> 's \<Rightarrow> 's) \<Rightarrow>
   (TIEID \<Rightarrow> LSDBEntry \<Rightarrow> 's \<Rightarrow> (bool \<times> 's) option) \<Rightarrow> 's \<Rightarrow> 's option"
where
  "ForEachSorted dbof updb fn s =
     map_option (updb RUnlock)
       (ForEachSorted_loop dbof fn (sorted_ids (dbof s)) (updb RLock s))"

definition HeadersSorted :: "LSDB \<Rightarrow> TIEHeaderWithLifeTime list" where
  "HeadersSorted db =
     map (\<lambda>tid. LSDBEntry_Header (the (gm_get (db_entries db) tid))) (sorted_ids db)"

text \<open>\<open>Snapshot\<close> copies the map and the headers: on values, the copy is the map itself.\<close>

definition LSDB_Snapshot :: "LSDB \<Rightarrow> (TIEID, LSDBEntry) gomap" where
  "LSDB_Snapshot db = gm_map (\<lambda>_ entry. entry) (db_entries db)"

definition DecrementLifetimes :: "int32 \<Rightarrow> LSDB \<Rightarrow> (TIEID list \<times> LSDB) option" where
  "DecrementLifetimes delta db =
     (if db_rlocks db > 0 then None
      else
        let entries = gm_map (\<lambda>_ e. e\<lparr>le_RemainingLifetime := le_RemainingLifetime e - delta\<rparr>)
                        (db_entries db)
        in Some (map fst (filter (\<lambda>(_, e). sle (le_RemainingLifetime e) 0) entries),
                 db\<lparr>db_entries := entries\<rparr>))"

section \<open>The contract of a TIE store\<close>

text \<open>
  What the flood engine relies on. A store that is \<open>ready\<close> (the caller holds no read lock, every
  entry is stored under its own identifier) never blocks a writer, and stays ready.
\<close>

locale tie_store =
  fixes get :: "'db \<Rightarrow> TIEID \<Rightarrow> LSDBEntry option"
    and insert :: "LSDBEntry \<Rightarrow> 'db \<Rightarrow> (bool \<times> 'db) option"
    and remove :: "TIEID \<Rightarrow> 'db \<Rightarrow> 'db option"
    and ready :: "'db \<Rightarrow> bool"
  assumes insert_total: "ready db \<Longrightarrow> \<exists>new db'. insert e db = Some (new, db')"
    and insert_ready: "ready db \<Longrightarrow> insert e db = Some (new, db') \<Longrightarrow> ready db'"
    and insert_new: "ready db \<Longrightarrow> insert e db = Some (new, db') \<Longrightarrow> new \<longleftrightarrow> get db (entry_id e) = None"
    and get_insert: "ready db \<Longrightarrow> insert e db = Some (new, db') \<Longrightarrow>
       get db' i = (if i = entry_id e then Some e else get db i)"
    and remove_total: "ready db \<Longrightarrow> \<exists>db'. remove i db = Some db'"
    and remove_ready: "ready db \<Longrightarrow> remove i db = Some db' \<Longrightarrow> ready db'"
    and get_remove: "ready db \<Longrightarrow> remove i db = Some db' \<Longrightarrow>
       get db' j = (if j = i then None else get db j)"
    and get_keyed: "ready db \<Longrightarrow> get db i = Some e \<Longrightarrow> entry_id e = i"
begin

lemma remove_all:
  "ready db \<Longrightarrow> \<exists>db'. fold_opt remove ids db = Some db' \<and> ready db' \<and>
     (\<forall>i. get db' i = (if i \<in> set ids then None else get db i))"
proof (induction ids arbitrary: db)
  case (Cons j ids)
  then obtain db1 where r: "remove j db = Some db1"
    using remove_total by blast
  then have ok: "ready db1" and g: "\<forall>i. get db1 i = (if i = j then None else get db i)"
    using Cons.prems remove_ready get_remove by blast+
  obtain db' where "fold_opt remove ids db1 = Some db'" "ready db'"
    and "\<forall>i. get db' i = (if i \<in> set ids then None else get db1 i)"
    using Cons.IH [OF ok] by blast
  with r g show ?case by auto
qed simp

text \<open>An entry that passes a test on arrival still passes it after any insertion that does.\<close>

lemma insert_all_entries:
  assumes "ready db" and "insert e db = Some (new, db')" and "Q e"
    and "\<And>i x. get db i = Some x \<Longrightarrow> Q x"
  shows "get db' i = Some x \<Longrightarrow> Q x"
  using assms by (auto simp: get_insert split: if_splits)

end

definition db_ok :: "LSDB \<Rightarrow> bool" where
  "db_ok db \<longleftrightarrow> db_rlocks db = 0 \<and> gm_wf (db_entries db) \<and>
     list_all (\<lambda>(i, e). entry_id e = i) (db_entries db)"

lemma db_okD: "db_ok db \<Longrightarrow> LSDB_Get db i = Some e \<Longrightarrow> entry_id e = i"
  by (auto simp: db_ok_def LSDB_Get_def list_all_iff dest: gm_get_inD)

lemma db_ok_unlocked [dest]: "db_ok db \<Longrightarrow> db_rlocks db = 0"
  by (simp add: db_ok_def)

lemma db_ok_alt:
  "db_ok db \<longleftrightarrow> db_rlocks db = 0 \<and> gm_wf (db_entries db) \<and>
     (\<forall>i e. LSDB_Get db i = Some e \<longrightarrow> entry_id e = i)"
  by (auto simp: db_ok_def LSDB_Get_def list_all_iff gm_get_in)

lemma LSDB_Insert_unlocked:
  "db_rlocks db = 0 \<Longrightarrow>
     LSDB_Insert e db = Some (LSDB_Get db (entry_id e) = None,
                              db\<lparr>db_entries := gm_put (entry_id e) e (db_entries db)\<rparr>)"
  by (simp add: LSDB_Insert_def LSDB_Get_def Let_def)

lemma LSDB_Remove_unlocked:
  "db_rlocks db = 0 \<Longrightarrow>
     LSDB_Remove i db = Some (db\<lparr>db_entries := gm_del i (db_entries db)\<rparr>)"
  by (simp add: LSDB_Remove_def)

lemma LSDB_Get_put:
  "LSDB_Get (db\<lparr>db_entries := gm_put i e (db_entries db)\<rparr>) j = (if j = i then Some e else LSDB_Get db j)"
  by (simp add: LSDB_Get_def go_map_laws)

lemma LSDB_Get_del:
  "db_ok db \<Longrightarrow>
     LSDB_Get (db\<lparr>db_entries := gm_del i (db_entries db)\<rparr>) j = (if j = i then None else LSDB_Get db j)"
  by (simp add: LSDB_Get_def db_ok_def go_map_laws)

interpretation lsdb: tie_store LSDB_Get LSDB_Insert LSDB_Remove db_ok
proof unfold_locales
  fix db e new db' i j
  assume ok: "db_ok db"
  show "\<exists>new db'. LSDB_Insert e db = Some (new, db')"
    using ok by (auto simp: LSDB_Insert_unlocked dest!: db_ok_unlocked)
  show "\<exists>db'. LSDB_Remove i db = Some db'"
    using ok by (auto simp: LSDB_Remove_unlocked dest!: db_ok_unlocked)
  show "LSDB_Get db i = Some e \<Longrightarrow> entry_id e = i"
    using ok by (rule db_okD)
  {
    assume i: "LSDB_Insert e db = Some (new, db')"
    then show "db_ok db'"
      using ok by (auto simp: LSDB_Insert_unlocked db_ok_alt LSDB_Get_put split: if_splits)
    show "new \<longleftrightarrow> LSDB_Get db (entry_id e) = None"
      using ok i by (auto simp: LSDB_Insert_unlocked dest!: db_ok_unlocked)
    show "LSDB_Get db' j = (if j = entry_id e then Some e else LSDB_Get db j)"
      using ok i by (auto simp: LSDB_Insert_unlocked LSDB_Get_put dest!: db_ok_unlocked)
  }
  {
    assume r: "LSDB_Remove i db = Some db'"
    then show "db_ok db'"
      using ok LSDB_Get_del [OF ok]
      by (auto simp: LSDB_Remove_unlocked db_ok_alt split: if_splits)
    show "LSDB_Get db' j = (if j = i then None else LSDB_Get db j)"
      using ok r LSDB_Get_del [OF ok] by (auto simp: LSDB_Remove_unlocked db_ok_unlocked)
  }
qed

lemma NewLSDB_ok [simp]: "db_ok NewLSDB"
  by (simp add: db_ok_def NewLSDB_def gm_wf_def)

section \<open>Sorted iteration\<close>

lemma sorted_ids_sorted [simp]: "sorted (sorted_ids db)"
  by (simp add: sorted_ids_def)

lemma set_sorted_ids: "i \<in> set (sorted_ids db) \<longleftrightarrow> LSDB_Get db i \<noteq> None"
  by (simp add: sorted_ids_def LSDB_Get_def gm.keys_get)

lemma distinct_sorted_ids: "db_ok db \<Longrightarrow> distinct (sorted_ids db)"
  by (simp add: sorted_ids_def db_ok_def gm.keys_distinct)

lemma length_sorted_ids: "length (sorted_ids db) = LSDB_Len db"
  by (simp add: sorted_ids_def LSDB_Len_def gm_keys_def)

text \<open>Sorting makes the order of the underlying map irrelevant.\<close>

lemma sorted_ids_cong:
  assumes "db_ok db" "db_ok db'" and "\<And>i. LSDB_Get db i = LSDB_Get db' i"
  shows "sorted_ids db = sorted_ids db'"
proof (rule sorted_distinct_set_unique)
  show "set (sorted_ids db) = set (sorted_ids db')"
    using assms(3) by (auto simp: set_sorted_ids)
qed (simp_all add: distinct_sorted_ids assms)

lemma HeadersSorted_ids:
  assumes "db_ok db"
  shows "map (\<lambda>h. th_TIEID (hl_Header h)) (HeadersSorted db) = sorted_ids db"
proof -
  have "th_TIEID (hl_Header (LSDBEntry_Header (the (gm_get (db_entries db) i)))) = i"
    if "i \<in> set (sorted_ids db)" for i
    using that db_okD [OF assms, of i]
    by (auto simp: set_sorted_ids LSDB_Get_def LSDBEntry_Header_def)
  then show ?thesis by (simp add: HeadersSorted_def map_idI)
qed

lemma LSDB_Snapshot_get: "gm_get (LSDB_Snapshot db) i = LSDB_Get db i"
  by (simp add: LSDB_Snapshot_def LSDB_Get_def go_map_laws option.map_ident)

lemma ForEachSorted_loop_inv:
  assumes "\<And>i e s. i \<in> set ids \<Longrightarrow> P s \<Longrightarrow> LSDB_Get (dbof s) i = Some e \<Longrightarrow>
             \<exists>b s'. fn i e s = Some (b, s') \<and> P s'" and "P s"
  shows "\<exists>s'. ForEachSorted_loop dbof fn ids s = Some s' \<and> P s'"
  using assms
proof (induction ids arbitrary: s)
  case (Cons i ids)
  show ?case
  proof (cases "LSDB_Get (dbof s) i")
    case None
    with Cons show ?thesis by simp
  next
    case (Some e)
    then obtain b s' where "fn i e s = Some (b, s')" "P s'"
      using Cons.prems by (metis list.set_intros(1))
    with Some Cons show ?thesis by (cases b) simp_all
  qed
qed simp

lemma DecrementLifetimes_get:
  assumes "DecrementLifetimes delta db = Some (expired, db')"
  shows "LSDB_Get db' i =
    map_option (\<lambda>e. e\<lparr>le_RemainingLifetime := le_RemainingLifetime e - delta\<rparr>) (LSDB_Get db i)"
  using assms by (auto simp: DecrementLifetimes_def LSDB_Get_def Let_def go_map_laws split: if_splits)

lemma DecrementLifetimes_ok:
  assumes "db_ok db" and "DecrementLifetimes delta db = Some (expired, db')"
  shows "db_ok db'"
  using assms DecrementLifetimes_get [OF assms(2)] db_okD [OF assms(1)]
  by (auto simp: db_ok_alt DecrementLifetimes_def Let_def split: if_splits)

lemma DecrementLifetimes_expired:
  assumes "db_ok db" and "DecrementLifetimes delta db = Some (expired, db')"
  shows "i \<in> set expired \<longleftrightarrow> (\<exists>e. LSDB_Get db' i = Some e \<and> sle (le_RemainingLifetime e) 0)"
proof -
  have ok: "gm_wf (db_entries db')"
    using DecrementLifetimes_ok [OF assms] by (simp add: db_ok_def)
  have "expired = map fst (filter (\<lambda>(_, e). sle (le_RemainingLifetime e) 0) (db_entries db'))"
    using assms(2) by (auto simp: DecrementLifetimes_def Let_def split: if_splits)
  then show ?thesis
    using ok by (force simp: LSDB_Get_def gm_get_in image_iff)
qed


section \<open>The order and the database\<close>

text \<open>
  \<^bold>\<open>\<open>CompareTIEID\<close> is a total order.\<close> Its sign is antisymmetric, it is zero on equal
  identifiers only, and it is transitive: \<open>sort.Slice\<close> with it yields one order.
\<close>

theorem CompareTIEID_total_order:
  "CompareTIEID b a = - CompareTIEID a b \<and> (CompareTIEID a b = 0 \<longleftrightarrow> a = b) \<and>
   (CompareTIEID a b \<le> 0 \<longrightarrow> CompareTIEID b c \<le> 0 \<longrightarrow> CompareTIEID a c \<le> 0)"
  using order_trans [of a b c, unfolded less_eq_TIEID_def] CompareTIEID_swap [of b a] CompareTIEID_zero [of a b]
  by blast

theorem CompareTIEID_total_order_witness: "CompareTIEID (TIEID 1 2 3 4) (TIEID 2 1 3 4) \<le> 0"
  using CompareTIEID_total_order [of "TIEID 1 5 3 4" "TIEID 1 2 3 4" "TIEID 2 1 3 4"]
    CompareTIEID_total_order [of "TIEID 1 2 3 4" "TIEID 1 2 3 4" "TIEID 2 1 3 4"]
  by (simp add: CompareTIEID_def cmpInt32_def)

text \<open>
  \<^bold>\<open>The version order on headers.\<close> For lifetimes that are not negative, \<open>CompareTIEHeader\<close> is the
  comparison of the sequence numbers, and for equal ones that of the lifetimes if they differ by
  more than \<open>LifetimeDiff2Ignore\<close>; the subtraction does not overflow then.
\<close>

theorem CompareTIEHeader_spec:
  assumes "0 \<le> sint (hl_RemainingLifetime a)" and "0 \<le> sint (hl_RemainingLifetime b)"
  shows "CompareTIEHeader a b =
    (let s = sint (th_SeqNr (hl_Header a)) - sint (th_SeqNr (hl_Header b));
         d = sint (hl_RemainingLifetime a) - sint (hl_RemainingLifetime b)
     in if s \<noteq> 0 then sgn s else if \<bar>d\<bar> > sint LifetimeDiff2Ignore then sgn d else 0)"
proof -
  let ?a = "hl_RemainingLifetime a" and ?b = "hl_RemainingLifetime b"
  have d: "sint (?a - ?b) = sint ?a - sint ?b" "sint (?b - ?a) = sint ?b - sint ?a"
    using assms by (simp_all add: sint_diff)
  show ?thesis
    unfolding CompareTIEHeader_def Let_def cmp_alts
    using d sint_eq_iff [of "th_SeqNr (hl_Header a)" "th_SeqNr (hl_Header b)"] by (simp add: abs_if)
qed

theorem CompareTIEHeader_spec_witness:
  "CompareTIEHeader \<lparr>hl_Header = zero_TIEHeader, hl_RemainingLifetime = 1000\<rparr>
     \<lparr>hl_Header = zero_TIEHeader, hl_RemainingLifetime = 100\<rparr> = 1"
  using CompareTIEHeader_spec [of "\<lparr>hl_Header = zero_TIEHeader, hl_RemainingLifetime = 1000\<rparr>"
      "\<lparr>hl_Header = zero_TIEHeader, hl_RemainingLifetime = 100\<rparr>"] by simp

text \<open>
  C33 \<^bold>\<open>The sorted headers describe the contents.\<close> \<open>HeadersSorted\<close> lists, in strictly ascending order
  of the identifiers, exactly one header per entry; two databases with the same contents give the
  same list, whatever the iteration order of their maps.
\<close>

theorem HeadersSorted_canonical:
  assumes "db_ok db" and "db_ok db'" and "\<forall>i. LSDB_Get db i = LSDB_Get db' i"
  shows "HeadersSorted db = HeadersSorted db' \<and> length (HeadersSorted db) = LSDB_Len db \<and>
    sorted_wrt (\<lambda>h k. th_TIEID (hl_Header h) < th_TIEID (hl_Header k)) (HeadersSorted db) \<and>
    set (HeadersSorted db) = {LSDBEntry_Header e | i e. LSDB_Get db i = Some e}"
proof -
  have ids: "sorted_ids db = sorted_ids db'" using assms by (intro sorted_ids_cong) simp_all
  then have "HeadersSorted db = HeadersSorted db'"
    using assms(3) by (simp add: HeadersSorted_def LSDB_Get_def)
  moreover have "sorted_wrt (<) (map (\<lambda>h. th_TIEID (hl_Header h)) (HeadersSorted db))"
    using assms(1) by (simp add: HeadersSorted_ids strict_sorted_iff distinct_sorted_ids)
  moreover have "set (HeadersSorted db) = {LSDBEntry_Header e | i e. LSDB_Get db i = Some e}"
    by (force simp: HeadersSorted_def set_sorted_ids LSDB_Get_def)
  moreover have "length (HeadersSorted db) = LSDB_Len db"
    by (simp add: HeadersSorted_def length_sorted_ids)
  ultimately show ?thesis by (simp add: sorted_wrt_map)
qed

definition ex_header_entry :: "TIENrType \<Rightarrow> TIEID \<times> LSDBEntry" where
  "ex_header_entry n = (let i = TIEID TieDirectionSouth 1 TIETypePrefixTIEType n
     in (i, \<lparr>le_Packet = \<lparr>tie_Header = zero_TIEHeader\<lparr>th_TIEID := i\<rparr>, tie_Element = zero_TIEElement\<rparr>,
           le_RemainingLifetime = 600, le_LastReceived = 0, le_SelfOriginated = False\<rparr>))"

theorem HeadersSorted_canonical_witness:
  "map (\<lambda>h. TIENr (th_TIEID (hl_Header h))) (HeadersSorted \<lparr>db_rlocks = 0, db_entries = [ex_header_entry 2, ex_header_entry 1]\<rparr>) = [1, 2]"
proof -
  let ?a = "\<lparr>db_rlocks = 0, db_entries = [ex_header_entry 1, ex_header_entry 2]\<rparr>"
    and ?b = "\<lparr>db_rlocks = 0, db_entries = [ex_header_entry 2, ex_header_entry 1]\<rparr>"
  have ok: "db_ok ?a" "db_ok ?b" by (simp_all add: db_ok_def ex_header_entry_def gm_wf_def Let_def)
  have "\<forall>i. LSDB_Get ?a i = LSDB_Get ?b i" by (simp add: LSDB_Get_def gm_get_def ex_header_entry_def Let_def)
  from HeadersSorted_canonical [OF ok this] have "HeadersSorted ?b = HeadersSorted ?a" by simp
  moreover have "map (\<lambda>h. TIENr (th_TIEID (hl_Header h))) (HeadersSorted ?a) = [1, 2]" by code_simp
  ultimately show ?thesis by (simp only:)
qed

text \<open>
  \<^bold>\<open>The contract of the store.\<close> On a database whose caller holds no read lock, an insertion
  returns whether the identifier was new, and afterwards exactly that identifier is bound to the
  new entry; a removal unbinds exactly that identifier. Both keep the database well formed.
\<close>

theorem LSDB_insert_remove:
  assumes "db_ok db"
  shows "(\<exists>db'. LSDB_Insert e db = Some (LSDB_Get db (entry_id e) = None, db') \<and> db_ok db' \<and>
            (\<forall>j. LSDB_Get db' j = (if j = entry_id e then Some e else LSDB_Get db j))) \<and>
         (\<exists>db'. LSDB_Remove i db = Some db' \<and> db_ok db' \<and>
            (\<forall>j. LSDB_Get db' j = (if j = i then None else LSDB_Get db j)))"
proof -
  obtain new d1 where 1: "LSDB_Insert e db = Some (new, d1)" using lsdb.insert_total [OF assms] by blast
  obtain d2 where 2: "LSDB_Remove i db = Some d2" using lsdb.remove_total [OF assms] by blast
  have "new \<longleftrightarrow> LSDB_Get db (entry_id e) = None" "db_ok d1"
    "\<forall>j. LSDB_Get d1 j = (if j = entry_id e then Some e else LSDB_Get db j)"
    using lsdb.insert_new [OF assms 1] lsdb.insert_ready [OF assms 1] lsdb.get_insert [OF assms 1] by auto
  moreover have "db_ok d2" "\<forall>j. LSDB_Get d2 j = (if j = i then None else LSDB_Get db j)"
    using lsdb.remove_ready [OF assms 2] lsdb.get_remove [OF assms 2] by auto
  ultimately show ?thesis
    unfolding 1 2 by (intro conjI exI [of _ d1] exI [of _ d2]) simp_all
qed

theorem LSDB_insert_remove_witness: "\<exists>db'. LSDB_Remove MinTIEID NewLSDB = Some db' \<and> db_ok db'"
  using LSDB_insert_remove [OF NewLSDB_ok] by blast

end
