(* ===== verification/Tie_Scope.thy ===== *)
theory Tie_Scope
  imports Tie_LSDB
begin

text \<open>
  Flooding scopes, \<open>src/internal/tie/scope.go\<close>, and the acceptance rule of the flood engine
  (\<open>shouldAcceptTIE\<close> of \<open>src/internal/tie/flood.go\<close>), each a function of the TIE identifier, the
  local system and level, and the neighbor's level. Levels are signed 8-bit values.
\<close>

definition ShouldFloodTIE ::
  "TIEID \<Rightarrow> SystemIDType \<Rightarrow> LevelType \<Rightarrow> LevelType \<Rightarrow> bool" where
  "ShouldFloodTIE tieID localSystemID localLevel neighborLevel =
     (let selfOriginated = (Originator tieID = localSystemID);
          isNodeTIE = (TIEType tieID = TIETypeNodeTIEType)
      in if Direction tieID = TieDirectionNorth then slt localLevel neighborLevel
         else if Direction tieID = TieDirectionSouth then
           (if slt neighborLevel localLevel then (if isNodeTIE then True else selfOriginated)
            else if slt localLevel neighborLevel then (if isNodeTIE then True else selfOriginated)
            else if sle TopOfFabricLevel localLevel then False
            else if isNodeTIE then True
            else selfOriginated)
         else False)"

text \<open>
  In the Go function a \<open>switch\<close> on the direction without a matching case falls through to the
  next test; directions other than north and south therefore end in the east-west part.
\<close>

definition ShouldIncludeInTIDE ::
  "TIEID \<Rightarrow> SystemIDType \<Rightarrow> LevelType \<Rightarrow> LevelType \<Rightarrow> bool" where
  "ShouldIncludeInTIDE tieID localSystemID localLevel neighborLevel =
     (let selfOriginated = (Originator tieID = localSystemID);
          isNodeTIE = (TIEType tieID = TIETypeNodeTIEType);
          eastWest = (if sle TopOfFabricLevel localLevel then Direction tieID = TieDirectionNorth
                      else selfOriginated)
      in if slt neighborLevel localLevel \<and> Direction tieID = TieDirectionNorth
           then \<not> selfOriginated
         else if slt neighborLevel localLevel \<and> Direction tieID = TieDirectionSouth
           then (if selfOriginated then True else isNodeTIE)
         else if slt localLevel neighborLevel \<and> Direction tieID = TieDirectionNorth then True
         else if slt localLevel neighborLevel \<and> Direction tieID = TieDirectionSouth
           then (if isNodeTIE then True else selfOriginated)
         else eastWest)"

definition shouldAcceptTIE ::
  "SystemIDType \<Rightarrow> LevelType \<Rightarrow> TIEID \<Rightarrow> LevelType \<Rightarrow> bool" where
  "shouldAcceptTIE systemID level tid neighborLevel =
     (if Originator tid = systemID then True
      else if Direction tid = TieDirectionNorth then slt neighborLevel level
      else if Direction tid = TieDirectionSouth then
        (if TIEType tid = TIETypeNodeTIEType then True else slt level neighborLevel)
      else False)"

lemmas scope_defs = ShouldFloodTIE_def ShouldIncludeInTIDE_def shouldAcceptTIE_def

lemma flood_implies_tide:
  assumes "ShouldFloodTIE i me lvl nbr" and "lvl \<noteq> nbr"
  shows "ShouldIncludeInTIDE i me lvl nbr"
proof -
  have "sint lvl \<noteq> sint nbr" using assms(2) by (simp add: sint_eq_iff)
  with assms(1) show ?thesis by (auto simp: scope_defs Let_def split: if_splits)
qed

text \<open>Who accepts what a neighbor floods: everything but non-node South TIEs flooded northward.\<close>

lemma accept_flooded:
  assumes "ShouldFloodTIE i sender slvl rlvl" and "slvl \<noteq> rlvl"
  shows "shouldAcceptTIE receiver rlvl i slvl \<longleftrightarrow>
    \<not> (Direction i = TieDirectionSouth \<and> TIEType i \<noteq> TIETypeNodeTIEType \<and> slt slvl rlvl \<and>
       Originator i \<noteq> receiver)"
proof -
  have "sint slvl \<noteq> sint rlvl" using assms(2) by (simp add: sint_eq_iff)
  with assms(1) show ?thesis by (auto simp: scope_defs Let_def split: if_splits)
qed


text \<open>
  C32 \<^bold>\<open>The three scopes fit together.\<close> Between neighbors of different levels, a TIE that is flooded
  to a neighbor is also listed in the TIDEs sent to it (so a lost TIE is noticed), and the
  neighbor accepts it, except for a South TIE that is not a Node TIE and is sent northward.
\<close>

theorem scopes_agree:
  assumes "ShouldFloodTIE i me lvl nbr" and "lvl \<noteq> nbr"
  shows "ShouldIncludeInTIDE i me lvl nbr \<and>
    (shouldAcceptTIE peer nbr i lvl \<longleftrightarrow>
       \<not> (Direction i = TieDirectionSouth \<and> TIEType i \<noteq> TIETypeNodeTIEType \<and> slt lvl nbr \<and>
          Originator i \<noteq> peer))"
  using flood_implies_tide [OF assms] accept_flooded [OF assms] by simp

theorem scopes_agree_witness:
  "shouldAcceptTIE 2 1 (TIEID TieDirectionNorth 1 TIETypeNodeTIEType 1) 0"
  using scopes_agree [of "TIEID TieDirectionNorth 1 TIETypeNodeTIEType 1" 1 0 1 2]
  by (simp add: ShouldFloodTIE_def)

end
