(* ===== verification/Tie_Originate.thy ===== *)
theory Tie_Originate
  imports Tie_Scope "HOL-Library.Monad_Syntax"
begin

text \<open>
  The state and types of the flood engine (\<open>src/internal/tie/types.go\<close> and the structs of
  \<open>flood.go\<close>), its queues, and TIE origination (\<open>src/internal/tie/originate.go\<close>). The handlers
  are in \<open>Tie_Flood\<close>.

  The engine is one goroutine; each handler is a function from the engine's state to the next
  state, \<open>None\<close> if the goroutine blocks for ever (see \<open>Tie_LSDB\<close>). The outgoing channel
  \<open>FloodSendCh\<close> is the list of the packets in it, with its capacity of 256; the one-slot
  channel \<open>LSDBChangeCh\<close> is a flag. \<open>fe_clock\<close> is the reading of \<open>time.Now()\<close>. A Go
  \<open>for range\<close> over the adjacency map is a fold over its keys.
\<close>

section \<open>Types\<close>

record AdjacencyInfo =
  ai_InterfaceName :: string
  ai_NeighborID :: SystemIDType
  ai_NeighborLevel :: LevelType
  ai_NeighborAddr :: Addr
  ai_FloodPort :: UDPPortType
  ai_LocalLinkID :: LinkIDType
  ai_NeighborLinkID :: LinkIDType

record AdjacencyChange =
  ac_InterfaceName :: string
  ac_Info :: "AdjacencyInfo option"

record LocalPrefix =
  lpx_Prefix :: IPPrefixType
  lpx_Loopback :: bool
  lpx_Metric :: MetricType

record FloodPacket =
  fp_InterfaceName :: string
  fp_Packet :: ProtocolPacket
  fp_DestAddr :: Addr
  fp_DestPort :: int
  fp_RemainingLifetime :: LifeTimeInSecType

record ReceivedFloodPkt =
  rf_Packet :: ProtocolPacket
  rf_SrcAddr :: string
  rf_IfName :: string

record adjFloodState =
  afs_Info :: AdjacencyInfo
  afs_TIEsTX :: "TIEID goset"
  afs_TIEsACK :: "TIEID goset"
  afs_TIEsREQ :: "TIEID goset"

definition newAdjFloodState :: "AdjacencyInfo \<Rightarrow> adjFloodState" where
  "newAdjFloodState info =
     \<lparr>afs_Info = info, afs_TIEsTX = [], afs_TIEsACK = [], afs_TIEsREQ = []\<rparr>"

record FloodEngine =
  fe_lsdb :: LSDB
  fe_systemID :: SystemIDType
  fe_level :: LevelType
  fe_nodeName :: string
  fe_adjacencies :: "(string, adjFloodState) gomap"
  fe_localPrefixes :: "LocalPrefix list"
  fe_FloodSendCh :: "FloodPacket list"
  fe_LSDBChangeCh :: bool
  fe_clock :: int

definition NewFloodEngine ::
  "SystemIDType \<Rightarrow> LevelType \<Rightarrow> string \<Rightarrow> LocalPrefix list \<Rightarrow> int \<Rightarrow> FloodEngine" where
  "NewFloodEngine systemID level nodeName localPrefixes clock =
     \<lparr>fe_lsdb = NewLSDB, fe_systemID = systemID, fe_level = level, fe_nodeName = nodeName,
      fe_adjacencies = [], fe_localPrefixes = localPrefixes, fe_FloodSendCh = [],
      fe_LSDBChangeCh = False, fe_clock = clock\<rparr>"

abbreviation (input) FloodSendCap :: nat where "FloodSendCap \<equiv> 256"
abbreviation (input) MaxTIDEHeaders :: nat where "MaxTIDEHeaders \<equiv> 25"
abbreviation (input) ReoriginateBeforeExpiry :: LifeTimeInSecType where "ReoriginateBeforeExpiry \<equiv> 3600"

definition UpdateLocalPrefixes :: "LocalPrefix list \<Rightarrow> FloodEngine \<Rightarrow> FloodEngine" where
  "UpdateLocalPrefixes prefixes fe = fe\<lparr>fe_localPrefixes := prefixes\<rparr>"

definition Adjacencies :: "FloodEngine \<Rightarrow> (string, AdjacencyInfo) gomap" where
  "Adjacencies fe = gm_map (\<lambda>_ adj. afs_Info adj) (fe_adjacencies fe)"

definition notifyLSDBChange :: "FloodEngine \<Rightarrow> FloodEngine" where
  "notifyLSDBChange fe = fe\<lparr>fe_LSDBChangeCh := True\<rparr>"

text \<open>Changing the flood state of one adjacency, which the Go code does through its pointer.\<close>

definition upd_adj :: "string \<Rightarrow> (adjFloodState \<Rightarrow> adjFloodState) \<Rightarrow> FloodEngine \<Rightarrow> FloodEngine" where
  "upd_adj ifName f fe =
     fe\<lparr>fe_adjacencies := gm_map (\<lambda>k adj. if k = ifName then f adj else adj) (fe_adjacencies fe)\<rparr>"

section \<open>Queues\<close>

definition ackTIE :: "string \<Rightarrow> TIEID \<Rightarrow> FloodEngine \<Rightarrow> FloodEngine" where
  "ackTIE ifName tid = upd_adj ifName (\<lambda>adj. adj\<lparr>afs_TIEsACK := gs_add tid (afs_TIEsACK adj)\<rparr>)"

definition enqueueTX :: "string \<Rightarrow> TIEID \<Rightarrow> FloodEngine \<Rightarrow> FloodEngine" where
  "enqueueTX ifName tid = upd_adj ifName (\<lambda>adj. adj\<lparr>afs_TIEsTX := gs_add tid (afs_TIEsTX adj)\<rparr>)"

definition dequeueTX :: "string \<Rightarrow> TIEID \<Rightarrow> FloodEngine \<Rightarrow> FloodEngine" where
  "dequeueTX ifName tid = upd_adj ifName (\<lambda>adj. adj\<lparr>afs_TIEsTX := gs_del tid (afs_TIEsTX adj)\<rparr>)"

definition enqueueREQ :: "string \<Rightarrow> TIEID \<Rightarrow> FloodEngine \<Rightarrow> FloodEngine" where
  "enqueueREQ ifName tid = upd_adj ifName (\<lambda>adj. adj\<lparr>afs_TIEsREQ := gs_add tid (afs_TIEsREQ adj)\<rparr>)"

definition floodTIEToAll :: "TIEID \<Rightarrow> FloodEngine \<Rightarrow> FloodEngine" where
  "floodTIEToAll tid fe =
     fe\<lparr>fe_adjacencies := gm_map (\<lambda>_ adj.
        if ShouldFloodTIE tid (fe_systemID fe) (fe_level fe) (ai_NeighborLevel (afs_Info adj))
        then adj\<lparr>afs_TIEsTX := gs_add tid (afs_TIEsTX adj)\<rparr> else adj) (fe_adjacencies fe)\<rparr>"

definition floodTIEToAllExcept :: "TIEID \<Rightarrow> string \<Rightarrow> FloodEngine \<Rightarrow> FloodEngine" where
  "floodTIEToAllExcept tid excludeIf fe =
     fe\<lparr>fe_adjacencies := gm_map (\<lambda>_ adj.
        if ai_InterfaceName (afs_Info adj) = excludeIf then adj
        else if ShouldFloodTIE tid (fe_systemID fe) (fe_level fe) (ai_NeighborLevel (afs_Info adj))
        then adj\<lparr>afs_TIEsTX := gs_add tid (afs_TIEsTX adj)\<rparr> else adj) (fe_adjacencies fe)\<rparr>"

section \<open>Origination\<close>

definition lsdb_Insert :: "LSDBEntry \<Rightarrow> FloodEngine \<Rightarrow> FloodEngine option" where
  "lsdb_Insert e fe = map_option (\<lambda>(_, db). fe\<lparr>fe_lsdb := db\<rparr>) (LSDB_Insert e (fe_lsdb fe))"

definition insertSelfOriginated :: "TIEID \<Rightarrow> TIEElement \<Rightarrow> FloodEngine \<Rightarrow> (bool \<times> FloodEngine) option" where
  "insertSelfOriginated tid element fe =
     (let existing = LSDB_Get (fe_lsdb fe) tid;
          seqNr = (case existing of
                     Some e \<Rightarrow> if le_SelfOriginated e then entry_seq e + 1 else 1
                   | None \<Rightarrow> 1);
          lifetime = DefaultLifetime;
          pkt = \<lparr>tie_Header = \<lparr>th_TIEID = tid, th_SeqNr = seqNr, th_OriginationTime = None,
                   th_OriginationLifetime = Some lifetime\<rparr>,
                 tie_Element = element\<rparr>
      in do {
        fe \<leftarrow> lsdb_Insert \<lparr>le_Packet = pkt, le_RemainingLifetime = lifetime,
                le_LastReceived = fe_clock fe, le_SelfOriginated = True\<rparr> fe;
        Some (True, fe)
      })"

definition bumpOwnTIE :: "TIEID \<Rightarrow> FloodEngine \<Rightarrow> FloodEngine option" where
  "bumpOwnTIE tid fe =
     (case LSDB_Get (fe_lsdb fe) tid of
        None \<Rightarrow> Some fe
      | Some existing \<Rightarrow>
          if \<not> le_SelfOriginated existing then Some fe
          else
            let lifetime = DefaultLifetime;
                hdr = tie_Header (le_Packet existing);
                hdr' = hdr\<lparr>th_SeqNr := th_SeqNr hdr + 1, th_OriginationLifetime := Some lifetime\<rparr>
            in lsdb_Insert
                 (existing\<lparr>le_Packet := (le_Packet existing)\<lparr>tie_Header := hdr'\<rparr>,
                    le_RemainingLifetime := lifetime, le_LastReceived := fe_clock fe\<rparr>) fe)"

text \<open>
  The neighbors of a Node TIE: the adjacencies that satisfy the level test, later ones
  replacing earlier ones to the same system.
\<close>

definition node_neighbors ::
  "(AdjacencyInfo \<Rightarrow> bool) \<Rightarrow> FloodEngine \<Rightarrow> (SystemIDType, NodeNeighborsTIEElement) gomap" where
  "node_neighbors p fe =
     fold (\<lambda>(_, adj) m.
        if p (afs_Info adj) then
          gm_put (ai_NeighborID (afs_Info adj))
            \<lparr>nn_Level = ai_NeighborLevel (afs_Info adj), nn_Cost = Some 1,
             nn_LinkIDs = [zero_LinkIDPair\<lparr>lp_LocalID := ai_LocalLinkID (afs_Info adj),
                             lp_RemoteID := ai_NeighborLinkID (afs_Info adj)\<rparr>],
             nn_Bandwidth = None\<rparr> m
        else m) (fe_adjacencies fe) []"

definition originateNorthNodeTIE :: "FloodEngine \<Rightarrow> ((TIEID \<times> bool) \<times> FloodEngine) option" where
  "originateNorthNodeTIE fe =
     (let tid = TIEID TieDirectionNorth (fe_systemID fe) TIETypeNodeTIEType 1;
          neighbors = node_neighbors (\<lambda>info. sle (fe_level fe) (ai_NeighborLevel info)) fe;
          node = zero_NodeTIEElement\<lparr>nt_Level := fe_level fe, nt_Neighbors := neighbors,
                   nt_Capabilities := zero_NodeCapabilities\<lparr>nc_ProtocolMinorVersion := ProtocolMinorVersion\<rparr>,
                   nt_Name := fe_nodeName fe\<rparr>;
          node = (if fe_level fe = LeafLevel
                  then node\<lparr>nt_Flags := Some \<lparr>nf_Overload = Some True\<rparr>\<rparr> else node)
      in do {
        (ok, fe) \<leftarrow> insertSelfOriginated tid (zero_TIEElement\<lparr>el_Node := Some node\<rparr>) fe;
        Some ((tid, ok), fe)
      })"

definition originateNorthPrefixTIE :: "FloodEngine \<Rightarrow> ((TIEID \<times> bool) \<times> FloodEngine) option" where
  "originateNorthPrefixTIE fe =
     (let tid = TIEID TieDirectionNorth (fe_systemID fe) TIETypePrefixTIEType 1;
          prefixes = map (\<lambda>lp.
            \<lparr>pe_Prefix = lpx_Prefix lp,
             pe_Attributes = zero_PrefixAttributes\<lparr>pa_Metric := lpx_Metric lp,
               pa_Loopback := (if lpx_Loopback lp then Some True else None)\<rparr>\<rparr>) (fe_localPrefixes fe)
      in do {
        (ok, fe) \<leftarrow> insertSelfOriginated tid (zero_TIEElement\<lparr>el_Prefixes := Some \<lparr>pt_Prefixes = prefixes\<rparr>\<rparr>) fe;
        Some ((tid, ok), fe)
      })"

definition originateSouthNodeTIE :: "FloodEngine \<Rightarrow> ((TIEID \<times> bool) \<times> FloodEngine) option" where
  "originateSouthNodeTIE fe =
     (let tid = TIEID TieDirectionSouth (fe_systemID fe) TIETypeNodeTIEType 1;
          neighbors = node_neighbors (\<lambda>info. slt (ai_NeighborLevel info) (fe_level fe)) fe;
          node = zero_NodeTIEElement\<lparr>nt_Level := fe_level fe, nt_Neighbors := neighbors,
                   nt_Capabilities := zero_NodeCapabilities\<lparr>nc_ProtocolMinorVersion := ProtocolMinorVersion\<rparr>,
                   nt_Name := fe_nodeName fe\<rparr>
      in do {
        (ok, fe) \<leftarrow> insertSelfOriginated tid (zero_TIEElement\<lparr>el_Node := Some node\<rparr>) fe;
        Some ((tid, ok), fe)
      })"

definition originateSouthPrefixTIE :: "FloodEngine \<Rightarrow> ((TIEID \<times> bool) \<times> FloodEngine) option" where
  "originateSouthPrefixTIE fe =
     (let tid = TIEID TieDirectionSouth (fe_systemID fe) TIETypePrefixTIEType 1;
          defaultRoute = zero_IPPrefix\<lparr>ip_IPv4Prefix := Some \<lparr>p4_Address = 0, p4_PrefixLen = 0\<rparr>\<rparr>;
          element = zero_TIEElement\<lparr>el_Prefixes := Some \<lparr>pt_Prefixes =
            [\<lparr>pe_Prefix = defaultRoute, pe_Attributes = zero_PrefixAttributes\<lparr>pa_Metric := 1\<rparr>\<rparr>]\<rparr>\<rparr>
      in do {
        (ok, fe) \<leftarrow> insertSelfOriginated tid element fe;
        Some ((tid, ok), fe)
      })"

text \<open>\<open>if id, ok := originate...(); ok { changed = append(changed, id) }\<close>\<close>

definition collect_changed ::
  "(FloodEngine \<Rightarrow> ((TIEID \<times> bool) \<times> FloodEngine) option) \<Rightarrow> TIEID list \<times> FloodEngine \<Rightarrow>
   (TIEID list \<times> FloodEngine) option" where
  "collect_changed f = (\<lambda>(changed, fe). do {
     ((tid, ok), fe) \<leftarrow> f fe;
     Some (if ok then changed @ [tid] else changed, fe)
   })"

definition originateSelfTIEs :: "FloodEngine \<Rightarrow> (TIEID list \<times> FloodEngine) option" where
  "originateSelfTIEs fe = do {
     s \<leftarrow> collect_changed originateNorthNodeTIE ([], fe);
     s \<leftarrow> collect_changed originateNorthPrefixTIE s;
     if slt LeafLevel (fe_level fe) then do {
       s \<leftarrow> collect_changed originateSouthNodeTIE s;
       collect_changed originateSouthPrefixTIE s
     } else Some s
   }"

definition OriginatePositiveDisaggTIE ::
  "PrefixEntry list \<Rightarrow> FloodEngine \<Rightarrow> ((TIEID \<times> bool) \<times> FloodEngine) option" where
  "OriginatePositiveDisaggTIE prefixes fe =
     (let tid = TIEID TieDirectionSouth (fe_systemID fe) TIETypePositiveDisaggregationPrefixTIEType 1
      in if prefixes = [] then
           (case LSDB_Get (fe_lsdb fe) tid of
              None \<Rightarrow> Some ((tid, False), fe)
            | Some existing \<Rightarrow>
                if \<not> le_SelfOriginated existing then Some ((tid, False), fe)
                else if (case el_PositiveDisaggregationPrefixes (tie_Element (le_Packet existing)) of
                           Some pt \<Rightarrow> length (pt_Prefixes pt) = 0 | None \<Rightarrow> False)
                then Some ((tid, False), fe)
                else do {
                  (_, fe) \<leftarrow> insertSelfOriginated tid
                    (zero_TIEElement\<lparr>el_PositiveDisaggregationPrefixes := Some zero_PrefixTIEElement\<rparr>) fe;
                  Some ((tid, True), fe)
                })
         else do {
           (changed, fe) \<leftarrow> insertSelfOriginated tid
             (zero_TIEElement\<lparr>el_PositiveDisaggregationPrefixes := Some \<lparr>pt_Prefixes = prefixes\<rparr>\<rparr>) fe;
           Some ((tid, changed), fe)
         })"

end
