(* ===== verification/Tie_Flood.thy ===== *)
theory Tie_Flood
  imports Tie_Originate
begin

text \<open>
  The handlers of the flood engine, \<open>src/internal/tie/flood.go\<close>: adjacency changes, received
  TIE, TIDE and TIRE packets, TIDE generation, lifetimes and the draining of the queues; and the
  loop \<open>Run\<close> as a step relation over the events its \<open>select\<close> serves. \<open>None\<close> is a handler that
  never returns (see \<open>Tie_LSDB\<close>).
\<close>

section \<open>Sending\<close>

definition packet_header :: "FloodEngine \<Rightarrow> PacketHeader" where
  "packet_header fe =
     \<lparr>ph_MajorVersion = ProtocolMajorVersion, ph_MinorVersion = ProtocolMinorVersion,
      ph_Sender = fe_systemID fe, ph_Level = Some (fe_level fe)\<rparr>"

text \<open>
  The send on \<open>FloodSendCh\<close> does not block: a packet that does not fit is dropped. The
  destination port is the sign extension of the 16-bit field.
\<close>

definition sendFloodPacket ::
  "adjFloodState \<Rightarrow> ProtocolPacket \<Rightarrow> LifeTimeInSecType \<Rightarrow> FloodEngine \<Rightarrow> FloodEngine" where
  "sendFloodPacket adj pkt remainingLifetime fe =
     (let fp = \<lparr>fp_InterfaceName = ai_InterfaceName (afs_Info adj), fp_Packet = pkt,
                fp_DestAddr = ai_NeighborAddr (afs_Info adj),
                fp_DestPort = sint (ai_FloodPort (afs_Info adj)),
                fp_RemainingLifetime = remainingLifetime\<rparr>
      in if length (fe_FloodSendCh fe) < FloodSendCap
         then fe\<lparr>fe_FloodSendCh := fe_FloodSendCh fe @ [fp]\<rparr> else fe)"

definition sendTIRE :: "adjFloodState \<Rightarrow> TIEHeaderWithLifeTime list \<Rightarrow> FloodEngine \<Rightarrow> FloodEngine" where
  "sendTIRE adj headers fe =
     sendFloodPacket adj
       \<lparr>pp_Header = packet_header fe,
        pp_Content = zero_PacketContent\<lparr>pc_TIRE := Some \<lparr>tire_Headers = headers\<rparr>\<rparr>\<rparr> 0 fe"

section \<open>TIDE generation\<close>

text \<open>
  The loop of \<open>buildTIDEChunks\<close>: at most \<open>MaxTIDEHeaders\<close> headers per packet, each packet
  starting where the previous one ended.
\<close>

function build_chunks :: "TIEID \<Rightarrow> TIEHeaderWithLifeTime list \<Rightarrow> TIDEPacket list" where
  "build_chunks startRange hs =
     (if hs = [] then []
      else
        let chunk = take MaxTIDEHeaders hs; rest = drop MaxTIDEHeaders hs;
            endRange = (if rest = [] then MaxTIEID else th_TIEID (hl_Header (last chunk)))
        in \<lparr>tide_StartRange = startRange, tide_EndRange = endRange, tide_Headers = chunk\<rparr>
             # build_chunks endRange rest)"
  by pat_completeness auto
termination
  by (relation "measure (\<lambda>(_, hs). length hs)") auto

declare build_chunks.simps [simp del]

definition buildTIDEChunks :: "TIEHeaderWithLifeTime list \<Rightarrow> TIDEPacket list" where
  "buildTIDEChunks headers =
     (if headers = []
      then [\<lparr>tide_StartRange = MinTIEID, tide_EndRange = MaxTIEID, tide_Headers = []\<rparr>]
      else build_chunks MinTIEID headers)"

definition upd_lsdb :: "(LSDB \<Rightarrow> LSDB) \<Rightarrow> FloodEngine \<Rightarrow> FloodEngine" where
  "upd_lsdb f fe = fe\<lparr>fe_lsdb := f (fe_lsdb fe)\<rparr>"

text \<open>The headers a TIDE to this neighbor lists, collected by the \<open>ForEachSorted\<close> callback.\<close>

definition tide_headers :: "LevelType \<Rightarrow> FloodEngine \<Rightarrow> TIEHeaderWithLifeTime list option" where
  "tide_headers neighborLevel fe =
     map_option snd
       (ForEachSorted (\<lambda>(fe, _). fe_lsdb fe) (\<lambda>f (fe, hs). (upd_lsdb f fe, hs))
          (\<lambda>tid entry (fe, hs).
             if ShouldIncludeInTIDE tid (fe_systemID fe) (fe_level fe) neighborLevel
             then Some (True, (fe, hs @ [LSDBEntry_Header entry]))
             else Some (True, (fe, hs)))
          (fe, []))"

definition sendTIDEsToAdj :: "string \<Rightarrow> FloodEngine \<Rightarrow> FloodEngine option" where
  "sendTIDEsToAdj ifName fe =
     (case gm_get (fe_adjacencies fe) ifName of
        None \<Rightarrow> Some fe
      | Some adj \<Rightarrow> do {
          headers \<leftarrow> tide_headers (ai_NeighborLevel (afs_Info adj)) fe;
          Some (fold (\<lambda>tide fe.
             sendFloodPacket adj
               \<lparr>pp_Header = packet_header fe,
                pp_Content = zero_PacketContent\<lparr>pc_TIDE := Some tide\<rparr>\<rparr> 0 fe)
             (buildTIDEChunks headers) fe)
        })"

definition generateAndSendTIDEs :: "FloodEngine \<Rightarrow> FloodEngine option" where
  "generateAndSendTIDEs fe = fold_opt sendTIDEsToAdj (gm_keys (fe_adjacencies fe)) fe"

section \<open>Received packets\<close>

definition rx_header :: "TIEPacket \<Rightarrow> TIEHeaderWithLifeTime" where
  "rx_header tie =
     \<lparr>hl_Header = tie_Header tie,
      hl_RemainingLifetime = (case th_OriginationLifetime (tie_Header tie) of
                                Some lt \<Rightarrow> lt | None \<Rightarrow> DefaultLifetime)\<rparr>"

definition rx_entry :: "TIEPacket \<Rightarrow> int \<Rightarrow> LSDBEntry" where
  "rx_entry tie now =
     \<lparr>le_Packet = tie, le_RemainingLifetime = hl_RemainingLifetime (rx_header tie),
      le_LastReceived = now, le_SelfOriginated = False\<rparr>"

text \<open>Storing a received TIE: insert, acknowledge, flood onward, notify SPF.\<close>

definition install_tie :: "string \<Rightarrow> TIEPacket \<Rightarrow> FloodEngine \<Rightarrow> FloodEngine option" where
  "install_tie ifName tie fe =
     (let tid = th_TIEID (tie_Header tie) in do {
        fe \<leftarrow> lsdb_Insert (rx_entry tie (fe_clock fe)) fe;
        Some (notifyLSDBChange (floodTIEToAllExcept tid ifName (ackTIE ifName tid fe)))
      })"

definition handleTIE :: "string \<Rightarrow> TIEPacket \<Rightarrow> FloodEngine \<Rightarrow> FloodEngine option" where
  "handleTIE ifName tie fe =
     (let tid = th_TIEID (tie_Header tie) in
      case gm_get (fe_adjacencies fe) ifName of
        None \<Rightarrow> Some fe
      | Some adj \<Rightarrow>
          (case LSDB_Get (fe_lsdb fe) tid of
             None \<Rightarrow>
               if Originator tid = fe_systemID fe then do {
                 fe \<leftarrow> bumpOwnTIE tid fe;
                 Some (floodTIEToAll tid fe)
               }
               else if \<not> shouldAcceptTIE (fe_systemID fe) (fe_level fe) tid
                          (ai_NeighborLevel (afs_Info adj)) then Some fe
               else install_tie ifName tie fe
           | Some existing \<Rightarrow>
               let cmp = CompareTIEHeader (rx_header tie) (LSDBEntry_Header existing) in
               if cmp > 0 then
                 (if Originator tid = fe_systemID fe then do {
                    fe \<leftarrow> bumpOwnTIE tid fe;
                    Some (floodTIEToAll tid fe)
                  }
                  else install_tie ifName tie fe)
               else if cmp < 0 then Some (enqueueTX ifName tid fe)
               else Some (ackTIE ifName tid fe)))"

definition tide_entry ::
  "string \<Rightarrow> LevelType \<Rightarrow> TIEHeaderWithLifeTime \<Rightarrow> FloodEngine \<Rightarrow> FloodEngine option" where
  "tide_entry ifName neighborLevel hdr fe =
     (let tid = th_TIEID (hl_Header hdr) in
      case LSDB_Get (fe_lsdb fe) tid of
        None \<Rightarrow>
          if Originator tid = fe_systemID fe then do {
            (_, fe) \<leftarrow> originateSelfTIEs fe;
            Some (floodTIEToAll tid fe)
          }
          else if shouldAcceptTIE (fe_systemID fe) (fe_level fe) tid neighborLevel
          then Some (enqueueREQ ifName tid fe)
          else Some fe
      | Some existing \<Rightarrow>
          let cmp = CompareTIEHeader hdr (LSDBEntry_Header existing) in
          if cmp > 0 then
            (if Originator tid = fe_systemID fe then do {
               fe \<leftarrow> bumpOwnTIE tid fe;
               Some (floodTIEToAll tid fe)
             }
             else if shouldAcceptTIE (fe_systemID fe) (fe_level fe) tid neighborLevel
             then Some (enqueueREQ ifName tid fe)
             else Some fe)
          else if cmp < 0 then Some (enqueueTX ifName tid fe)
          else Some (dequeueTX ifName tid fe))"

text \<open>The callback over our own database: TIEs in the range of the TIDE that it does not list.\<close>

definition tide_missing ::
  "string \<Rightarrow> LevelType \<Rightarrow> TIDEPacket \<Rightarrow> TIEID \<Rightarrow> LSDBEntry \<Rightarrow> FloodEngine \<Rightarrow> (bool \<times> FloodEngine) option"
where
  "tide_missing ifName neighborLevel tide tid entry fe =
     (if CompareTIEID tid (tide_StartRange tide) < 0 then Some (True, fe)
      else if CompareTIEID tid (tide_EndRange tide) > 0 then Some (False, fe)
      else if tid \<notin> set (map (\<lambda>h. th_TIEID (hl_Header h)) (tide_Headers tide)) \<and>
              ShouldFloodTIE tid (fe_systemID fe) (fe_level fe) neighborLevel
      then Some (True, enqueueTX ifName tid fe)
      else Some (True, fe))"

definition handleTIDE :: "string \<Rightarrow> TIDEPacket \<Rightarrow> FloodEngine \<Rightarrow> FloodEngine option" where
  "handleTIDE ifName tide fe =
     (case gm_get (fe_adjacencies fe) ifName of
        None \<Rightarrow> Some fe
      | Some adj \<Rightarrow>
          let neighborLevel = ai_NeighborLevel (afs_Info adj) in do {
            fe \<leftarrow> fold_opt (tide_entry ifName neighborLevel) (tide_Headers tide) fe;
            ForEachSorted fe_lsdb upd_lsdb (tide_missing ifName neighborLevel tide) fe
          })"

definition tire_entry :: "string \<Rightarrow> TIEHeaderWithLifeTime \<Rightarrow> FloodEngine \<Rightarrow> FloodEngine" where
  "tire_entry ifName hdr fe =
     (let tid = th_TIEID (hl_Header hdr) in
      if hl_RemainingLifetime hdr = 0 then
        (case LSDB_Get (fe_lsdb fe) tid of
           None \<Rightarrow> fe
         | Some existing \<Rightarrow>
             if CompareTIEHeader hdr (LSDBEntry_Header existing) \<le> 0
             then enqueueTX ifName tid fe else fe)
      else
        (case LSDB_Get (fe_lsdb fe) tid of
           None \<Rightarrow> fe
         | Some existing \<Rightarrow>
             if CompareTIEHeader hdr (LSDBEntry_Header existing) = 0
             then dequeueTX ifName tid fe else fe))"

definition handleTIRE :: "string \<Rightarrow> TIREPacket \<Rightarrow> FloodEngine \<Rightarrow> FloodEngine" where
  "handleTIRE ifName tire fe =
     (case gm_get (fe_adjacencies fe) ifName of
        None \<Rightarrow> fe
      | Some adj \<Rightarrow> fold (tire_entry ifName) (tire_Headers tire) fe)"

definition handleFloodPacket :: "ReceivedFloodPkt \<Rightarrow> FloodEngine \<Rightarrow> FloodEngine option" where
  "handleFloodPacket rpkt fe =
     (let content = pp_Content (rf_Packet rpkt); ifName = rf_IfName rpkt in
      case pc_TIE content of
        Some tie \<Rightarrow> handleTIE ifName tie fe
      | None \<Rightarrow>
          (case pc_TIDE content of
             Some tide \<Rightarrow> handleTIDE ifName tide fe
           | None \<Rightarrow>
               (case pc_TIRE content of
                  Some tire \<Rightarrow> Some (handleTIRE ifName tire fe)
                | None \<Rightarrow> Some fe)))"

section \<open>Adjacency changes and disaggregation\<close>

definition handleAdjChange :: "AdjacencyChange \<Rightarrow> FloodEngine \<Rightarrow> FloodEngine option" where
  "handleAdjChange change fe =
     (let fe = (case ac_Info change of
                  Some info \<Rightarrow> fe\<lparr>fe_adjacencies :=
                    gm_put (ac_InterfaceName change) (newAdjFloodState info) (fe_adjacencies fe)\<rparr>
                | None \<Rightarrow> fe\<lparr>fe_adjacencies :=
                    gm_del (ac_InterfaceName change) (fe_adjacencies fe)\<rparr>)
      in do {
        (changed, fe) \<leftarrow> originateSelfTIEs fe;
        Some (notifyLSDBChange (fold floodTIEToAll changed fe))
      })"

definition handleDisaggUpdate :: "PrefixEntry list \<Rightarrow> FloodEngine \<Rightarrow> FloodEngine option" where
  "handleDisaggUpdate prefixes fe = do {
     ((tid, changed), fe) \<leftarrow> OriginatePositiveDisaggTIE prefixes fe;
     if changed then Some (notifyLSDBChange (floodTIEToAll tid fe)) else Some fe
   }"

section \<open>Lifetimes\<close>

text \<open>The callback of the re-origination loop, which runs under the read lock.\<close>

definition reoriginate :: "TIEID \<Rightarrow> LSDBEntry \<Rightarrow> FloodEngine \<Rightarrow> (bool \<times> FloodEngine) option" where
  "reoriginate tid entry fe =
     (if le_SelfOriginated entry \<and> slt (le_RemainingLifetime entry) ReoriginateBeforeExpiry
      then do {
        fe \<leftarrow> bumpOwnTIE tid fe;
        Some (True, floodTIEToAll tid fe)
      }
      else Some (True, fe))"

definition tickLifetimes :: "FloodEngine \<Rightarrow> FloodEngine option" where
  "tickLifetimes fe = do {
     (expired, db) \<leftarrow> DecrementLifetimes 1 (fe_lsdb fe);
     db \<leftarrow> fold_opt LSDB_Remove expired db;
     let fe = fe\<lparr>fe_lsdb := db\<rparr>;
     let fe = (if length expired > 0 then notifyLSDBChange fe else fe);
     ForEachSorted fe_lsdb upd_lsdb reoriginate fe
   }"

section \<open>Draining the queues\<close>

definition drain_acks :: "string \<Rightarrow> adjFloodState \<Rightarrow> FloodEngine \<Rightarrow> FloodEngine" where
  "drain_acks ifName adj fe =
     (if length (afs_TIEsACK adj) > 0 then
        let headers = List.map_filter
              (\<lambda>tid. map_option LSDBEntry_Header (LSDB_Get (fe_lsdb fe) tid)) (afs_TIEsACK adj);
            fe = (if length headers > 0 then sendTIRE adj headers fe else fe)
        in upd_adj ifName (\<lambda>adj. adj\<lparr>afs_TIEsACK := []\<rparr>) fe
      else fe)"

definition drain_reqs :: "string \<Rightarrow> adjFloodState \<Rightarrow> FloodEngine \<Rightarrow> FloodEngine" where
  "drain_reqs ifName adj fe =
     (if length (afs_TIEsREQ adj) > 0 then
        let headers = map (\<lambda>tid. \<lparr>hl_Header = zero_TIEHeader\<lparr>th_TIEID := tid\<rparr>,
                                  hl_RemainingLifetime = 0\<rparr>) (afs_TIEsREQ adj);
            fe = sendTIRE adj headers fe
        in upd_adj ifName (\<lambda>adj. adj\<lparr>afs_TIEsREQ := []\<rparr>) fe
      else fe)"

definition drain_tx :: "string \<Rightarrow> adjFloodState \<Rightarrow> TIEID \<Rightarrow> FloodEngine \<Rightarrow> FloodEngine" where
  "drain_tx ifName adj tid fe =
     (case LSDB_Get (fe_lsdb fe) tid of
        None \<Rightarrow> dequeueTX ifName tid fe
      | Some entry \<Rightarrow>
          dequeueTX ifName tid
            (sendFloodPacket adj
               \<lparr>pp_Header = packet_header fe,
                pp_Content = zero_PacketContent\<lparr>pc_TIE := Some (le_Packet entry)\<rparr>\<rparr>
               (le_RemainingLifetime entry) fe))"

definition drainAdjQueues :: "string \<Rightarrow> FloodEngine \<Rightarrow> FloodEngine" where
  "drainAdjQueues ifName fe =
     (case gm_get (fe_adjacencies fe) ifName of
        None \<Rightarrow> fe
      | Some adj \<Rightarrow>
          fold (drain_tx ifName adj) (afs_TIEsTX adj)
            (drain_reqs ifName adj (drain_acks ifName adj fe)))"

definition drainQueues :: "FloodEngine \<Rightarrow> FloodEngine" where
  "drainQueues fe = fold drainAdjQueues (gm_keys (fe_adjacencies fe)) fe"

section \<open>The engine's loop\<close>

text \<open>What the \<open>select\<close> of \<open>Run\<close> serves.\<close>

datatype flood_event =
    AdjChangeEv AdjacencyChange
  | FloodRecvEv ReceivedFloodPkt
  | TIDETickEv
  | LifetimeTickEv
  | TXTickEv
  | DisaggUpdateEv "PrefixEntry list"

fun serve :: "flood_event \<Rightarrow> FloodEngine \<Rightarrow> FloodEngine option" where
  "serve (AdjChangeEv change) fe = handleAdjChange change fe"
| "serve (FloodRecvEv pkt) fe = handleFloodPacket pkt fe"
| "serve TIDETickEv fe = generateAndSendTIDEs fe"
| "serve LifetimeTickEv fe = tickLifetimes fe"
| "serve TXTickEv fe = Some (drainQueues fe)"
| "serve (DisaggUpdateEv prefixes) fe = handleDisaggUpdate prefixes fe"

text \<open>
  The engine and its environment: a served event, the transport taking a packet from
  \<open>FloodSendCh\<close>, the agent taking the change notification, and time passing.
\<close>

inductive flood_step :: "FloodEngine \<Rightarrow> FloodEngine \<Rightarrow> bool" where
  served: "serve ev fe = Some fe' \<Longrightarrow> flood_step fe fe'"
| packet_taken: "fe_FloodSendCh fe = fp # fps \<Longrightarrow> flood_step fe (fe\<lparr>fe_FloodSendCh := fps\<rparr>)"
| change_taken: "fe_LSDBChangeCh fe \<Longrightarrow> flood_step fe (fe\<lparr>fe_LSDBChangeCh := False\<rparr>)"
| time_passes: "fe_clock fe \<le> t \<Longrightarrow> flood_step fe (fe\<lparr>fe_clock := t\<rparr>)"

inductive flood_reachable :: "FloodEngine \<Rightarrow> FloodEngine \<Rightarrow> bool" where
  flood_init: "flood_reachable (NewFloodEngine systemID level name prefixes clock)
                               (NewFloodEngine systemID level name prefixes clock)"
| flood_more: "flood_reachable fe0 fe \<Longrightarrow> flood_step fe fe' \<Longrightarrow> flood_reachable fe0 fe'"

end
