(* ===== verification/Tie_Flood_Props.thy ===== *)
theory Tie_Flood_Props
  imports Tie_Flood
begin

text \<open>
  What the flood engine keeps: the invariant \<open>fe_ok\<close> and the preorder \<open>fe_le\<close> between the states
  before and after a handler, a locale for handlers that keep both and never block, its
  interpretation for every handler but \<open>tickLifetimes\<close>, and the exact condition under which
  \<open>tickLifetimes\<close> blocks.
\<close>

section \<open>The invariant and the preorder\<close>

definition adj_ok :: "adjFloodState \<Rightarrow> bool" where
  "adj_ok adj \<longleftrightarrow> distinct (afs_TIEsTX adj) \<and> distinct (afs_TIEsACK adj) \<and> distinct (afs_TIEsREQ adj)"

text \<open>
  The database is well formed and unlocked, the adjacency map and its queues are sets, the
  entries marked as self-originated are exactly those with our own system as originator, and
  the channel holds no more than its capacity.
\<close>

definition fe_ok :: "FloodEngine \<Rightarrow> bool" where
  "fe_ok fe \<longleftrightarrow> db_ok (fe_lsdb fe) \<and> gm_wf (fe_adjacencies fe) \<and>
     list_all (\<lambda>(_, adj). adj_ok adj) (fe_adjacencies fe) \<and>
     list_all (\<lambda>(i, e). le_SelfOriginated e \<longleftrightarrow> Originator i = fe_systemID fe)
       (db_entries (fe_lsdb fe)) \<and>
     length (fe_FloodSendCh fe) \<le> FloodSendCap"

text \<open>
  The identity of the node stays, no entry disappears, and the sequence number of an entry
  of another originator does not go down.
\<close>

definition fe_le :: "FloodEngine \<Rightarrow> FloodEngine \<Rightarrow> bool" where
  "fe_le fe fe' \<longleftrightarrow>
     fe_systemID fe' = fe_systemID fe \<and> fe_level fe' = fe_level fe \<and> fe_nodeName fe' = fe_nodeName fe \<and>
     (\<forall>i e. LSDB_Get (fe_lsdb fe) i = Some e \<longrightarrow>
        (\<exists>e'. LSDB_Get (fe_lsdb fe') i = Some e' \<and>
           (Originator i \<noteq> fe_systemID fe \<longrightarrow> sle (entry_seq e) (entry_seq e'))))"

lemma fe_le_refl [simp, intro]: "fe_le fe fe"
  by (simp add: fe_le_def)

lemma fe_le_trans:
  assumes "fe_le a b" and "fe_le b c"
  shows "fe_le a c"
proof -
  have "\<exists>e''. LSDB_Get (fe_lsdb c) i = Some e'' \<and>
      (Originator i \<noteq> fe_systemID a \<longrightarrow> sle (entry_seq e) (entry_seq e''))"
    if get: "LSDB_Get (fe_lsdb a) i = Some e" for i e
  proof -
    obtain e' where e': "LSDB_Get (fe_lsdb b) i = Some e'"
      and 1: "Originator i \<noteq> fe_systemID a \<longrightarrow> sle (entry_seq e) (entry_seq e')"
      using assms(1) get unfolding fe_le_def by blast
    obtain e'' where "LSDB_Get (fe_lsdb c) i = Some e''"
      and "Originator i \<noteq> fe_systemID a \<longrightarrow> sle (entry_seq e') (entry_seq e'')"
      using assms e' unfolding fe_le_def by fastforce
    with 1 show ?thesis by auto
  qed
  with assms show ?thesis by (simp add: fe_le_def)
qed

lemma fe_ok_alt:
  "fe_ok fe \<longleftrightarrow> db_ok (fe_lsdb fe) \<and> gm_wf (fe_adjacencies fe) \<and>
     (\<forall>k adj. gm_get (fe_adjacencies fe) k = Some adj \<longrightarrow> adj_ok adj) \<and>
     (\<forall>i e. LSDB_Get (fe_lsdb fe) i = Some e \<longrightarrow> (le_SelfOriginated e \<longleftrightarrow> Originator i = fe_systemID fe)) \<and>
     length (fe_FloodSendCh fe) \<le> FloodSendCap"
  unfolding fe_ok_def list_all_iff LSDB_Get_def db_ok_def by (auto simp: gm_get_in)

lemma fe_okD:
  assumes "fe_ok fe"
  shows "db_ok (fe_lsdb fe)" and "gm_wf (fe_adjacencies fe)" and "db_rlocks (fe_lsdb fe) = 0"
    and "LSDB_Get (fe_lsdb fe) i = Some e \<Longrightarrow> le_SelfOriginated e \<longleftrightarrow> Originator i = fe_systemID fe"
    and "LSDB_Get (fe_lsdb fe) i = Some e \<Longrightarrow> entry_id e = i"
  using assms by (auto simp: fe_ok_alt db_ok_alt)

text \<open>Handlers that keep the invariant, move up in the preorder and return.\<close>

locale flood_handler =
  fixes h :: "FloodEngine \<Rightarrow> FloodEngine option"
  assumes safe: "fe_ok fe \<Longrightarrow> \<exists>fe'. h fe = Some fe' \<and> fe_ok fe' \<and> fe_le fe fe'"
begin

lemma returns: "fe_ok fe \<Longrightarrow> h fe \<noteq> None"
  using safe by fastforce

lemma keeps: "fe_ok fe \<Longrightarrow> h fe = Some fe' \<Longrightarrow> fe_ok fe' \<and> fe_le fe fe'"
  using safe by fastforce

lemma then_safe:
  assumes "fe_ok fe" and "flood_handler g"
  shows "\<exists>fe'. Option.bind (h fe) g = Some fe' \<and> fe_ok fe' \<and> fe_le fe fe'"
proof -
  obtain fe1 where 1: "h fe = Some fe1" "fe_ok fe1" "fe_le fe fe1"
    using safe [OF assms(1)] by blast
  obtain fe2 where "g fe1 = Some fe2" "fe_ok fe2" "fe_le fe1 fe2"
    using flood_handler.safe [OF assms(2) 1(2)] by blast
  with 1 show ?thesis by (auto intro: fe_le_trans)
qed

lemma then_pure:
  assumes "fe_ok fe" and "\<And>fe. fe_ok fe \<Longrightarrow> fe_ok (g fe) \<and> fe_le fe (g fe)"
  shows "\<exists>fe'. Option.bind (h fe) (\<lambda>fe. Some (g fe)) = Some fe' \<and> fe_ok fe' \<and> fe_le fe fe'"
  by (rule then_safe [OF assms(1)]) (use assms(2) in \<open>auto intro: flood_handler.intro\<close>)

end

lemma handler_fold:
  assumes "\<And>x. x \<in> set xs \<Longrightarrow> flood_handler (f x)"
  shows "flood_handler (fold_opt f xs)"
proof
  fix fe assume "fe_ok fe"
  then have "\<exists>fe'. fold_opt f xs fe = Some fe' \<and> (fe_ok fe' \<and> fe_le fe fe')"
    using assms by (intro fold_opt_inv) (auto dest!: flood_handler.safe intro: fe_le_trans)
  then show "\<exists>fe'. fold_opt f xs fe = Some fe' \<and> fe_ok fe' \<and> fe_le fe fe'" by simp
qed

section \<open>Pure operations\<close>

lemma queue_ok:
  assumes "fe_ok fe" and "\<And>k adj. adj_ok adj \<Longrightarrow> adj_ok (f k adj)"
  shows "fe_ok (fe\<lparr>fe_adjacencies := gm_map f (fe_adjacencies fe)\<rparr>) \<and>
         fe_le fe (fe\<lparr>fe_adjacencies := gm_map f (fe_adjacencies fe)\<rparr>)"
  using assms by (auto simp: fe_ok_alt fe_le_def go_map_laws)

lemma upd_adj_ok:
  assumes "fe_ok fe" and "\<And>adj. adj_ok adj \<Longrightarrow> adj_ok (f adj)"
  shows "fe_ok (upd_adj k f fe) \<and> fe_le fe (upd_adj k f fe)"
  unfolding upd_adj_def by (rule queue_ok) (use assms in auto)

lemma queue_ops_ok:
  assumes "fe_ok fe"
  shows "fe_ok (ackTIE k i fe) \<and> fe_le fe (ackTIE k i fe)"
    and "fe_ok (enqueueTX k i fe) \<and> fe_le fe (enqueueTX k i fe)"
    and "fe_ok (dequeueTX k i fe) \<and> fe_le fe (dequeueTX k i fe)"
    and "fe_ok (enqueueREQ k i fe) \<and> fe_le fe (enqueueREQ k i fe)"
    and "fe_ok (floodTIEToAll i fe) \<and> fe_le fe (floodTIEToAll i fe)"
    and "fe_ok (floodTIEToAllExcept i k fe) \<and> fe_le fe (floodTIEToAllExcept i k fe)"
  unfolding ackTIE_def enqueueTX_def dequeueTX_def enqueueREQ_def floodTIEToAll_def
    floodTIEToAllExcept_def
  using assms
  by (rule upd_adj_ok queue_ok; simp add: adj_ok_def distinct_gs_add distinct_gs_del)+

lemma notify_ok: "fe_ok fe \<Longrightarrow> fe_ok (notifyLSDBChange fe) \<and> fe_le fe (notifyLSDBChange fe)"
  by (simp add: fe_ok_alt fe_le_def notifyLSDBChange_def)

lemma send_ok: "fe_ok fe \<Longrightarrow> fe_ok (sendFloodPacket adj p lt fe) \<and> fe_le fe (sendFloodPacket adj p lt fe)"
  by (auto simp: fe_ok_alt fe_le_def sendFloodPacket_def Let_def)

lemma pure_comp:
  assumes "fe_ok fe \<Longrightarrow> fe_ok (f fe) \<and> fe_le fe (f fe)"
    and "\<And>fe. fe_ok fe \<Longrightarrow> fe_ok (g fe) \<and> fe_le fe (g fe)" and "fe_ok fe"
  shows "fe_ok (g (f fe)) \<and> fe_le fe (g (f fe))"
  using assms by (blast intro: fe_le_trans)

lemma pure_fold:
  assumes "\<And>x fe. x \<in> set xs \<Longrightarrow> fe_ok fe \<Longrightarrow> fe_ok (f x fe) \<and> fe_le fe (f x fe)" and "fe_ok fe"
  shows "fe_ok (fold f xs fe) \<and> fe_le fe (fold f xs fe)"
  using assms by (induction xs arbitrary: fe) (auto intro: fe_le_trans)

lemma handler_pure:
  "(\<And>fe. fe_ok fe \<Longrightarrow> fe_ok (f fe) \<and> fe_le fe (f fe)) \<Longrightarrow> flood_handler (\<lambda>fe. Some (f fe))"
  by unfold_locales blast

section \<open>Insertion and origination\<close>

definition put_entry :: "LSDBEntry \<Rightarrow> FloodEngine \<Rightarrow> FloodEngine" where
  "put_entry e fe = fe\<lparr>fe_lsdb := (fe_lsdb fe)\<lparr>db_entries :=
     gm_put (entry_id e) e (db_entries (fe_lsdb fe))\<rparr>\<rparr>"

lemma lsdb_Insert_eq: "db_rlocks (fe_lsdb fe) = 0 \<Longrightarrow> lsdb_Insert e fe = Some (put_entry e fe)"
  by (simp add: lsdb_Insert_def put_entry_def LSDB_Insert_unlocked)

lemma lsdb_Insert_blocked: "db_rlocks (fe_lsdb fe) > 0 \<Longrightarrow> lsdb_Insert e fe = None"
  by (simp add: lsdb_Insert_def LSDB_Insert_def)

lemma put_entry_get [simp]:
  "LSDB_Get (fe_lsdb (put_entry e fe)) i = (if i = entry_id e then Some e else LSDB_Get (fe_lsdb fe) i)"
  by (simp add: put_entry_def LSDB_Get_put)

lemma put_entry_frame [simp]:
  "fe_systemID (put_entry e fe) = fe_systemID fe" "fe_level (put_entry e fe) = fe_level fe"
  "fe_nodeName (put_entry e fe) = fe_nodeName fe"
  "fe_adjacencies (put_entry e fe) = fe_adjacencies fe" "fe_clock (put_entry e fe) = fe_clock fe"
  "fe_localPrefixes (put_entry e fe) = fe_localPrefixes fe"
  "fe_FloodSendCh (put_entry e fe) = fe_FloodSendCh fe"
  "db_rlocks (fe_lsdb (put_entry e fe)) = db_rlocks (fe_lsdb fe)"
  by (simp_all add: put_entry_def)

lemma put_entry_ok:
  assumes "fe_ok fe" and "le_SelfOriginated e \<longleftrightarrow> Originator (entry_id e) = fe_systemID fe"
  shows "fe_ok (put_entry e fe)"
proof -
  have "db_ok (fe_lsdb (put_entry e fe))"
    using lsdb.insert_ready [OF fe_okD(1) [OF assms(1)]] fe_okD(3) [OF assms(1)]
    by (simp add: put_entry_def LSDB_Insert_unlocked)
  with assms show ?thesis by (auto simp: fe_ok_alt)
qed

lemma put_entry_le:
  assumes "\<And>x. LSDB_Get (fe_lsdb fe) (entry_id e) = Some x \<Longrightarrow>
     Originator (entry_id e) \<noteq> fe_systemID fe \<Longrightarrow> sle (entry_seq x) (entry_seq e)"
  shows "fe_le fe (put_entry e fe)"
  using assms by (auto simp: fe_le_def)

definition self_entry :: "TIEID \<Rightarrow> TIEElement \<Rightarrow> FloodEngine \<Rightarrow> LSDBEntry" where
  "self_entry tid element fe =
     \<lparr>le_Packet = \<lparr>tie_Header = \<lparr>th_TIEID = tid,
         th_SeqNr = (case LSDB_Get (fe_lsdb fe) tid of
             Some e \<Rightarrow> if le_SelfOriginated e then entry_seq e + 1 else 1 | None \<Rightarrow> 1),
         th_OriginationTime = None, th_OriginationLifetime = Some DefaultLifetime\<rparr>,
       tie_Element = element\<rparr>,
      le_RemainingLifetime = DefaultLifetime, le_LastReceived = fe_clock fe, le_SelfOriginated = True\<rparr>"

lemma insertSelfOriginated_eq:
  "fe_ok fe \<Longrightarrow> insertSelfOriginated tid el fe = Some (True, put_entry (self_entry tid el fe) fe)"
  by (simp add: insertSelfOriginated_def self_entry_def Let_def lsdb_Insert_eq fe_okD(3))

lemma put_self_ok:
  assumes "fe_ok fe" and "Originator tid = fe_systemID fe"
  shows "fe_ok (put_entry (self_entry tid el fe) fe)" and "fe_le fe (put_entry (self_entry tid el fe) fe)"
  using assms by (auto intro!: put_entry_ok put_entry_le simp: self_entry_def)

text \<open>A step that only touches entries of our own: what origination and bumping do.\<close>

definition own_only :: "FloodEngine \<Rightarrow> FloodEngine \<Rightarrow> bool" where
  "own_only fe fe' \<longleftrightarrow> fe_adjacencies fe' = fe_adjacencies fe \<and> fe_systemID fe' = fe_systemID fe \<and>
     (\<forall>j. Originator j \<noteq> fe_systemID fe \<longrightarrow> LSDB_Get (fe_lsdb fe') j = LSDB_Get (fe_lsdb fe) j)"

lemma own_only_refl [simp, intro]: "own_only fe fe"
  by (simp add: own_only_def)

lemma own_only_trans: "own_only a b \<Longrightarrow> own_only b c \<Longrightarrow> own_only a c"
  by (simp add: own_only_def)

lemma put_own_only: "Originator (entry_id e) = fe_systemID fe \<Longrightarrow> own_only fe (put_entry e fe)"
  by (auto simp: own_only_def)

text \<open>
  An originator inserts one self-originated entry under the identifier of its direction and
  type, and reports it as changed.
\<close>

locale tie_originator =
  fixes f :: "FloodEngine \<Rightarrow> ((TIEID \<times> bool) \<times> FloodEngine) option"
    and d :: TieDirectionType
    and t :: TIETypeType
  assumes inserts: "fe_ok fe \<Longrightarrow> \<exists>el. f fe =
     Some ((TIEID d (fe_systemID fe) t 1, True),
           put_entry (self_entry (TIEID d (fe_systemID fe) t 1) el fe) fe)"
begin

lemma collect:
  assumes "fe_ok fe"
  obtains fe' where "collect_changed f (ids, fe) = Some (ids @ [TIEID d (fe_systemID fe) t 1], fe')"
    and "fe_ok fe'" and "fe_le fe fe'" and "own_only fe fe'"
proof -
  obtain el where "f fe = Some ((TIEID d (fe_systemID fe) t 1, True),
      put_entry (self_entry (TIEID d (fe_systemID fe) t 1) el fe) fe)"
    using inserts [OF assms] by blast
  with that [of "put_entry (self_entry (TIEID d (fe_systemID fe) t 1) el fe) fe"]
  show thesis
    using put_self_ok [OF assms] by (simp add: collect_changed_def put_own_only self_entry_def)
qed

lemma flooded:
  assumes "fe_ok fe"
  shows "\<exists>fe'. f fe = Some ((TIEID d (fe_systemID fe) t 1, True), fe') \<and> fe_ok fe' \<and> fe_le fe fe'"
  using inserts [OF assms] put_self_ok [OF assms] by fastforce

end

interpretation north_node: tie_originator originateNorthNodeTIE TieDirectionNorth TIETypeNodeTIEType
  by unfold_locales (simp add: originateNorthNodeTIE_def Let_def insertSelfOriginated_eq exI)

interpretation north_prefix: tie_originator originateNorthPrefixTIE TieDirectionNorth TIETypePrefixTIEType
  by unfold_locales (simp add: originateNorthPrefixTIE_def Let_def insertSelfOriginated_eq exI)

interpretation south_node: tie_originator originateSouthNodeTIE TieDirectionSouth TIETypeNodeTIEType
  by unfold_locales (simp add: originateSouthNodeTIE_def Let_def insertSelfOriginated_eq exI)

interpretation south_prefix: tie_originator originateSouthPrefixTIE TieDirectionSouth TIETypePrefixTIEType
  by unfold_locales (simp add: originateSouthPrefixTIE_def Let_def insertSelfOriginated_eq exI)

definition self_ids :: "FloodEngine \<Rightarrow> TIEID list" where
  "self_ids fe =
     [TIEID TieDirectionNorth (fe_systemID fe) TIETypeNodeTIEType 1,
      TIEID TieDirectionNorth (fe_systemID fe) TIETypePrefixTIEType 1] @
     (if slt LeafLevel (fe_level fe)
      then [TIEID TieDirectionSouth (fe_systemID fe) TIETypeNodeTIEType 1,
            TIEID TieDirectionSouth (fe_systemID fe) TIETypePrefixTIEType 1] else [])"

lemma fe_le_same: "fe_le a b \<Longrightarrow> fe_systemID b = fe_systemID a \<and> fe_level b = fe_level a"
  by (simp add: fe_le_def)

lemma originateSelfTIEs_safe:
  assumes "fe_ok fe"
  shows "\<exists>fe'. originateSelfTIEs fe = Some (self_ids fe, fe') \<and> fe_ok fe' \<and> fe_le fe fe' \<and> own_only fe fe'"
proof -
  obtain f1 where 1: "collect_changed originateNorthNodeTIE ([], fe) =
      Some ([] @ [TIEID 2 (fe_systemID fe) 2 1], f1)" "fe_ok f1" "fe_le fe f1" "own_only fe f1"
    by (rule north_node.collect [OF assms])
  obtain f2 where 2: "collect_changed originateNorthPrefixTIE ([TIEID 2 (fe_systemID fe) 2 1], f1) =
      Some ([TIEID 2 (fe_systemID fe) 2 1] @ [TIEID 2 (fe_systemID f1) 3 1], f2)" "fe_ok f2" "fe_le f1 f2" "own_only f1 f2"
    by (rule north_prefix.collect [OF 1(2)])
  let ?ids = "[TIEID 2 (fe_systemID fe) 2 1, TIEID 2 (fe_systemID fe) 3 1]"
  obtain f3 where 3: "collect_changed originateSouthNodeTIE (?ids, f2) =
      Some (?ids @ [TIEID 1 (fe_systemID f2) 2 1], f3)" "fe_ok f3" "fe_le f2 f3" "own_only f2 f3"
    by (rule south_node.collect [OF 2(2)])
  obtain f4 where 4: "collect_changed originateSouthPrefixTIE (?ids @ [TIEID 1 (fe_systemID fe) 2 1], f3) =
      Some ((?ids @ [TIEID 1 (fe_systemID fe) 2 1]) @ [TIEID 1 (fe_systemID f3) 3 1], f4)"
      "fe_ok f4" "fe_le f3 f4" "own_only f3 f4"
    by (rule south_prefix.collect [OF 3(2)])
  show ?thesis
    using 1 2 3 4 fe_le_same [OF 1(3)] fe_le_same [OF 2(3)] fe_le_same [OF 3(3)]
    by (auto simp: originateSelfTIEs_def self_ids_def intro: fe_le_trans own_only_trans)
qed


section \<open>Bumping and installing\<close>

definition bumped :: "LSDBEntry \<Rightarrow> int \<Rightarrow> LSDBEntry" where
  "bumped e now =
     e\<lparr>le_Packet := (le_Packet e)\<lparr>tie_Header := (tie_Header (le_Packet e))\<lparr>
          th_SeqNr := entry_seq e + 1, th_OriginationLifetime := Some DefaultLifetime\<rparr>\<rparr>,
       le_RemainingLifetime := DefaultLifetime, le_LastReceived := now\<rparr>"

lemma bumped_simps [simp]:
  "entry_id (bumped e now) = entry_id e" "entry_seq (bumped e now) = entry_seq e + 1"
  "le_SelfOriginated (bumped e now) = le_SelfOriginated e"
  "le_RemainingLifetime (bumped e now) = DefaultLifetime"
  "tie_Element (le_Packet (bumped e now)) = tie_Element (le_Packet e)"
  by (simp_all add: bumped_def)

lemma bumpOwnTIE_unlocked:
  assumes "db_rlocks (fe_lsdb fe) = 0"
  shows "bumpOwnTIE tid fe = Some (case LSDB_Get (fe_lsdb fe) tid of
      Some e \<Rightarrow> if le_SelfOriginated e then put_entry (bumped e (fe_clock fe)) fe else fe
    | None \<Rightarrow> fe)"
  using assms by (simp add: bumpOwnTIE_def bumped_def Let_def lsdb_Insert_eq split: option.split)

lemma bumpOwnTIE_locked:
  assumes "db_rlocks (fe_lsdb fe) > 0" and "LSDB_Get (fe_lsdb fe) tid = Some e" and "le_SelfOriginated e"
  shows "bumpOwnTIE tid fe = None"
  using assms by (simp add: bumpOwnTIE_def Let_def lsdb_Insert_blocked)

lemma bumped_put_ok:
  assumes "fe_ok fe" and "LSDB_Get (fe_lsdb fe) tid = Some e" and "le_SelfOriginated e"
  shows "fe_ok (put_entry (bumped e now) fe)" and "fe_le fe (put_entry (bumped e now) fe)"
  using assms fe_okD(4,5) [OF assms(1,2)] by (auto intro!: put_entry_ok put_entry_le)

lemma bumpOwnTIE_handler: "flood_handler (bumpOwnTIE tid)"
  by unfold_locales (auto simp: bumpOwnTIE_unlocked fe_okD(3) bumped_put_ok split: option.split)

lemma bump_and_flood_handler:
  "flood_handler (\<lambda>fe. Option.bind (bumpOwnTIE tid fe) (\<lambda>fe. Some (floodTIEToAll tid' fe)))"
  by unfold_locales (rule flood_handler.then_pure [OF bumpOwnTIE_handler _ queue_ops_ok(5)])

lemma CompareTIEHeader_pos:
  assumes "0 < CompareTIEHeader a b"
  shows "sle (th_SeqNr (hl_Header b)) (th_SeqNr (hl_Header a))"
  using assms by (auto simp: CompareTIEHeader_def cmp_alts Let_def sgn_if split: if_splits)

lemma rx_entry_simps [simp]:
  "entry_id (rx_entry tie now) = th_TIEID (tie_Header tie)"
  "entry_seq (rx_entry tie now) = th_SeqNr (tie_Header tie)"
  "\<not> le_SelfOriginated (rx_entry tie now)"
  by (simp_all add: rx_entry_def)

lemma install_tie_eq:
  assumes "fe_ok fe"
  shows "install_tie ifName tie fe = Some (notifyLSDBChange
     (floodTIEToAllExcept (th_TIEID (tie_Header tie)) ifName
        (ackTIE ifName (th_TIEID (tie_Header tie)) (put_entry (rx_entry tie (fe_clock fe)) fe))))"
  by (simp add: install_tie_def Let_def lsdb_Insert_eq fe_okD(3) [OF assms])

lemma install_tie_safe:
  assumes ok: "fe_ok fe" and foreign: "Originator (th_TIEID (tie_Header tie)) \<noteq> fe_systemID fe"
    and newer: "\<And>x. LSDB_Get (fe_lsdb fe) (th_TIEID (tie_Header tie)) = Some x \<Longrightarrow>
       0 < CompareTIEHeader (rx_header tie) (LSDBEntry_Header x)"
  shows "\<exists>fe'. install_tie ifName tie fe = Some fe' \<and> fe_ok fe' \<and> fe_le fe fe'"
proof -
  let ?p = "put_entry (rx_entry tie (fe_clock fe)) fe"
  have p: "fe_ok ?p" "fe_le fe ?p"
    using ok foreign newer [THEN CompareTIEHeader_pos]
    by (auto intro!: put_entry_ok put_entry_le simp: rx_header_def LSDBEntry_Header_def)
  have a: "fe_ok (ackTIE ifName i ?p) \<and> fe_le fe (ackTIE ifName i ?p)" for i
    using p queue_ops_ok(1) fe_le_trans by blast
  have "fe_ok (floodTIEToAllExcept i ifName (ackTIE ifName i ?p)) \<and>
      fe_le fe (floodTIEToAllExcept i ifName (ackTIE ifName i ?p))" for i
    using a queue_ops_ok(6) fe_le_trans by blast
  with notify_ok fe_le_trans install_tie_eq [OF ok] show ?thesis by blast
qed

section \<open>The handlers\<close>

interpretation handleTIE: flood_handler "handleTIE ifName tie" for ifName tie
proof
  fix fe assume ok: "fe_ok fe"
  let ?tid = "th_TIEID (tie_Header tie)"
  note bump = flood_handler.safe [OF bump_and_flood_handler ok]
  note install = install_tie_safe [OF ok, of tie ifName]
  show "\<exists>fe'. handleTIE ifName tie fe = Some fe' \<and> fe_ok fe' \<and> fe_le fe fe'"
    using ok queue_ops_ok(1,2) [OF ok, of ifName ?tid] bump [of ?tid ?tid] install
    by (cases "gm_get (fe_adjacencies fe) ifName"; cases "LSDB_Get (fe_lsdb fe) ?tid")
      (simp_all add: handleTIE_def Let_def)
qed

interpretation originate: flood_handler "\<lambda>fe. map_option snd (originateSelfTIEs fe)"
  by unfold_locales (use originateSelfTIEs_safe in fastforce)

lemma tide_entry_handler: "flood_handler (tide_entry ifName lvl hdr)"
proof
  fix fe assume ok: "fe_ok fe"
  let ?tid = "th_TIEID (hl_Header hdr)"
  obtain f1 where f1: "originateSelfTIEs fe = Some (self_ids fe, f1)" "fe_ok f1" "fe_le fe f1"
    using originateSelfTIEs_safe [OF ok] by blast
  then have "fe_ok (floodTIEToAll ?tid f1) \<and> fe_le fe (floodTIEToAll ?tid f1)"
    using queue_ops_ok(5) fe_le_trans by blast
  with f1 show "\<exists>fe'. tide_entry ifName lvl hdr fe = Some fe' \<and> fe_ok fe' \<and> fe_le fe fe'"
    using queue_ops_ok(2,3,4) [OF ok] ok flood_handler.safe [OF bump_and_flood_handler ok, of ?tid ?tid]
    by (auto simp: tide_entry_def Let_def split: option.split)
qed

text \<open>A loop over the database whose callback only changes the queues.\<close>

lemma upd_lsdb_frame [simp]:
  "fe_systemID (upd_lsdb f fe) = fe_systemID fe" "fe_level (upd_lsdb f fe) = fe_level fe"
  "fe_adjacencies (upd_lsdb f fe) = fe_adjacencies fe" "fe_lsdb (upd_lsdb f fe) = f (fe_lsdb fe)"
  by (simp_all add: upd_lsdb_def)

lemma LSDB_Get_lock [simp]: "LSDB_Get (RLock db) i = LSDB_Get db i" "LSDB_Get (RUnlock db) i = LSDB_Get db i"
  by (simp_all add: LSDB_Get_def RLock_def RUnlock_def)

lemma lock_unlock [simp]: "RUnlock (RLock db) = db"
  by (cases db) (simp add: RLock_def RUnlock_def)

lemma upd_lsdb_unlock [simp]: "upd_lsdb RUnlock (upd_lsdb RLock fe) = fe"
  by (simp add: upd_lsdb_def)

lemma enqueueTX_lsdb [simp]: "enqueueTX k i (upd_lsdb f fe) = upd_lsdb f (enqueueTX k i fe)"
  by (simp add: enqueueTX_def upd_adj_def upd_lsdb_def)

lemma enqueueTX_frame [simp]:
  "fe_systemID (enqueueTX k i fe) = fe_systemID fe" "fe_level (enqueueTX k i fe) = fe_level fe"
  "fe_lsdb (enqueueTX k i fe) = fe_lsdb fe"
  by (simp_all add: enqueueTX_def upd_adj_def)

lemma tide_missing_safe:
  assumes "fe_ok fe"
  shows "\<exists>fe'. ForEachSorted fe_lsdb upd_lsdb (tide_missing ifName lvl tide) fe = Some fe' \<and>
     fe_ok fe' \<and> fe_le fe fe'"
proof -
  define P where "P s \<longleftrightarrow> (\<exists>g. s = upd_lsdb RLock g \<and> fe_ok g \<and> fe_le fe g)" for s
  have "\<exists>s'. ForEachSorted_loop fe_lsdb (tide_missing ifName lvl tide)
      (sorted_ids (fe_lsdb fe)) (upd_lsdb RLock fe) = Some s' \<and> P s'"
  proof (rule ForEachSorted_loop_inv)
    fix i e s assume "P s"
    then obtain g where g: "s = upd_lsdb RLock g" "fe_ok g" "fe_le fe g"
      by (auto simp: P_def)
    moreover from g have "P (enqueueTX ifName i s)"
      using queue_ops_ok(2) [of g ifName i] by (auto simp: P_def intro: fe_le_trans)
    ultimately show "\<exists>b s'. tide_missing ifName lvl tide i e s = Some (b, s') \<and> P s'"
      using \<open>P s\<close> by (auto simp: tide_missing_def)
  next
    show "P (upd_lsdb RLock fe)" using assms by (auto simp: P_def)
  qed
  then show ?thesis by (auto simp: ForEachSorted_def P_def)
qed

interpretation handleTIDE: flood_handler "handleTIDE ifName tide" for ifName tide
proof
  fix fe assume ok: "fe_ok fe"
  show "\<exists>fe'. handleTIDE ifName tide fe = Some fe' \<and> fe_ok fe' \<and> fe_le fe fe'"
  proof (cases "gm_get (fe_adjacencies fe) ifName")
    case None
    with ok show ?thesis by (simp add: handleTIDE_def)
  next
    case (Some adj)
    have "flood_handler (fold_opt (tide_entry ifName lvl) hs)" for lvl hs
      by (rule handler_fold) (rule tide_entry_handler)
    from flood_handler.then_safe [OF this ok] Some show ?thesis
      by (simp add: handleTIDE_def Let_def flood_handler_def tide_missing_safe)
  qed
qed

interpretation handleTIRE: flood_handler "\<lambda>fe. Some (handleTIRE ifName tire fe)" for ifName tire
proof (rule handler_pure)
  fix fe assume ok: "fe_ok fe"
  have "fe_ok (tire_entry ifName h g) \<and> fe_le g (tire_entry ifName h g)" if "fe_ok g" for h g
    using that queue_ops_ok(2,3) [OF that] by (simp add: tire_entry_def Let_def split: option.split)
  then show "fe_ok (handleTIRE ifName tire fe) \<and> fe_le fe (handleTIRE ifName tire fe)"
    using ok pure_fold [of "tire_Headers tire" "tire_entry ifName" fe]
    by (simp add: handleTIRE_def split: option.split)
qed

interpretation handleFloodPacket: flood_handler "handleFloodPacket rpkt" for rpkt
  by unfold_locales
    (simp add: handleFloodPacket_def Let_def handleTIE.safe handleTIDE.safe
       handleTIRE.safe [simplified] split: option.split)


interpretation handleAdjChange: flood_handler "handleAdjChange change" for change
proof
  fix fe assume ok: "fe_ok fe"
  define fe1 where "fe1 = (case ac_Info change of
      Some info \<Rightarrow> fe\<lparr>fe_adjacencies :=
        gm_put (ac_InterfaceName change) (newAdjFloodState info) (fe_adjacencies fe)\<rparr>
    | None \<Rightarrow> fe\<lparr>fe_adjacencies := gm_del (ac_InterfaceName change) (fe_adjacencies fe)\<rparr>)"
  have ok1: "fe_ok fe1" and le1: "fe_le fe fe1"
    using ok by (auto simp: fe1_def fe_ok_alt fe_le_def go_map_laws newAdjFloodState_def adj_ok_def
        split: option.split if_splits)
  obtain fe2 where fe2: "originateSelfTIEs fe1 = Some (self_ids fe1, fe2)" "fe_ok fe2" "fe_le fe1 fe2"
    using originateSelfTIEs_safe [OF ok1] by blast
  have "fe_ok (fold floodTIEToAll ids fe2) \<and> fe_le fe2 (fold floodTIEToAll ids fe2)" for ids
    by (rule pure_fold) (simp_all add: queue_ops_ok fe2)
  then have "fe_ok (notifyLSDBChange (fold floodTIEToAll ids fe2)) \<and>
      fe_le fe (notifyLSDBChange (fold floodTIEToAll ids fe2))" for ids
    using notify_ok le1 fe2(3) fe_le_trans by meson
  with fe2(1) show "\<exists>fe'. handleAdjChange change fe = Some fe' \<and> fe_ok fe' \<and> fe_le fe fe'"
    by (simp add: handleAdjChange_def fe1_def [symmetric] Let_def)
qed

interpretation handleDisaggUpdate: flood_handler "handleDisaggUpdate prefixes" for prefixes
proof
  fix fe assume ok: "fe_ok fe"
  let ?tid = "TIEID TieDirectionSouth (fe_systemID fe) TIETypePositiveDisaggregationPrefixTIEType 1"
  have "fe_ok (notifyLSDBChange (floodTIEToAll ?tid (put_entry (self_entry ?tid el fe) fe))) \<and>
      fe_le fe (notifyLSDBChange (floodTIEToAll ?tid (put_entry (self_entry ?tid el fe) fe)))" for el
    using put_self_ok [OF ok] queue_ops_ok(5) notify_ok fe_le_trans TIEID.sel(2) by meson
  with ok show "\<exists>fe'. handleDisaggUpdate prefixes fe = Some fe' \<and> fe_ok fe' \<and> fe_le fe fe'"
    by (simp add: handleDisaggUpdate_def OriginatePositiveDisaggTIE_def Let_def
        insertSelfOriginated_eq [OF ok] split: option.split)
qed

section \<open>TIDE generation\<close>

text \<open>The collected headers: the in-scope entries, in the order of the identifiers.\<close>

lemma tide_headers_loop:
  "ForEachSorted_loop (\<lambda>(fe, _). fe_lsdb fe)
     (\<lambda>tid entry (fe, hs).
        if ShouldIncludeInTIDE tid (fe_systemID fe) (fe_level fe) lvl
        then Some (True, (fe, hs @ [LSDBEntry_Header entry])) else Some (True, (fe, hs))) ids (fe, hs) =
   Some (fe, hs @ map (\<lambda>i. LSDBEntry_Header (the (LSDB_Get (fe_lsdb fe) i)))
     (filter (\<lambda>i. LSDB_Get (fe_lsdb fe) i \<noteq> None \<and>
        ShouldIncludeInTIDE i (fe_systemID fe) (fe_level fe) lvl) ids))"
  by (induction ids arbitrary: hs) (auto split: option.split)

lemma tide_headers_eq:
  "tide_headers lvl fe = Some (map (\<lambda>i. LSDBEntry_Header (the (LSDB_Get (fe_lsdb fe) i)))
     (filter (\<lambda>i. ShouldIncludeInTIDE i (fe_systemID fe) (fe_level fe) lvl) (sorted_ids (fe_lsdb fe))))"
proof -
  have "filter (\<lambda>i. LSDB_Get (fe_lsdb fe) i \<noteq> None \<and> P i) (sorted_ids (fe_lsdb fe)) =
      filter P (sorted_ids (fe_lsdb fe))" for P
    by (rule filter_cong) (auto simp: set_sorted_ids)
  then show ?thesis
    unfolding tide_headers_def ForEachSorted_def
    by (simp add: tide_headers_loop del: filter_filter)
qed

lemma sendTIDEsToAdj_handler: "flood_handler (sendTIDEsToAdj ifName)"
proof
  fix fe assume ok: "fe_ok fe"
  show "\<exists>fe'. sendTIDEsToAdj ifName fe = Some fe' \<and> fe_ok fe' \<and> fe_le fe fe'"
    unfolding sendTIDEsToAdj_def tide_headers_eq
    by (cases "gm_get (fe_adjacencies fe) ifName") (simp_all add: ok, rule pure_fold, simp_all add: send_ok ok)
qed

interpretation generateAndSendTIDEs: flood_handler generateAndSendTIDEs
proof
  fix fe assume ok: "fe_ok fe"
  have "flood_handler (fold_opt sendTIDEsToAdj ks)" for ks
    by (rule handler_fold) (rule sendTIDEsToAdj_handler)
  from flood_handler.safe [OF this ok]
  show "\<exists>fe'. generateAndSendTIDEs fe = Some fe' \<and> fe_ok fe' \<and> fe_le fe fe'"
    by (simp add: generateAndSendTIDEs_def)
qed

section \<open>Draining\<close>

lemma drain_parts_ok:
  assumes "fe_ok fe"
  shows "fe_ok (drain_acks k adj fe) \<and> fe_le fe (drain_acks k adj fe)"
    and "fe_ok (drain_reqs k adj fe) \<and> fe_le fe (drain_reqs k adj fe)"
    and "fe_ok (drain_tx k adj i fe) \<and> fe_le fe (drain_tx k adj i fe)"
proof -
  have clear: "fe_ok (upd_adj k f fe) \<and> fe_le fe (upd_adj k f fe)"
    if "f = (\<lambda>adj. adj\<lparr>afs_TIEsACK := []\<rparr>) \<or> f = (\<lambda>adj. adj\<lparr>afs_TIEsREQ := []\<rparr>)" "fe_ok fe" for f fe
    by (rule upd_adj_ok) (use that in \<open>auto simp: adj_ok_def\<close>)
  have tire: "fe_ok (sendTIRE adj hs fe) \<and> fe_le fe (sendTIRE adj hs fe)" for hs
    by (simp add: sendTIRE_def send_ok assms)
  show "fe_ok (drain_acks k adj fe) \<and> fe_le fe (drain_acks k adj fe)"
    using assms clear tire fe_le_trans by (simp add: drain_acks_def Let_def) blast
  show "fe_ok (drain_reqs k adj fe) \<and> fe_le fe (drain_reqs k adj fe)"
    using assms clear tire fe_le_trans by (simp add: drain_reqs_def Let_def) blast
  show "fe_ok (drain_tx k adj i fe) \<and> fe_le fe (drain_tx k adj i fe)"
    using assms queue_ops_ok(3) send_ok fe_le_trans
    by (simp add: drain_tx_def split: option.split) blast
qed

interpretation drainQueues: flood_handler "\<lambda>fe. Some (drainQueues fe)"
proof (rule handler_pure)
  fix fe assume ok: "fe_ok fe"
  have "fe_ok (drainAdjQueues k g) \<and> fe_le g (drainAdjQueues k g)" if g: "fe_ok g" for k g
  proof (cases "gm_get (fe_adjacencies g) k")
    case None
    with g show ?thesis by (simp add: drainAdjQueues_def)
  next
    case (Some adj)
    let ?h = "drain_reqs k adj (drain_acks k adj g)"
    have h: "fe_ok ?h \<and> fe_le g ?h"
      using drain_parts_ok(1,2) g fe_le_trans by blast
    then have "fe_ok (fold (drain_tx k adj) ids ?h) \<and> fe_le ?h (fold (drain_tx k adj) ids ?h)" for ids
      by (intro pure_fold) (simp_all add: drain_parts_ok(3))
    with h Some show ?thesis by (simp add: drainAdjQueues_def) (blast intro: fe_le_trans)
  qed
  then show "fe_ok (drainQueues fe) \<and> fe_le fe (drainQueues fe)"
    unfolding drainQueues_def by (intro pure_fold ok)
qed

section \<open>Lifetimes\<close>

text \<open>
  Under the read lock the callback blocks on the first entry that is due for re-origination and
  changes nothing otherwise.
\<close>

definition due :: "LSDBEntry \<Rightarrow> bool" where
  "due e \<longleftrightarrow> le_SelfOriginated e \<and> slt (le_RemainingLifetime e) ReoriginateBeforeExpiry"

lemma reoriginate_loop:
  assumes "db_rlocks (fe_lsdb s) > 0"
  shows "ForEachSorted_loop fe_lsdb reoriginate ids s =
    (if \<exists>i \<in> set ids. \<exists>e. LSDB_Get (fe_lsdb s) i = Some e \<and> due e then None else Some s)"
  by (induction ids)
    (auto simp: reoriginate_def due_def bumpOwnTIE_locked assms split: option.split)

lemma reoriginate_all:
  "ForEachSorted fe_lsdb upd_lsdb reoriginate fe =
    (if \<exists>i e. LSDB_Get (fe_lsdb fe) i = Some e \<and> due e then None else Some fe)"
proof -
  have "(\<exists>i \<in> set (sorted_ids (fe_lsdb fe)). \<exists>e. LSDB_Get (fe_lsdb fe) i = Some e \<and> due e) \<longleftrightarrow>
      (\<exists>i e. LSDB_Get (fe_lsdb fe) i = Some e \<and> due e)"
    by (auto simp: set_sorted_ids)
  then show ?thesis
    by (simp add: ForEachSorted_def reoriginate_loop [of "upd_lsdb RLock fe"] RLock_def [of "fe_lsdb fe"]
        LSDB_Get_lock(1) [unfolded RLock_def])
qed

definition ticked :: "LSDBEntry \<Rightarrow> LSDBEntry" where
  "ticked e = e\<lparr>le_RemainingLifetime := le_RemainingLifetime e - 1\<rparr>"

definition after_tick :: "LSDB \<Rightarrow> TIEID \<Rightarrow> LSDBEntry option" where
  "after_tick db i =
     (case LSDB_Get db i of
        None \<Rightarrow> None
      | Some e \<Rightarrow> if sle (le_RemainingLifetime (ticked e)) 0 then None else Some (ticked e))"

lemma tickLifetimes_cases:
  assumes "fe_ok fe"
  obtains (blocks) i e where "after_tick (fe_lsdb fe) i = Some e" and "due e" and "tickLifetimes fe = None"
    | (ticks) fe' where "tickLifetimes fe = Some fe'" and "db_ok (fe_lsdb fe')"
      and "\<And>i. LSDB_Get (fe_lsdb fe') i = after_tick (fe_lsdb fe) i"
      and "\<And>i e. after_tick (fe_lsdb fe) i = Some e \<Longrightarrow> \<not> due e"
      and "\<exists>n. fe' = fe\<lparr>fe_lsdb := fe_lsdb fe', fe_LSDBChangeCh := n\<rparr>"
proof -
  have ok: "db_ok (fe_lsdb fe)" using assms by (rule fe_okD)
  then obtain expired db where d: "DecrementLifetimes 1 (fe_lsdb fe) = Some (expired, db)"
    by (auto simp: DecrementLifetimes_def Let_def dest!: db_ok_unlocked)
  have ok1: "db_ok db" by (rule DecrementLifetimes_ok [OF ok d])
  obtain db' where r: "fold_opt LSDB_Remove expired db = Some db'" "db_ok db'"
    and g: "\<forall>i. LSDB_Get db' i = (if i \<in> set expired then None else LSDB_Get db i)"
    using lsdb.remove_all [OF ok1] by blast
  have at: "LSDB_Get db' i = after_tick (fe_lsdb fe) i" for i
    using g DecrementLifetimes_expired [OF ok d] DecrementLifetimes_get [OF d, of i]
    by (auto simp: after_tick_def ticked_def split: option.split)
  define fe1 where "fe1 = fe\<lparr>fe_lsdb := db', fe_LSDBChangeCh := (expired \<noteq> [] \<or> fe_LSDBChangeCh fe)\<rparr>"
  have t: "tickLifetimes fe = ForEachSorted fe_lsdb upd_lsdb reoriginate fe1"
    using d r by (auto simp: tickLifetimes_def fe1_def notifyLSDBChange_def Let_def)
  show thesis
  proof (cases "\<exists>i e. after_tick (fe_lsdb fe) i = Some e \<and> due e")
    case True
    with t at show thesis by (auto simp: reoriginate_all fe1_def intro: blocks)
  next
    case False
    with t at have "tickLifetimes fe = Some fe1" by (auto simp: reoriginate_all fe1_def)
    with False at r show thesis by (intro ticks [of fe1]) (auto simp: fe1_def)
  qed
qed

lemma after_tick_id: "after_tick db i = Some e \<Longrightarrow> \<exists>e0. LSDB_Get db i = Some e0 \<and> e = ticked e0"
  by (auto simp: after_tick_def split: option.splits if_splits)

lemma tickLifetimes_ok:
  assumes "fe_ok fe" and "tickLifetimes fe = Some fe'"
  shows "fe_ok fe'" and "fe_systemID fe' = fe_systemID fe" and "fe_level fe' = fe_level fe"
proof -
  from assms(1) have *: "fe_ok fe' \<and> fe_systemID fe' = fe_systemID fe \<and> fe_level fe' = fe_level fe"
  proof (cases rule: tickLifetimes_cases)
    case blocks
    with assms show ?thesis by simp
  next
    case (ticks fe1)
    obtain n where n: "fe1 = fe\<lparr>fe_lsdb := fe_lsdb fe1, fe_LSDBChangeCh := n\<rparr>"
      using ticks(5) by blast
    have "fe_adjacencies fe1 = fe_adjacencies fe" "fe_systemID fe1 = fe_systemID fe"
      "fe_level fe1 = fe_level fe" "fe_FloodSendCh fe1 = fe_FloodSendCh fe"
      by (subst n, simp)+
    with ticks assms fe_okD(4) [OF assms(1)] show ?thesis
      by (auto simp: fe_ok_alt ticked_def dest!: after_tick_id)
  qed
  then show "fe_ok fe'" "fe_systemID fe' = fe_systemID fe" "fe_level fe' = fe_level fe" by auto
qed

end
