(* ===== verification/Tie_Sync.thy ===== *)
theory Tie_Sync
  imports Tie_Flood_Props
begin

text \<open>
  What the flood engine achieves: the shape of the TIDE packets it sends and the runs of the whole
  engine, with the re-origination that makes it wait for itself for ever.
\<close>

section \<open>Chunks\<close>

lemma build_chunks_Nil [simp]: "build_chunks s [] = []"
  by (simp add: build_chunks.simps)

lemma build_chunks_Cons:
  "hs \<noteq> [] \<Longrightarrow> build_chunks s hs =
     (let e = (if drop MaxTIDEHeaders hs = [] then MaxTIEID
               else th_TIEID (hl_Header (last (take MaxTIDEHeaders hs))))
      in \<lparr>tide_StartRange = s, tide_EndRange = e, tide_Headers = take MaxTIDEHeaders hs\<rparr>
           # build_chunks e (drop MaxTIDEHeaders hs))"
  by (subst build_chunks.simps) (simp add: Let_def)

lemma build_chunks_eq_Nil [simp]: "build_chunks s hs = [] \<longleftrightarrow> hs = []"
  by (cases "hs = []") (simp_all add: build_chunks_Cons Let_def)

lemma build_chunks_concat: "concat (map tide_Headers (build_chunks s hs)) = hs"
proof (induction s hs rule: build_chunks.induct)
  case (1 s hs)
  then show ?case by (cases "hs = []") (simp_all add: build_chunks_Cons Let_def)
qed

lemma build_chunks_sizes:
  "c \<in> set (build_chunks s hs) \<Longrightarrow> tide_Headers c \<noteq> [] \<and> length (tide_Headers c) \<le> MaxTIDEHeaders"
proof (induction s hs rule: build_chunks.induct)
  case (1 s hs)
  then have hs: "hs \<noteq> []" by auto
  let ?e = "if drop MaxTIDEHeaders hs = [] then MaxTIEID
            else th_TIEID (hl_Header (last (take MaxTIDEHeaders hs)))"
  consider "tide_Headers c = take MaxTIDEHeaders hs"
    | "c \<in> set (build_chunks ?e (drop MaxTIDEHeaders hs))"
    using "1.prems" unfolding build_chunks_Cons [OF hs] Let_def by fastforce
  then show ?case
  proof cases
    case 1
    with hs show ?thesis by simp
  next
    case 2
    then show ?thesis by (rule "1.IH" [OF hs refl refl refl])
  qed
qed

lemma build_chunks_ends:
  assumes "hs \<noteq> []"
  shows "tide_StartRange (hd (build_chunks s hs)) = s"
    and "tide_EndRange (last (build_chunks s hs)) = MaxTIEID"
  using assms
proof (induction s hs rule: build_chunks.induct)
  case (1 s hs)
  {
    case 1
    then show ?case by (simp add: build_chunks_Cons Let_def)
  next
    case 2
    with "1.IH" show ?case
      by (cases "drop MaxTIDEHeaders hs = []") (auto simp: build_chunks_Cons Let_def)
  }
qed

lemma build_chunks_tile:
  "successively (\<lambda>a b. tide_EndRange a = tide_StartRange b) (build_chunks s hs)"
proof (induction s hs rule: build_chunks.induct)
  case (1 s hs)
  show ?case
  proof (cases "drop MaxTIDEHeaders hs = []")
    case True
    then show ?thesis by (cases "hs = []") (simp_all add: build_chunks_Cons Let_def)
  next
    case False
    then have hs: "hs \<noteq> []" by auto
    let ?e = "th_TIEID (hl_Header (last (take MaxTIDEHeaders hs)))"
    have "tide_StartRange (hd (build_chunks ?e (drop MaxTIDEHeaders hs))) = ?e"
      using False by (rule build_chunks_ends)
    with 1 [OF hs refl refl refl] False hs show ?thesis
      by (simp add: build_chunks_Cons [OF hs] Let_def successively_Cons)
  qed
qed

lemma sorted_map_last: "sorted (map f xs) \<Longrightarrow> x \<in> set xs \<Longrightarrow> f x \<le> f (last xs)"
  by (induction xs rule: rev_induct) (auto simp: sorted_append)

lemma build_chunks_range:
  assumes "sorted (map (\<lambda>h. th_TIEID (hl_Header h)) hs)"
    and "\<forall>h \<in> set hs. s \<le> th_TIEID (hl_Header h) \<and> th_TIEID (hl_Header h) \<le> MaxTIEID"
    and "c \<in> set (build_chunks s hs)" and "h \<in> set (tide_Headers c)"
  shows "tide_StartRange c \<le> th_TIEID (hl_Header h) \<and> th_TIEID (hl_Header h) \<le> tide_EndRange c"
  using assms
proof (induction s hs rule: build_chunks.induct)
  case (1 s hs)
  let ?f = "\<lambda>h. th_TIEID (hl_Header h)"
  let ?t = "take MaxTIDEHeaders hs" and ?d = "drop MaxTIDEHeaders hs"
  let ?e = "if ?d = [] then MaxTIEID else ?f (last ?t)"
  have hs: "hs \<noteq> []" using "1.prems"(3) by auto
  have split: "sorted (map ?f ?t)" "sorted (map ?f ?d)"
    "\<And>a b. a \<in> set ?t \<Longrightarrow> b \<in> set ?d \<Longrightarrow> ?f a \<le> ?f b"
    using "1.prems"(1) sorted_append [of "map ?f ?t" "map ?f ?d"]
    by (auto simp flip: map_append)
  have t: "?t \<noteq> []" using hs by simp
  have in_t: "?f a \<le> ?e" if "a \<in> set ?t" for a
  proof -
    have "?f a \<le> ?f (last ?t)"
      using sorted_map_last [OF split(1) that] .
    moreover have "?f a \<le> MaxTIEID"
      using that "1.prems"(2) by (meson in_set_takeD)
    ultimately show ?thesis by simp
  qed
  consider "c = \<lparr>tide_StartRange = s, tide_EndRange = ?e, tide_Headers = ?t\<rparr>"
    | "c \<in> set (build_chunks ?e ?d)"
    using "1.prems"(3) unfolding build_chunks_Cons [OF hs] Let_def by fastforce
  then show ?case
  proof cases
    case 1
    then have h: "h \<in> set ?t" using "1.prems"(4) by simp
    with "1.prems"(2) have "s \<le> ?f h" by (meson in_set_takeD)
    with in_t [OF h] show ?thesis by (simp add: 1)
  next
    case 2
    then have d: "?d \<noteq> []" by auto
    have "\<forall>h \<in> set ?d. ?e \<le> ?f h \<and> ?f h \<le> MaxTIEID"
      using d split(3) [OF last_in_set [OF t]] "1.prems"(2) by (auto dest: in_set_dropD)
    then show ?thesis by (rule "1.IH" [OF hs refl refl refl split(2) _ 2 "1.prems"(4)])
  qed
qed


text \<open>
  \<^bold>\<open>The TIDE packets of one round cover the identifier space.\<close> For headers in the order of
  their identifiers within the range of the code's extreme identifiers, the packets together
  list every header once and in order, none lists more than \<open>MaxTIDEHeaders\<close>, the ranges start at
  \<open>MinTIEID\<close>, end at \<open>MaxTIEID\<close> and follow each other without a gap, and each header is in the
  range of its packet. (A receiver deletes or requests by what is missing in a range, so a gap
  would hide a TIE.)
\<close>

theorem buildTIDEChunks_cover:
  assumes "sorted (map (\<lambda>h. th_TIEID (hl_Header h)) hs)"
    and "\<forall>h \<in> set hs. MinTIEID \<le> th_TIEID (hl_Header h) \<and> th_TIEID (hl_Header h) \<le> MaxTIEID"
  defines "cs \<equiv> buildTIDEChunks hs"
  shows "concat (map tide_Headers cs) = hs \<and> cs \<noteq> [] \<and>
    list_all (\<lambda>c. length (tide_Headers c) \<le> MaxTIDEHeaders) cs \<and>
    tide_StartRange (hd cs) = MinTIEID \<and> tide_EndRange (last cs) = MaxTIEID \<and>
    successively (\<lambda>a b. tide_EndRange a = tide_StartRange b) cs \<and>
    list_all (\<lambda>c. list_all (\<lambda>h. tide_StartRange c \<le> th_TIEID (hl_Header h) \<and>
                                  th_TIEID (hl_Header h) \<le> tide_EndRange c) (tide_Headers c)) cs"
proof (cases "hs = []")
  case True
  then show ?thesis by (simp add: cs_def buildTIDEChunks_def)
next
  case False
  then have cs: "cs = build_chunks MinTIEID hs" by (simp add: cs_def buildTIDEChunks_def)
  show ?thesis
    unfolding cs list_all_iff
    using build_chunks_concat build_chunks_sizes build_chunks_ends [OF False] build_chunks_tile
      build_chunks_range [OF assms(1,2)] False by simp
qed

theorem buildTIDEChunks_cover_witness:
  "list_all (\<lambda>c. length (tide_Headers c) \<le> MaxTIDEHeaders)
     (buildTIDEChunks (map (\<lambda>n. \<lparr>hl_Header = zero_TIEHeader\<lparr>th_TIEID := TIEID 1 5 2 (of_nat n)\<rparr>,
                                 hl_RemainingLifetime = 100\<rparr>) [1, 2, 3]))"
  using buildTIDEChunks_cover [of "map (\<lambda>n. \<lparr>hl_Header = zero_TIEHeader\<lparr>th_TIEID := TIEID 1 5 2 (of_nat n)\<rparr>,
      hl_RemainingLifetime = 100\<rparr>) [1, 2, 3]"]
  by (simp add: less_eq_TIEID_def CompareTIEID_def cmpInt32_def cmpInt64_def MinTIEID_def MaxTIEID_def)

text \<open>
  \<^bold>\<open>A TIDE describes the database exactly.\<close> The headers collected for a neighbor are, in
  ascending order and without repetition, the headers of exactly the entries whose identifiers
  are in the TIDE scope of that neighbor, with their current lifetimes.
\<close>

theorem tide_headers_exact:
  assumes "fe_ok fe"
  shows "\<exists>hs. tide_headers lvl fe = Some hs \<and>
    sorted (map (\<lambda>h. th_TIEID (hl_Header h)) hs) \<and> distinct (map (\<lambda>h. th_TIEID (hl_Header h)) hs) \<and>
    (\<forall>h. h \<in> set hs \<longleftrightarrow>
       (\<exists>i e. LSDB_Get (fe_lsdb fe) i = Some e \<and> h = LSDBEntry_Header e \<and>
              ShouldIncludeInTIDE i (fe_systemID fe) (fe_level fe) lvl))"
proof -
  let ?ids = "filter (\<lambda>i. ShouldIncludeInTIDE i (fe_systemID fe) (fe_level fe) lvl) (sorted_ids (fe_lsdb fe))"
  let ?hs = "map (\<lambda>i. LSDBEntry_Header (the (LSDB_Get (fe_lsdb fe) i))) ?ids"
  have key: "map (\<lambda>h. th_TIEID (hl_Header h)) ?hs = ?ids"
    using fe_okD(5) [OF assms]
    by (auto simp: set_sorted_ids LSDBEntry_Header_def intro!: map_idI)
  moreover have "sorted ?ids" "distinct ?ids"
    using fe_okD(1) [OF assms] by (simp_all add: sorted_filter [of id, simplified] distinct_sorted_ids)
  moreover have "h \<in> set ?hs \<longleftrightarrow>
      (\<exists>i e. LSDB_Get (fe_lsdb fe) i = Some e \<and> h = LSDBEntry_Header e \<and>
             ShouldIncludeInTIDE i (fe_systemID fe) (fe_level fe) lvl)" for h
    by (force simp: set_sorted_ids image_iff)
  ultimately show ?thesis
    unfolding tide_headers_eq by (intro exI [of _ ?hs]) (simp only: refl simp_thms)
qed

section \<open>Runs of the engine\<close>

lemma NewFloodEngine_ok: "fe_ok (NewFloodEngine sys lvl name prefixes clock)"
  by (simp add: fe_ok_def NewFloodEngine_def gm_wf_def) (simp add: NewLSDB_def)

lemma serve_safe:
  assumes "fe_ok fe" and "ev \<noteq> LifetimeTickEv"
  shows "\<exists>fe'. serve ev fe = Some fe' \<and> fe_ok fe' \<and> fe_le fe fe'"
proof (cases ev)
  case (AdjChangeEv c)
  with handleAdjChange.safe [OF assms(1)] show ?thesis by simp
next
  case (FloodRecvEv p)
  with handleFloodPacket.safe [OF assms(1)] show ?thesis by simp
next
  case TIDETickEv
  with generateAndSendTIDEs.safe [OF assms(1)] show ?thesis by simp
next
  case LifetimeTickEv
  with assms(2) show ?thesis by simp
next
  case TXTickEv
  with drainQueues.safe [OF assms(1)] show ?thesis by (simp only: serve.simps)
next
  case (DisaggUpdateEv ps)
  with handleDisaggUpdate.safe [OF assms(1)] show ?thesis by simp
qed

lemma serve_ok:
  assumes "fe_ok fe" and "serve ev fe = Some fe'"
  shows "fe_ok fe' \<and> fe_systemID fe' = fe_systemID fe \<and> fe_level fe' = fe_level fe"
proof (cases "ev = LifetimeTickEv")
  case True
  then have "tickLifetimes fe = Some fe'" using assms(2) by simp
  with tickLifetimes_ok [OF assms(1)] show ?thesis by blast
next
  case False
  with serve_safe [OF assms(1) False] assms(2) show ?thesis using fe_le_same by fastforce
qed

lemma flood_step_ok:
  assumes "flood_step fe fe'" and "fe_ok fe"
  shows "fe_ok fe' \<and> fe_systemID fe' = fe_systemID fe \<and> fe_level fe' = fe_level fe"
  using assms(1)
proof cases
  case (served ev)
  with assms(2) serve_ok show ?thesis by blast
qed (use assms(2) in \<open>auto simp: fe_ok_alt\<close>)

text \<open>
  Lifetime ticks with nothing else in between.
\<close>

definition ticks :: "nat \<Rightarrow> FloodEngine \<Rightarrow> FloodEngine option" where
  "ticks n = fold_opt (\<lambda>_. serve LifetimeTickEv) (replicate n ())"

lemma ticks_Suc: "ticks (Suc n) fe = Option.bind (tickLifetimes fe) (ticks n)"
  by (simp add: ticks_def)

text \<open>
  C7 \<^bold>\<open>The engine's invariant and liveness.\<close> In every state the engine reaches from its
  constructor, through any sequence of served events, packets taken by the transport and time
  passing: the invariant \<open>fe_ok\<close> holds (the database is keyed by identifier and unlocked, the
  queues are sets, the self-originated mark is right, the send channel is within its capacity),
  the node's identity is that of the constructor, and every event other than a lifetime tick is
  served to its end: no handler blocks.
\<close>

theorem flood_reachable_serves:
  assumes "flood_reachable fe0 fe"
  shows "fe_ok fe \<and> fe_systemID fe = fe_systemID fe0 \<and> fe_level fe = fe_level fe0 \<and>
    (ev \<noteq> LifetimeTickEv \<longrightarrow> (\<exists>fe'. serve ev fe = Some fe' \<and> flood_reachable fe0 fe'))"
proof -
  have ok: "fe_ok fe \<and> fe_systemID fe = fe_systemID fe0 \<and> fe_level fe = fe_level fe0"
    using assms
  proof (induction rule: flood_reachable.induct)
    case (flood_more fe0 fe fe')
    then show ?case using flood_step_ok [of fe fe'] by simp
  qed (simp_all add: NewFloodEngine_ok)
  moreover have "\<exists>fe'. serve ev fe = Some fe' \<and> flood_reachable fe0 fe'" if "ev \<noteq> LifetimeTickEv"
    using serve_safe [of fe ev] ok that assms by (blast intro: flood_step.served flood_more)
  ultimately show ?thesis by blast
qed

text \<open>
  \<^bold>\<open>Monotonicity of the database.\<close> Serving any event other than a lifetime tick removes no
  TIE, and never replaces a TIE of another originator by one with a lower sequence number.
\<close>

theorem serve_monotone:
  assumes "fe_ok fe" and "ev \<noteq> LifetimeTickEv" and "LSDB_Get (fe_lsdb fe) i = Some e"
  shows "\<exists>fe' e'. serve ev fe = Some fe' \<and> LSDB_Get (fe_lsdb fe') i = Some e' \<and>
    (Originator i \<noteq> fe_systemID fe \<longrightarrow> sle (entry_seq e) (entry_seq e'))"
  using serve_safe [OF assms(1,2)] assms(3) unfolding fe_le_def by blast

section \<open>Lifetimes\<close>

lemma tickLifetimes_blocks:
  assumes "fe_ok fe" and "LSDB_Get (fe_lsdb fe) i = Some e" and "Originator i = fe_systemID fe"
    and "0 < sint (le_RemainingLifetime e - 1)"
    and "slt (le_RemainingLifetime e - 1) ReoriginateBeforeExpiry"
  shows "tickLifetimes fe = None"
  using assms(1)
proof (cases rule: tickLifetimes_cases)
  case (ticks fe')
  have "after_tick (fe_lsdb fe) i = Some (ticked e)"
    using assms by (simp add: after_tick_def ticked_def)
  from ticks(4) [OF this] assms fe_okD(4) [OF assms(1,2)] show ?thesis
    by (simp add: due_def ticked_def)
qed

text \<open>
  C29 \<^bold>\<open>Re-origination deadlocks.\<close> \<open>tickLifetimes\<close> does not return exactly when a self-originated
  TIE would be left with a positive lifetime below \<open>ReoriginateBeforeExpiry\<close>: the callback of
  \<open>ForEachSorted\<close> runs under the read lock and \<open>bumpOwnTIE\<close> then waits for the write lock.
\<close>

theorem tickLifetimes_blocks_iff:
  assumes "fe_ok fe"
  shows "tickLifetimes fe = None \<longleftrightarrow>
    (\<exists>i e. LSDB_Get (fe_lsdb fe) i = Some e \<and> Originator i = fe_systemID fe \<and>
       0 < sint (le_RemainingLifetime e - 1) \<and>
       slt (le_RemainingLifetime e - 1) ReoriginateBeforeExpiry)"
proof
  assume "tickLifetimes fe = None"
  with assms show "\<exists>i e. LSDB_Get (fe_lsdb fe) i = Some e \<and> Originator i = fe_systemID fe \<and>
      0 < sint (le_RemainingLifetime e - 1) \<and> slt (le_RemainingLifetime e - 1) ReoriginateBeforeExpiry"
  proof (cases rule: tickLifetimes_cases)
    case (blocks i e)
    then obtain e0 where "LSDB_Get (fe_lsdb fe) i = Some e0" and "e = ticked e0"
      and "0 < sint (le_RemainingLifetime e)"
      by (auto simp: after_tick_def split: option.splits if_splits)
    with blocks(2) fe_okD(4) [OF assms, of i e0] show ?thesis
      by (intro exI [of _ i] exI [of _ e0]) (simp add: due_def ticked_def)
  qed simp
qed (use tickLifetimes_blocks [OF assms] in blast)

text \<open>
  \<^bold>\<open>The engine stops refreshing its own TIEs.\<close> Whatever self-originated TIE with a lifetime of
  at least \<open>ReoriginateBeforeExpiry\<close> the database holds, lifetime ticks with no other event in
  between bring the engine to a tick that never returns, at the latest when the lifetime of
  that TIE falls below the limit.
\<close>

theorem ticks_block:
  assumes "fe_ok fe" and "LSDB_Get (fe_lsdb fe) i = Some e" and "Originator i = fe_systemID fe"
    and "sle ReoriginateBeforeExpiry (le_RemainingLifetime e)"
  shows "ticks (nat (sint (le_RemainingLifetime e)) - 3599) fe = None"
  using assms
proof (induction "nat (sint (le_RemainingLifetime e)) - 3600" arbitrary: fe e)
  case (0 e fe)
  let ?L = "le_RemainingLifetime e"
  have L: "sint ?L = 3600" using 0 by simp
  then have "sint (?L - 1) = 3599" using sint_minus_1 [of ?L] by simp
  then have "tickLifetimes fe = None" by (intro tickLifetimes_blocks [OF 0(2-4)]) simp_all
  with L show ?case by (simp add: ticks_Suc)
next
  case (Suc k e fe)
  let ?L = "le_RemainingLifetime e"
  have L: "nat (sint ?L) = Suc (3600 + k)" using Suc.hyps(2) by linarith
  then have m: "sint (?L - 1) = 3600 + int k" using sint_minus_1 [of ?L] by linarith
  from Suc.prems(1) show ?case
  proof (cases rule: tickLifetimes_cases)
    case blocks
    with L show ?thesis by (simp add: ticks_Suc)
  next
    case (ticks fe')
    have "LSDB_Get (fe_lsdb fe') i = Some (ticked e)"
      using ticks(3) Suc.prems(2) m by (simp add: after_tick_def ticked_def)
    moreover have "fe_ok fe'" "fe_systemID fe' = fe_systemID fe"
      using tickLifetimes_ok [OF Suc.prems(1) ticks(1)] by auto
    ultimately have "ticks (nat (sint (?L - 1)) - 3599) fe' = None"
      using Suc.hyps(1) [of "ticked e" fe'] Suc.prems(3) m by (simp add: ticked_def)
    with ticks(1) L m show ?thesis by (simp add: ticks_Suc nat_add_distrib)
  qed
qed

end
