(* ===== verification/Tie_Exchange.thy ===== *)
theory Tie_Exchange
  imports Tie_Sync
begin

text \<open>
  What the handlers of received packets do, branch by branch: a received TIE, a received TIDE and
  the draining of the queues.
\<close>

section \<open>Updates of one adjacency\<close>

lemma upd_adj_get:
  "gm_get (fe_adjacencies (upd_adj k f fe)) k' =
     map_option (\<lambda>a. if k' = k then f a else a) (gm_get (fe_adjacencies fe) k')"
  by (simp add: upd_adj_def go_map_laws)

lemma upd_adj_frame [simp]:
  "fe_systemID (upd_adj k f fe) = fe_systemID fe" "fe_level (upd_adj k f fe) = fe_level fe"
  "fe_lsdb (upd_adj k f fe) = fe_lsdb fe" "fe_clock (upd_adj k f fe) = fe_clock fe"
  "fe_FloodSendCh (upd_adj k f fe) = fe_FloodSendCh fe"
  "gm_keys (fe_adjacencies (upd_adj k f fe)) = gm_keys (fe_adjacencies fe)"
  "gm_wf (fe_adjacencies (upd_adj k f fe)) = gm_wf (fe_adjacencies fe)"
  by (simp_all add: upd_adj_def)

lemma upd_adj_upd_adj [simp]: "upd_adj k f (upd_adj k g fe) = upd_adj k (\<lambda>a. f (g a)) fe"
  by (simp add: upd_adj_def gm_map_def comp_def case_prod_beta cong: map_cong)

lemma upd_adj_id: "upd_adj k (\<lambda>a. a) fe = fe"
  by (simp add: upd_adj_def gm_map_def case_prod_eta)

section \<open>A received TIE\<close>

text \<open>What a stored TIE does to the adjacencies.\<close>

definition after_install :: "FloodEngine \<Rightarrow> string \<Rightarrow> TIEID \<Rightarrow> string \<Rightarrow> adjFloodState \<Rightarrow> adjFloodState" where
  "after_install fe ifName tid k a =
     a\<lparr>afs_TIEsACK := (if k = ifName then gs_add tid (afs_TIEsACK a) else afs_TIEsACK a),
       afs_TIEsTX := (if ai_InterfaceName (afs_Info a) \<noteq> ifName \<and>
           ShouldFloodTIE tid (fe_systemID fe) (fe_level fe) (ai_NeighborLevel (afs_Info a))
         then gs_add tid (afs_TIEsTX a) else afs_TIEsTX a)\<rparr>"

lemma install_tie_effect:
  assumes "fe_ok fe"
  shows "\<exists>fe'. install_tie ifName tie fe = Some fe' \<and>
    (\<forall>i. LSDB_Get (fe_lsdb fe') i =
       (if i = th_TIEID (tie_Header tie) then Some (rx_entry tie (fe_clock fe)) else LSDB_Get (fe_lsdb fe) i)) \<and>
    (\<forall>k. gm_get (fe_adjacencies fe') k =
       map_option (after_install fe ifName (th_TIEID (tie_Header tie)) k) (gm_get (fe_adjacencies fe) k)) \<and>
    fe_LSDBChangeCh fe'"
proof -
  have id: "entry_id (rx_entry tie (fe_clock fe)) = th_TIEID (tie_Header tie)"
    by (simp add: rx_entry_def)
  show ?thesis
    unfolding install_tie_def Let_def lsdb_Insert_eq [OF fe_okD(3) [OF assms]]
    by (auto simp: ackTIE_def floodTIEToAllExcept_def notifyLSDBChange_def upd_adj_def
        go_map_laws id option.map_comp comp_def after_install_def intro!: option.map_cong)
qed

text \<open>
  C13 \<^bold>\<open>A newer TIE is stored, acknowledged and flooded on.\<close> A TIE of another originator that
  arrives on an adjacency, and that is either unknown and acceptable or newer than the stored
  version, replaces the stored entry and no other; it is queued for acknowledgement on the
  adjacency it came from and there only, queued for transmission on exactly the other
  adjacencies whose flooding scope admits it, and SPF is notified.
\<close>

theorem handleTIE_installs:
  assumes "fe_ok fe" and "gm_get (fe_adjacencies fe) ifName = Some adj"
    and "Originator (th_TIEID (tie_Header tie)) \<noteq> fe_systemID fe"
    and "case LSDB_Get (fe_lsdb fe) (th_TIEID (tie_Header tie)) of
           None \<Rightarrow> shouldAcceptTIE (fe_systemID fe) (fe_level fe) (th_TIEID (tie_Header tie))
                     (ai_NeighborLevel (afs_Info adj))
         | Some e \<Rightarrow> CompareTIEHeader (rx_header tie) (LSDBEntry_Header e) > 0"
  shows "\<exists>fe'. handleTIE ifName tie fe = Some fe' \<and>
    (\<forall>i. LSDB_Get (fe_lsdb fe') i =
       (if i = th_TIEID (tie_Header tie) then Some (rx_entry tie (fe_clock fe)) else LSDB_Get (fe_lsdb fe) i)) \<and>
    (\<forall>k. gm_get (fe_adjacencies fe') k =
       map_option (after_install fe ifName (th_TIEID (tie_Header tie)) k) (gm_get (fe_adjacencies fe) k)) \<and>
    fe_LSDBChangeCh fe'"
proof -
  have "handleTIE ifName tie fe = install_tie ifName tie fe"
    using assms(2-4) by (auto simp: handleTIE_def Let_def split: option.splits)
  then show ?thesis using install_tie_effect [OF assms(1)] by simp
qed

section \<open>A received TIDE\<close>

text \<open>The effect of one foreign header on the adjacency the TIDE came from.\<close>

definition tide_act :: "FloodEngine \<Rightarrow> LevelType \<Rightarrow> TIEHeaderWithLifeTime \<Rightarrow> adjFloodState \<Rightarrow> adjFloodState" where
  "tide_act fe lvl hdr a =
     (let tid = th_TIEID (hl_Header hdr);
          request = (if shouldAcceptTIE (fe_systemID fe) (fe_level fe) tid lvl
                     then a\<lparr>afs_TIEsREQ := gs_add tid (afs_TIEsREQ a)\<rparr> else a)
      in case LSDB_Get (fe_lsdb fe) tid of
           None \<Rightarrow> request
         | Some e \<Rightarrow>
             let cmp = CompareTIEHeader hdr (LSDBEntry_Header e) in
             if cmp > 0 then request
             else if cmp < 0 then a\<lparr>afs_TIEsTX := gs_add tid (afs_TIEsTX a)\<rparr>
             else a\<lparr>afs_TIEsTX := gs_del tid (afs_TIEsTX a)\<rparr>)"

lemma tide_act_frame:
  "tide_act (upd_adj k f fe) = tide_act fe"
  by (intro ext) (simp add: tide_act_def Let_def)

lemma tide_entry_foreign:
  assumes "Originator (th_TIEID (hl_Header hdr)) \<noteq> fe_systemID fe"
  shows "tide_entry ifName lvl hdr fe = Some (upd_adj ifName (tide_act fe lvl hdr) fe)"
proof -
  have "tide_act fe lvl hdr = (\<lambda>a. tide_act fe lvl hdr a)" by simp
  then show ?thesis
    using assms upd_adj_id [of ifName fe] unfolding tide_entry_def tide_act_def Let_def
    by (auto simp: enqueueREQ_def enqueueTX_def dequeueTX_def split: option.split)
qed

lemma tide_entries_foreign:
  assumes "\<forall>h \<in> set hs. Originator (th_TIEID (hl_Header h)) \<noteq> fe_systemID fe"
  shows "fold_opt (tide_entry ifName lvl) hs fe = Some (upd_adj ifName (fold (tide_act fe lvl) hs) fe)"
  using assms
proof (induction hs arbitrary: fe)
  case Nil
  then show ?case by (simp add: id_def upd_adj_id)
next
  case (Cons h hs)
  then show ?case by (simp add: tide_entry_foreign tide_act_frame comp_def)
qed

definition tide_lists :: "TIDEPacket \<Rightarrow> TIEID \<Rightarrow> bool" where
  "tide_lists tide i \<longleftrightarrow> i \<in> set (map (\<lambda>h. th_TIEID (hl_Header h)) (tide_Headers tide))"

text \<open>The TIEs of our own that the TIDE should list and does not.\<close>

definition tide_lacks :: "FloodEngine \<Rightarrow> LevelType \<Rightarrow> TIDEPacket \<Rightarrow> TIEID \<Rightarrow> bool" where
  "tide_lacks fe lvl tide i \<longleftrightarrow> tide_StartRange tide \<le> i \<and> i \<le> tide_EndRange tide \<and>
     \<not> tide_lists tide i \<and> ShouldFloodTIE i (fe_systemID fe) (fe_level fe) lvl"

lemma tide_missing_eq:
  "tide_missing ifName lvl tide i e fe =
     (if i < tide_StartRange tide then Some (True, fe)
      else if tide_EndRange tide < i then Some (False, fe)
      else if tide_lacks fe lvl tide i then Some (True, enqueueTX ifName i fe) else Some (True, fe))"
  using CompareTIEID_swap [of i "tide_EndRange tide"] CompareTIEID_swap [of i "tide_StartRange tide"]
  by (auto simp: tide_missing_def less_TIEID_def tide_lacks_def tide_lists_def less_eq_TIEID_def)

lemma tide_lacks_frame [simp]:
  "tide_lacks (upd_adj k f fe) = tide_lacks fe" "tide_lacks (upd_lsdb g fe) = tide_lacks fe"
  by (intro ext, simp add: tide_lacks_def)+

definition add_tx :: "TIEID list \<Rightarrow> adjFloodState \<Rightarrow> adjFloodState" where
  "add_tx ids a = a\<lparr>afs_TIEsTX := fold gs_add ids (afs_TIEsTX a)\<rparr>"

lemma add_tx_Nil [simp]: "upd_adj k (add_tx []) fe = fe"
proof -
  have "add_tx [] = (\<lambda>a. a)" by (simp add: add_tx_def fun_eq_iff)
  then show ?thesis by (simp add: upd_adj_id)
qed

lemma add_tx_Cons: "upd_adj k (add_tx (i # ids)) fe = upd_adj k (add_tx ids) (enqueueTX k i fe)"
proof -
  have "add_tx (i # ids) = (\<lambda>a. add_tx ids (a\<lparr>afs_TIEsTX := gs_add i (afs_TIEsTX a)\<rparr>))"
    by (simp add: add_tx_def fun_eq_iff)
  then show ?thesis by (simp add: enqueueTX_def)
qed

lemma tide_missing_loop:
  assumes "sorted ids" and "\<forall>i \<in> set ids. LSDB_Get (fe_lsdb fe) i \<noteq> None"
  shows "ForEachSorted_loop fe_lsdb (tide_missing ifName lvl tide) ids (upd_lsdb RLock fe) =
    Some (upd_lsdb RLock (upd_adj ifName (add_tx (filter (tide_lacks fe lvl tide) ids)) fe))"
  using assms
proof (induction ids arbitrary: fe)
  case Nil
  then show ?case by simp
next
  case (Cons i ids)
  obtain e where e: "LSDB_Get (fe_lsdb fe) i = Some e" using Cons.prems(2) by auto
  have later: "filter (tide_lacks fe lvl tide) ids = []" if "tide_EndRange tide < i"
    using that Cons.prems(1) by (auto simp: filter_empty_conv tide_lacks_def)
  have IH: "ForEachSorted_loop fe_lsdb (tide_missing ifName lvl tide) ids (upd_lsdb RLock g) =
      Some (upd_lsdb RLock (upd_adj ifName (add_tx (filter (tide_lacks fe lvl tide) ids)) g))"
    if "g = fe \<or> g = enqueueTX ifName i fe" for g
    using Cons.IH [of g] Cons.prems that by (auto simp: enqueueTX_def)
  consider "tide_EndRange tide < i" | "\<not> tide_EndRange tide < i" "tide_lacks fe lvl tide i"
    | "\<not> tide_EndRange tide < i" "\<not> tide_lacks fe lvl tide i" by blast
  then show ?case
  proof cases
    case 1
    then have "\<not> tide_lacks fe lvl tide i" by (auto simp: tide_lacks_def)
    with 1 e later [OF 1] IH [of fe] show ?thesis
      by (simp add: tide_missing_eq [of _ _ _ i])
  next
    case 2
    then have "\<not> i < tide_StartRange tide" by (auto simp: tide_lacks_def)
    with 2 e IH [of "enqueueTX ifName i fe"] show ?thesis
      by (simp add: tide_missing_eq [of _ _ _ i] add_tx_Cons)
  next
    case 3
    with e IH [of fe] show ?thesis by (simp add: tide_missing_eq [of _ _ _ i])
  qed
qed

lemma handleTIDE_foreign:
  assumes "gm_get (fe_adjacencies fe) ifName = Some adj"
    and "\<forall>h \<in> set (tide_Headers tide). Originator (th_TIEID (hl_Header h)) \<noteq> fe_systemID fe"
  defines "lvl \<equiv> ai_NeighborLevel (afs_Info adj)"
  shows "handleTIDE ifName tide fe =
    Some (upd_adj ifName (\<lambda>a. add_tx (filter (tide_lacks fe lvl tide) (sorted_ids (fe_lsdb fe)))
      (fold (tide_act fe lvl) (tide_Headers tide) a)) fe)"
proof -
  let ?fe1 = "upd_adj ifName (fold (tide_act fe lvl) (tide_Headers tide)) fe"
  have "ForEachSorted_loop fe_lsdb (tide_missing ifName lvl tide) (sorted_ids (fe_lsdb fe)) (upd_lsdb RLock ?fe1) =
    Some (upd_lsdb RLock (upd_adj ifName (add_tx (filter (tide_lacks fe lvl tide) (sorted_ids (fe_lsdb fe)))) ?fe1))"
    by (subst tide_missing_loop) (simp_all add: set_sorted_ids)
  with assms show ?thesis
    by (simp add: handleTIDE_def Let_def tide_entries_foreign ForEachSorted_def comp_def)
qed


lemma set_fold_gs_add [simp]: "set (fold gs_add ids s) = set ids \<union> set s"
  by (induction ids arbitrary: s) auto

text \<open>The three queues after the headers of a TIDE with distinct identifiers.\<close>

lemma tide_act_other:
  assumes "i \<noteq> th_TIEID (hl_Header h)"
  shows "i \<in> set (afs_TIEsTX (tide_act fe lvl h a)) \<longleftrightarrow> i \<in> set (afs_TIEsTX a)"
    and "i \<in> set (afs_TIEsREQ (tide_act fe lvl h a)) \<longleftrightarrow> i \<in> set (afs_TIEsREQ a)"
  using assms by (auto simp: tide_act_def Let_def split: option.split)

lemma tide_acts_unlisted:
  assumes "i \<notin> set (map (\<lambda>h. th_TIEID (hl_Header h)) hs)"
  shows "i \<in> set (afs_TIEsTX (fold (tide_act fe lvl) hs a)) \<longleftrightarrow> i \<in> set (afs_TIEsTX a)"
    and "i \<in> set (afs_TIEsREQ (fold (tide_act fe lvl) hs a)) \<longleftrightarrow> i \<in> set (afs_TIEsREQ a)"
  using assms by (induction hs arbitrary: a) (auto simp: tide_act_other)

lemma tide_acts_listed:
  assumes "distinct (map (\<lambda>h. th_TIEID (hl_Header h)) hs)" and "h \<in> set hs"
    and "i = th_TIEID (hl_Header h)"
  shows "i \<in> set (afs_TIEsTX (fold (tide_act fe lvl) hs a)) \<longleftrightarrow> i \<in> set (afs_TIEsTX (tide_act fe lvl h a))"
    and "i \<in> set (afs_TIEsREQ (fold (tide_act fe lvl) hs a)) \<longleftrightarrow> i \<in> set (afs_TIEsREQ (tide_act fe lvl h a))"
proof -
  obtain xs ys where hs: "hs = xs @ h # ys" using assms(2) by (auto dest: split_list)
  have out: "i \<notin> set (map (\<lambda>h. th_TIEID (hl_Header h)) xs)"
    "i \<notin> set (map (\<lambda>h. th_TIEID (hl_Header h)) ys)"
    using assms(1,3) hs by auto
  have same: "i \<in> set (afs_TIEsTX (tide_act fe lvl h b)) \<longleftrightarrow> i \<in> set (afs_TIEsTX (tide_act fe lvl h a))"
    "i \<in> set (afs_TIEsREQ (tide_act fe lvl h b)) \<longleftrightarrow> i \<in> set (afs_TIEsREQ (tide_act fe lvl h a))"
    if "i \<in> set (afs_TIEsTX b) \<longleftrightarrow> i \<in> set (afs_TIEsTX a)"
      "i \<in> set (afs_TIEsREQ b) \<longleftrightarrow> i \<in> set (afs_TIEsREQ a)" for b
    using that by (auto simp: tide_act_def Let_def split: option.split)
  show "i \<in> set (afs_TIEsTX (fold (tide_act fe lvl) hs a)) \<longleftrightarrow> i \<in> set (afs_TIEsTX (tide_act fe lvl h a))"
    "i \<in> set (afs_TIEsREQ (fold (tide_act fe lvl) hs a)) \<longleftrightarrow> i \<in> set (afs_TIEsREQ (tide_act fe lvl h a))"
    unfolding hs fold_append comp_apply fold_simps tide_acts_unlisted [OF out(2)]
    by (rule same; rule tide_acts_unlisted [OF out(1)])+
qed

text \<open>
  C12 \<^bold>\<open>A TIDE from a neighbor is answered exactly.\<close> For a TIDE that lists TIEs of other
  originators, each once: the database and the other adjacencies stay as they are; on the
  adjacency it came from, a listed TIE is requested if and only if it is acceptable and either
  unknown or newer than our version (or was requested before), and a TIE is queued for
  transmission if and only if it is listed with an older version than ours, or lies in the
  range of the TIDE unlisted although it is ours to flood to that neighbor, or was queued
  before and the listed version is not the one we have.
\<close>

theorem handleTIDE_exact:
  assumes "gm_get (fe_adjacencies fe) ifName = Some adj"
    and "\<forall>h \<in> set (tide_Headers tide). Originator (th_TIEID (hl_Header h)) \<noteq> fe_systemID fe"
    and "distinct (map (\<lambda>h. th_TIEID (hl_Header h)) (tide_Headers tide))"
  defines "lvl \<equiv> ai_NeighborLevel (afs_Info adj)"
  shows "\<exists>fe' adj'. handleTIDE ifName tide fe = Some fe' \<and> fe_lsdb fe' = fe_lsdb fe \<and>
    (\<forall>k. k \<noteq> ifName \<longrightarrow> gm_get (fe_adjacencies fe') k = gm_get (fe_adjacencies fe) k) \<and>
    gm_get (fe_adjacencies fe') ifName = Some adj' \<and>
    (\<forall>h \<in> set (tide_Headers tide). let i = th_TIEID (hl_Header h) in
       (i \<in> set (afs_TIEsREQ adj') \<longleftrightarrow> i \<in> set (afs_TIEsREQ adj) \<or>
          shouldAcceptTIE (fe_systemID fe) (fe_level fe) i lvl \<and>
          (case LSDB_Get (fe_lsdb fe) i of None \<Rightarrow> True
           | Some e \<Rightarrow> CompareTIEHeader h (LSDBEntry_Header e) > 0)) \<and>
       (i \<in> set (afs_TIEsTX adj') \<longleftrightarrow>
          (case LSDB_Get (fe_lsdb fe) i of None \<Rightarrow> i \<in> set (afs_TIEsTX adj)
           | Some e \<Rightarrow> CompareTIEHeader h (LSDBEntry_Header e) < 0 \<or>
               CompareTIEHeader h (LSDBEntry_Header e) > 0 \<and> i \<in> set (afs_TIEsTX adj)))) \<and>
    (\<forall>i. \<not> tide_lists tide i \<longrightarrow>
       (i \<in> set (afs_TIEsREQ adj') \<longleftrightarrow> i \<in> set (afs_TIEsREQ adj)) \<and>
       (i \<in> set (afs_TIEsTX adj') \<longleftrightarrow> i \<in> set (afs_TIEsTX adj) \<or>
          tide_StartRange tide \<le> i \<and> i \<le> tide_EndRange tide \<and> LSDB_Get (fe_lsdb fe) i \<noteq> None \<and>
          ShouldFloodTIE i (fe_systemID fe) (fe_level fe) lvl))"
proof -
  let ?add = "filter (tide_lacks fe lvl tide) (sorted_ids (fe_lsdb fe))"
  let ?adj = "add_tx ?add (fold (tide_act fe lvl) (tide_Headers tide) adj)"
  let ?fe = "upd_adj ifName (\<lambda>a. add_tx ?add (fold (tide_act fe lvl) (tide_Headers tide) a)) fe"
  have h: "handleTIDE ifName tide fe = Some ?fe"
    using handleTIDE_foreign [OF assms(1,2)] by (simp add: lvl_def)
  have adj: "gm_get (fe_adjacencies ?fe) ifName = Some ?adj"
    using assms(1) by (simp add: upd_adj_get)
  have other: "gm_get (fe_adjacencies ?fe) k = gm_get (fe_adjacencies fe) k" if "k \<noteq> ifName" for k
    using that by (simp add: upd_adj_get option.map_ident)
  have req: "i \<in> set (afs_TIEsREQ ?adj) \<longleftrightarrow> i \<in> set (afs_TIEsREQ (fold (tide_act fe lvl) (tide_Headers tide) adj))"
    and tx: "i \<in> set (afs_TIEsTX ?adj) \<longleftrightarrow>
      tide_lacks fe lvl tide i \<and> LSDB_Get (fe_lsdb fe) i \<noteq> None \<or>
      i \<in> set (afs_TIEsTX (fold (tide_act fe lvl) (tide_Headers tide) adj))" for i
    by (auto simp: add_tx_def set_sorted_ids)
  have listed: "tide_lists tide (th_TIEID (hl_Header h))" if "h \<in> set (tide_Headers tide)" for h
    using that by (simp add: tide_lists_def)
  have L: "let i = th_TIEID (hl_Header h) in
       (i \<in> set (afs_TIEsREQ ?adj) \<longleftrightarrow> i \<in> set (afs_TIEsREQ adj) \<or>
          shouldAcceptTIE (fe_systemID fe) (fe_level fe) i lvl \<and>
          (case LSDB_Get (fe_lsdb fe) i of None \<Rightarrow> True
           | Some e \<Rightarrow> CompareTIEHeader h (LSDBEntry_Header e) > 0)) \<and>
       (i \<in> set (afs_TIEsTX ?adj) \<longleftrightarrow>
          (case LSDB_Get (fe_lsdb fe) i of None \<Rightarrow> i \<in> set (afs_TIEsTX adj)
           | Some e \<Rightarrow> CompareTIEHeader h (LSDBEntry_Header e) < 0 \<or>
               CompareTIEHeader h (LSDBEntry_Header e) > 0 \<and> i \<in> set (afs_TIEsTX adj)))"
    if "h \<in> set (tide_Headers tide)" for h
    using listed [OF that] tide_acts_listed [OF assms(3) that refl, of fe lvl adj]
    unfolding Let_def req tx
    by (auto simp: tide_lacks_def tide_act_def Let_def split: option.split)
  have U: "(i \<in> set (afs_TIEsREQ ?adj) \<longleftrightarrow> i \<in> set (afs_TIEsREQ adj)) \<and>
       (i \<in> set (afs_TIEsTX ?adj) \<longleftrightarrow> i \<in> set (afs_TIEsTX adj) \<or>
          tide_StartRange tide \<le> i \<and> i \<le> tide_EndRange tide \<and> LSDB_Get (fe_lsdb fe) i \<noteq> None \<and>
          ShouldFloodTIE i (fe_systemID fe) (fe_level fe) lvl)"
    if "\<not> tide_lists tide i" for i
    using that tide_acts_unlisted [of i "tide_Headers tide" fe lvl adj] unfolding req tx
    by (auto simp: tide_lacks_def tide_lists_def)
  show ?thesis using h adj other L U by (intro exI [of _ ?fe] exI [of _ ?adj]) simp
qed


section \<open>Draining the queues\<close>

text \<open>Appending to the send channel: what exceeds its capacity is dropped.\<close>

definition push :: "FloodPacket list \<Rightarrow> FloodEngine \<Rightarrow> FloodEngine" where
  "push fps fe = fe\<lparr>fe_FloodSendCh := take FloodSendCap (fe_FloodSendCh fe @ fps)\<rparr>"

definition flood_packet :: "FloodEngine \<Rightarrow> adjFloodState \<Rightarrow> PacketContent \<Rightarrow> LifeTimeInSecType \<Rightarrow> FloodPacket" where
  "flood_packet fe adj content lt =
     \<lparr>fp_InterfaceName = ai_InterfaceName (afs_Info adj),
      fp_Packet = \<lparr>pp_Header = packet_header fe, pp_Content = content\<rparr>,
      fp_DestAddr = ai_NeighborAddr (afs_Info adj), fp_DestPort = sint (ai_FloodPort (afs_Info adj)),
      fp_RemainingLifetime = lt\<rparr>"

lemma sendFloodPacket_push:
  "length (fe_FloodSendCh fe) \<le> FloodSendCap \<Longrightarrow>
   sendFloodPacket adj \<lparr>pp_Header = packet_header fe, pp_Content = c\<rparr> lt fe = push [flood_packet fe adj c lt] fe"
  by (auto simp: sendFloodPacket_def push_def flood_packet_def Let_def)

lemma push_Nil: "length (fe_FloodSendCh fe) \<le> FloodSendCap \<Longrightarrow> push [] fe = fe"
  by (simp add: push_def)

lemma take_take_append: "take n (take n xs @ ys) = take n (xs @ ys)"
  by (cases "n \<le> length xs") simp_all

lemma push_push [simp]: "push xs (push ys fe) = push (ys @ xs) fe"
  using take_take_append [of FloodSendCap "fe_FloodSendCh fe @ ys" xs]
  by (simp add: push_def del: take_append)

lemma push_frame [simp]:
  "fe_systemID (push xs fe) = fe_systemID fe" "fe_level (push xs fe) = fe_level fe"
  "fe_lsdb (push xs fe) = fe_lsdb fe" "fe_adjacencies (push xs fe) = fe_adjacencies fe"
  "length (fe_FloodSendCh (push xs fe)) \<le> FloodSendCap"
  by (simp_all add: push_def)

lemma upd_adj_push [simp]: "push xs (upd_adj k f fe) = upd_adj k f (push xs fe)"
  by (simp add: push_def upd_adj_def)

lemma flood_packet_frame [simp]:
  "flood_packet (push xs fe) = flood_packet fe" "flood_packet (upd_adj k f fe) = flood_packet fe"
  by (intro ext, simp add: flood_packet_def packet_header_def)+

definition tire_packet :: "FloodEngine \<Rightarrow> adjFloodState \<Rightarrow> TIEHeaderWithLifeTime list \<Rightarrow> FloodPacket list" where
  "tire_packet fe adj hs =
     (if hs = [] then []
      else [flood_packet fe adj (zero_PacketContent\<lparr>pc_TIRE := Some \<lparr>tire_Headers = hs\<rparr>\<rparr>) 0])"

text \<open>
  What draining one adjacency sends: a TIRE with the headers of the acknowledged TIEs still in the
  database, a TIRE with a zero header for each request, and each queued TIE still in the database.
\<close>

definition adj_packets :: "FloodEngine \<Rightarrow> adjFloodState \<Rightarrow> FloodPacket list" where
  "adj_packets fe adj =
     tire_packet fe adj (List.map_filter
        (\<lambda>i. map_option LSDBEntry_Header (LSDB_Get (fe_lsdb fe) i)) (afs_TIEsACK adj)) @
     tire_packet fe adj (map (\<lambda>i. \<lparr>hl_Header = zero_TIEHeader\<lparr>th_TIEID := i\<rparr>, hl_RemainingLifetime = 0\<rparr>)
        (afs_TIEsREQ adj)) @
     List.map_filter (\<lambda>i. map_option (\<lambda>e. flood_packet fe adj
        (zero_PacketContent\<lparr>pc_TIE := Some (le_Packet e)\<rparr>) (le_RemainingLifetime e))
        (LSDB_Get (fe_lsdb fe) i)) (afs_TIEsTX adj)"

definition drained :: "adjFloodState \<Rightarrow> adjFloodState" where
  "drained a = a\<lparr>afs_TIEsTX := [], afs_TIEsACK := [], afs_TIEsREQ := []\<rparr>"

lemma drain_tires:
  assumes "length (fe_FloodSendCh fe) \<le> FloodSendCap" and "gm_get (fe_adjacencies fe) k = Some adj"
  shows "drain_reqs k adj (drain_acks k adj fe) =
    upd_adj k (\<lambda>a. a\<lparr>afs_TIEsACK := (if afs_TIEsACK adj = [] then afs_TIEsACK a else []),
                     afs_TIEsREQ := (if afs_TIEsREQ adj = [] then afs_TIEsREQ a else [])\<rparr>)
      (push (tire_packet fe adj (List.map_filter
        (\<lambda>i. map_option LSDBEntry_Header (LSDB_Get (fe_lsdb fe) i)) (afs_TIEsACK adj)) @
     tire_packet fe adj (map (\<lambda>i. \<lparr>hl_Header = zero_TIEHeader\<lparr>th_TIEID := i\<rparr>, hl_RemainingLifetime = 0\<rparr>)
        (afs_TIEsREQ adj))) fe)"
  using assms(1)
  by (auto simp: drain_reqs_def drain_acks_def Let_def sendTIRE_def sendFloodPacket_push
      tire_packet_def push_Nil upd_adj_id map_filter_simps)


lemma drain_txs:
  assumes "length (fe_FloodSendCh fe) \<le> FloodSendCap"
  shows "fold (drain_tx k adj) ids fe =
    upd_adj k (\<lambda>a. a\<lparr>afs_TIEsTX := filter (\<lambda>i. i \<notin> set ids) (afs_TIEsTX a)\<rparr>)
      (push (List.map_filter (\<lambda>i. map_option (\<lambda>e. flood_packet fe adj
        (zero_PacketContent\<lparr>pc_TIE := Some (le_Packet e)\<rparr>) (le_RemainingLifetime e))
        (LSDB_Get (fe_lsdb fe) i)) ids) fe)"
  using assms
proof (induction ids arbitrary: fe)
  case Nil
  then show ?case by (simp add: map_filter_simps push_Nil upd_adj_id)
next
  case (Cons i ids)
  have "filter (\<lambda>j. j \<notin> set ids) (gs_del i s) = filter (\<lambda>j. j \<noteq> i \<and> j \<notin> set ids) s" for s
    by (auto simp: gs_del_def intro: filter_cong)
  with Cons show ?case
    by (simp add: drain_tx_def sendFloodPacket_push dequeueTX_def map_filter_simps
        split: option.split)
qed

lemma upd_adj_cong:
  assumes "f adj = h adj" and "gm_get (fe_adjacencies fe) k = Some adj" and "gm_wf (fe_adjacencies fe)"
  shows "upd_adj k f fe = upd_adj k h fe"
proof -
  have "gm_map (\<lambda>k' a. if k' = k then f a else a) (fe_adjacencies fe) =
      gm_map (\<lambda>k' a. if k' = k then h a else a) (fe_adjacencies fe)"
    using assms by (auto simp: gm_map_def gm_get_in [symmetric])
  then show ?thesis by (simp add: upd_adj_def)
qed

lemma drainAdjQueues_eq:
  assumes "length (fe_FloodSendCh fe) \<le> FloodSendCap" and "gm_get (fe_adjacencies fe) k = Some adj"
    and "gm_wf (fe_adjacencies fe)"
  shows "drainAdjQueues k fe = upd_adj k drained (push (adj_packets fe adj) fe)"
proof -
  have none: "filter (\<lambda>i. i \<notin> set xs) xs = []" for xs :: "TIEID list"
    by (simp add: filter_empty_conv)
  show ?thesis
    unfolding drainAdjQueues_def assms(2) option.case drain_tires [OF assms(1,2)]
    by (subst drain_txs, simp, simp add: adj_packets_def, rule upd_adj_cong [of _ adj])
      (simp_all add: assms drained_def none)
qed

definition drained_packets :: "FloodEngine \<Rightarrow> FloodPacket list" where
  "drained_packets fe = concat (map (\<lambda>(_, adj). adj_packets fe adj) (fe_adjacencies fe))"

lemma adj_packets_frame [simp]:
  "adj_packets (push xs fe) = adj_packets fe" "adj_packets (upd_adj k f fe) = adj_packets fe"
  by (intro ext, simp add: adj_packets_def tire_packet_def)+

lemma drain_keys:
  assumes "length (fe_FloodSendCh fe) \<le> FloodSendCap" and "gm_wf (fe_adjacencies fe)"
    and "distinct ks" and "\<And>k. k \<in> set ks \<Longrightarrow> gm_get (fe_adjacencies fe) k = Some (adj k)"
  shows "fold drainAdjQueues ks fe =
    push (concat (map (\<lambda>k. adj_packets fe (adj k)) ks))
      (fe\<lparr>fe_adjacencies := gm_map (\<lambda>k a. if k \<in> set ks then drained a else a) (fe_adjacencies fe)\<rparr>)"
  using assms
proof (induction ks arbitrary: fe)
  case Nil
  then show ?case by (simp add: push_Nil gm_map_def case_prod_eta)
next
  case (Cons k ks)
  let ?fe = "upd_adj k drained (push (adj_packets fe (adj k)) fe)"
  have step: "drainAdjQueues k fe = ?fe"
    using Cons.prems by (intro drainAdjQueues_eq) simp_all
  have "fold drainAdjQueues ks ?fe =
    push (concat (map (\<lambda>k. adj_packets fe (adj k)) ks))
      (?fe\<lparr>fe_adjacencies := gm_map (\<lambda>k a. if k \<in> set ks then drained a else a) (fe_adjacencies ?fe)\<rparr>)"
  proof (subst Cons.IH)
    show "gm_get (fe_adjacencies ?fe) k' = Some (adj k')" if "k' \<in> set ks" for k'
      using that Cons.prems(3,4) by (auto simp: upd_adj_get)
  qed (use Cons.prems in simp_all)
  moreover have "gm_map (\<lambda>k a. if k \<in> set ks then drained a else a) (fe_adjacencies ?fe) =
      gm_map (\<lambda>k' a. if k' \<in> set (k # ks) then drained a else a) (fe_adjacencies fe)"
    using Cons.prems(3) by (auto simp: upd_adj_def gm_map_def)
  moreover have "push xs (?fe\<lparr>fe_adjacencies := m\<rparr>) = push (adj_packets fe (adj k) @ xs) (fe\<lparr>fe_adjacencies := m\<rparr>)" for xs m
    using take_take_append [of FloodSendCap "fe_FloodSendCh fe @ adj_packets fe (adj k)" xs]
    by (simp add: upd_adj_def push_def del: take_append)
  ultimately show ?case by (simp add: step)
qed

lemma drainQueues_eq:
  assumes "fe_ok fe"
  shows "drainQueues fe =
    push (drained_packets fe) (fe\<lparr>fe_adjacencies := gm_map (\<lambda>_. drained) (fe_adjacencies fe)\<rparr>)"
proof -
  define adj where "adj k = the (gm_get (fe_adjacencies fe) k)" for k
  have wf: "gm_wf (fe_adjacencies fe)" and len: "length (fe_FloodSendCh fe) \<le> FloodSendCap"
    using assms by (simp_all add: fe_ok_def)
  have get: "gm_get (fe_adjacencies fe) k = Some (adj k)" if "k \<in> set (gm_keys (fe_adjacencies fe))" for k
    using that by (auto simp: gm.keys_get adj_def)
  have "map (\<lambda>k. adj_packets fe (adj k)) (gm_keys (fe_adjacencies fe)) =
      map (\<lambda>(_, a). adj_packets fe a) (fe_adjacencies fe)"
    using wf by (auto simp: gm_keys_def adj_def gm_get_in [symmetric])
  moreover have "gm_map (\<lambda>k a. if k \<in> set (gm_keys (fe_adjacencies fe)) then drained a else a) (fe_adjacencies fe) =
      gm_map (\<lambda>_ a. drained a) (fe_adjacencies fe)"
    by (force simp: gm_map_def gm_keys_def)
  ultimately show ?thesis
    unfolding drainQueues_def
    using drain_keys [OF len wf gm.keys_distinct [OF wf], of adj] get
    by (simp add: drained_packets_def)
qed

text \<open>
  C31 \<^bold>\<open>Draining sends everything once.\<close> After a drain every queue is empty, and the packets sent
  are, adjacency by adjacency, the acknowledgements, the requests and the queued TIEs of the
  database; packets beyond the capacity of the channel are lost with their queue entries.
\<close>

theorem drainQueues_exact:
  assumes "fe_ok fe"
  shows "drainQueues fe =
    fe\<lparr>fe_adjacencies := gm_map (\<lambda>_ a. a\<lparr>afs_TIEsTX := [], afs_TIEsACK := [], afs_TIEsREQ := []\<rparr>)
         (fe_adjacencies fe),
       fe_FloodSendCh := take FloodSendCap (fe_FloodSendCh fe @ drained_packets fe)\<rparr>"
  by (simp add: drainQueues_eq [OF assms] push_def drained_def [abs_def] del: take_append)

end
