(* ===== verification/Tie_Converge.thy ===== *)
theory Tie_Converge
  imports Tie_Exchange
begin

text \<open>
  The steps of an exchange between two engines: a TIDE leads to requests, a request to an answer, and
  how long a received TIE lives.
\<close>

section \<open>What a TIDE handler leaves alone\<close>

text \<open>Entries of other originators stay, adjacencies stay, requests are not dropped.\<close>

definition fe_ext :: "FloodEngine \<Rightarrow> FloodEngine \<Rightarrow> bool" where
  "fe_ext fe fe' \<longleftrightarrow> fe_systemID fe' = fe_systemID fe \<and> fe_level fe' = fe_level fe \<and>
     (\<forall>j. Originator j \<noteq> fe_systemID fe \<longrightarrow> LSDB_Get (fe_lsdb fe') j = LSDB_Get (fe_lsdb fe) j) \<and>
     (\<forall>k a. gm_get (fe_adjacencies fe) k = Some a \<longrightarrow>
        (\<exists>a'. gm_get (fe_adjacencies fe') k = Some a' \<and> afs_Info a' = afs_Info a \<and>
              set (afs_TIEsREQ a) \<subseteq> set (afs_TIEsREQ a')))"

lemma fe_ext_refl [simp, intro]: "fe_ext fe fe"
  by (simp add: fe_ext_def)

lemma fe_ext_adj:
  assumes "fe_ext fe fe'" and "gm_get (fe_adjacencies fe) k = Some a"
  obtains a' where "gm_get (fe_adjacencies fe') k = Some a'" and "afs_Info a' = afs_Info a"
    and "set (afs_TIEsREQ a) \<subseteq> set (afs_TIEsREQ a')"
  using assms unfolding fe_ext_def by blast

lemma fe_ext_trans:
  assumes "fe_ext a b" and "fe_ext b c"
  shows "fe_ext a c"
proof -
  have "\<exists>s'. gm_get (fe_adjacencies c) k = Some s' \<and> afs_Info s' = afs_Info s \<and>
      set (afs_TIEsREQ s) \<subseteq> set (afs_TIEsREQ s')" if s: "gm_get (fe_adjacencies a) k = Some s" for k s
    by (rule fe_ext_adj [OF assms(1) s], erule fe_ext_adj [OF assms(2)]) auto
  with assms show ?thesis by (simp add: fe_ext_def)
qed

lemma fe_ext_own: "own_only fe fe' \<Longrightarrow> fe_le fe fe' \<Longrightarrow> fe_ext fe fe'"
  by (simp add: fe_ext_def own_only_def fe_le_def)

lemma fe_ext_gm_map:
  assumes "\<And>k a. afs_Info (f k a) = afs_Info a \<and> set (afs_TIEsREQ a) \<subseteq> set (afs_TIEsREQ (f k a))"
  shows "fe_ext fe (fe\<lparr>fe_adjacencies := gm_map f (fe_adjacencies fe)\<rparr>)"
  using assms by (simp add: fe_ext_def go_map_laws)

lemma queue_ops_ext:
  "fe_ext fe (enqueueTX k i fe)" "fe_ext fe (dequeueTX k i fe)" "fe_ext fe (enqueueREQ k i fe)"
  "fe_ext fe (floodTIEToAll i fe)"
  unfolding enqueueTX_def dequeueTX_def enqueueREQ_def floodTIEToAll_def upd_adj_def
  by (rule fe_ext_gm_map; auto)+

lemma bumpOwnTIE_ext:
  assumes "fe_ok fe" and "bumpOwnTIE i fe = Some fe'"
  shows "fe_ext fe fe'"
proof -
  have "fe_ext fe (put_entry (bumped e now) fe)"
    if "LSDB_Get (fe_lsdb fe) i = Some e" "le_SelfOriginated e" for e now
    using that fe_okD(4,5) [OF assms(1)] bumped_put_ok(2) [OF assms(1) that]
    by (intro fe_ext_own put_own_only) simp_all
  with assms show ?thesis
    by (auto simp: bumpOwnTIE_unlocked fe_okD(3) split: option.splits if_splits)
qed

lemma tide_entry_ext:
  assumes "fe_ok fe" and "tide_entry k lvl h fe = Some fe'"
  shows "fe_ext fe fe'"
proof -
  let ?i = "th_TIEID (hl_Header h)"
  obtain f1 where f1: "originateSelfTIEs fe = Some (self_ids fe, f1)" "fe_ext fe f1"
    using originateSelfTIEs_safe [OF assms(1)] fe_ext_own by blast
  have o: "fe_ext fe (floodTIEToAll ?i f1)"
    using f1(2) queue_ops_ext(4) fe_ext_trans by blast
  have b: "fe_ext fe (floodTIEToAll ?i f2)" if "bumpOwnTIE ?i fe = Some f2" for f2
    using bumpOwnTIE_ext [OF assms(1) that] queue_ops_ext(4) fe_ext_trans by blast
  show ?thesis
    using assms(2) f1(1) o b queue_ops_ext(1-3)
    unfolding tide_entry_def Let_def
    by (auto split: option.splits if_splits Option.bind_splits)
qed

lemma tide_entries_ext:
  assumes "fe_ok fe" and "fold_opt (tide_entry k lvl) hs fe = Some fe'"
  shows "fe_ext fe fe' \<and> fe_ok fe'"
proof (rule fold_opt_invD [OF assms(2), of "\<lambda>g. fe_ext fe g \<and> fe_ok g"])
  fix h g g'
  assume "fe_ext fe g \<and> fe_ok g" and s: "tide_entry k lvl h g = Some g'"
  then show "fe_ext fe g' \<and> fe_ok g'"
    using tide_entry_ext fe_ext_trans flood_handler.keeps [OF tide_entry_handler _ s] by blast
qed (use assms(1) in simp)

lemma tide_entries_run:
  assumes "fe_ok fe"
  obtains fe' where "fold_opt (tide_entry k lvl) hs fe = Some fe'" and "fe_ok fe'" and "fe_ext fe fe'"
proof -
  have "flood_handler (fold_opt (tide_entry k lvl) hs)"
    by (rule handler_fold) (rule tide_entry_handler)
  then obtain fe' where "fold_opt (tide_entry k lvl) hs fe = Some fe'"
    using flood_handler.safe assms by blast
  with that tide_entries_ext [OF assms this] show thesis by blast
qed

lemma tide_missing_ext:
  assumes "ForEachSorted fe_lsdb upd_lsdb (tide_missing k lvl tide) fe = Some fe'"
  shows "fe_ext fe fe'"
proof -
  have "ForEachSorted_loop fe_lsdb (tide_missing k lvl tide) (sorted_ids (fe_lsdb fe)) (upd_lsdb RLock fe) =
      Some (upd_lsdb RLock (upd_adj k (add_tx (filter (tide_lacks fe lvl tide) (sorted_ids (fe_lsdb fe)))) fe))"
    by (rule tide_missing_loop) (simp_all add: set_sorted_ids)
  with assms have "fe' = upd_adj k (add_tx (filter (tide_lacks fe lvl tide) (sorted_ids (fe_lsdb fe)))) fe"
    by (simp add: ForEachSorted_def)
  then show ?thesis
    unfolding upd_adj_def by (simp add: fe_ext_gm_map add_tx_def)
qed

section \<open>The steps of the exchange\<close>

lemma handleTIDE_requests:
  assumes "fe_ok fe" and "gm_get (fe_adjacencies fe) k = Some adj"
    and "h \<in> set (tide_Headers tide)" and "i = th_TIEID (hl_Header h)"
    and "Originator i \<noteq> fe_systemID fe"
    and "case LSDB_Get (fe_lsdb fe) i of None \<Rightarrow> True | Some e \<Rightarrow> CompareTIEHeader h (LSDBEntry_Header e) > 0"
    and "shouldAcceptTIE (fe_systemID fe) (fe_level fe) i (ai_NeighborLevel (afs_Info adj))"
  shows "\<exists>fe' adj'. handleTIDE k tide fe = Some fe' \<and> fe_ok fe' \<and> fe_ext fe fe' \<and>
    gm_get (fe_adjacencies fe') k = Some adj' \<and> afs_Info adj' = afs_Info adj \<and> i \<in> set (afs_TIEsREQ adj')"
proof -
  let ?lvl = "ai_NeighborLevel (afs_Info adj)"
  obtain xs ys where hs: "tide_Headers tide = xs @ h # ys"
    using assms(3) by (auto dest: split_list)
  have fold_app: "fold_opt f (as @ bs) s = Option.bind (fold_opt f as s) (fold_opt f bs)"
    for f :: "TIEHeaderWithLifeTime \<Rightarrow> FloodEngine \<Rightarrow> FloodEngine option" and as bs s
    by (induction as arbitrary: s) (auto split: Option.bind_splits)
  obtain f1 where f1: "fold_opt (tide_entry k ?lvl) xs fe = Some f1" "fe_ok f1" "fe_ext fe f1"
    using tide_entries_run [OF assms(1)] by blast
  obtain a1 where a1: "gm_get (fe_adjacencies f1) k = Some a1" "afs_Info a1 = afs_Info adj"
    using fe_ext_adj [OF f1(3) assms(2)] by blast
  let ?f2 = "enqueueREQ k i f1"
  have f2: "tide_entry k ?lvl h f1 = Some ?f2"
    using f1(3) assms(4-7) by (cases "LSDB_Get (fe_lsdb fe) i") (simp_all add: tide_entry_def Let_def fe_ext_def)
  have ok2: "fe_ok ?f2" using queue_ops_ok(4) f1(2) by blast
  have a2: "gm_get (fe_adjacencies ?f2) k = Some (a1\<lparr>afs_TIEsREQ := gs_add i (afs_TIEsREQ a1)\<rparr>)"
    using a1 by (simp add: enqueueREQ_def upd_adj_get)
  obtain f3 where f3: "fold_opt (tide_entry k ?lvl) ys ?f2 = Some f3" "fe_ok f3" "fe_ext ?f2 f3"
    using tide_entries_run [OF ok2] by blast
  obtain f4 where f4: "ForEachSorted fe_lsdb upd_lsdb (tide_missing k ?lvl tide) f3 = Some f4" "fe_ok f4"
    using tide_missing_safe [OF f3(2)] by blast
  have "fe_ext ?f2 f4" using f3(3) tide_missing_ext [OF f4(1)] fe_ext_trans by blast
  from fe_ext_adj [OF this a2] a1(2) obtain a4 where "gm_get (fe_adjacencies f4) k = Some a4" "afs_Info a4 = afs_Info adj"
    "i \<in> set (afs_TIEsREQ a4)" by auto
  moreover have "fe_ext fe f4"
    using f1(3) queue_ops_ext(3) \<open>fe_ext ?f2 f4\<close> fe_ext_trans by blast
  moreover have "handleTIDE k tide fe = Some f4"
    using assms(2) f1(1) f2 f3(1) f4(1) by (simp add: handleTIDE_def Let_def hs fold_app)
  ultimately show ?thesis using f4(2) by blast
qed


lemma request_answered:
  assumes "gm_get (fe_adjacencies fe) k = Some adj" and "LSDB_Get (fe_lsdb fe) i = Some e"
    and "0 < sint (entry_seq e)"
    and "\<forall>h \<in> set (tire_Headers tire). hl_RemainingLifetime h = 0 \<and> th_SeqNr (hl_Header h) = 0"
    and "i \<in> set (map (\<lambda>h. th_TIEID (hl_Header h)) (tire_Headers tire))"
  shows "\<exists>adj'. gm_get (fe_adjacencies (handleTIRE k tire fe)) k = Some adj' \<and>
    afs_Info adj' = afs_Info adj \<and> i \<in> set (afs_TIEsTX adj')"
    and "fe_lsdb (handleTIRE k tire fe) = fe_lsdb fe"
proof -
  have step: "tire_entry k h g = enqueueTX k (th_TIEID (hl_Header h)) g \<or> tire_entry k h g = g"
    if "hl_RemainingLifetime h = 0" for h g
    using that by (auto simp: tire_entry_def Let_def split: option.split)
  have run: "fe_lsdb (fold (tire_entry k) hs g) = fe_lsdb g \<and>
      (\<exists>a'. gm_get (fe_adjacencies (fold (tire_entry k) hs g)) k = Some a' \<and> afs_Info a' = afs_Info a \<and>
         set (afs_TIEsTX a) \<subseteq> set (afs_TIEsTX a'))"
    if "gm_get (fe_adjacencies g) k = Some a" "\<forall>h \<in> set hs. hl_RemainingLifetime h = 0" for hs g a
    using that
  proof (induction hs arbitrary: g a)
    case (Cons h hs)
    let ?a = "a\<lparr>afs_TIEsTX := gs_add (th_TIEID (hl_Header h)) (afs_TIEsTX a)\<rparr>"
    have "gm_get (fe_adjacencies (enqueueTX k (th_TIEID (hl_Header h)) g)) k = Some ?a"
      using Cons.prems by (simp add: enqueueTX_def upd_adj_get)
    with Cons.IH [of "enqueueTX k (th_TIEID (hl_Header h)) g" ?a] Cons.IH [of g a] Cons.prems
      step [of h g] show ?case by auto
  qed simp
  obtain h where h: "h \<in> set (tire_Headers tire)" "i = th_TIEID (hl_Header h)" using assms(5) by auto
  then obtain xs ys where hs: "tire_Headers tire = xs @ h # ys" by (auto dest: split_list)
  let ?g = "fold (tire_entry k) xs fe"
  obtain a1 where a1: "fe_lsdb ?g = fe_lsdb fe" "gm_get (fe_adjacencies ?g) k = Some a1" "afs_Info a1 = afs_Info adj"
    using run [OF assms(1), of xs] assms(4) hs by auto
  have "CompareTIEHeader h (LSDBEntry_Header e) \<le> 0"
    using h assms(3,4) by (auto simp: CompareTIEHeader_def LSDBEntry_Header_def cmpInt64_def)
  then have "tire_entry k h ?g = enqueueTX k i ?g"
    using a1(1) assms(2,4) h by (simp add: tire_entry_def Let_def)
  moreover have "gm_get (fe_adjacencies (enqueueTX k i ?g)) k = Some (a1\<lparr>afs_TIEsTX := gs_add i (afs_TIEsTX a1)\<rparr>)"
    using a1(2) by (simp add: enqueueTX_def upd_adj_get)
  ultimately show "\<exists>adj'. gm_get (fe_adjacencies (handleTIRE k tire fe)) k = Some adj' \<and>
      afs_Info adj' = afs_Info adj \<and> i \<in> set (afs_TIEsTX adj')"
    and "fe_lsdb (handleTIRE k tire fe) = fe_lsdb fe"
    using run [of "enqueueTX k i ?g" "a1\<lparr>afs_TIEsTX := gs_add i (afs_TIEsTX a1)\<rparr>" ys]
      assms(1,4) a1 hs by (auto simp: handleTIRE_def)
qed

lemma listed_in_chunk:
  assumes "h \<in> set hs"
  obtains tide where "tide \<in> set (buildTIDEChunks hs)" and "h \<in> set (tide_Headers tide)"
proof -
  have "concat (map tide_Headers (buildTIDEChunks hs)) = hs"
    by (simp add: buildTIDEChunks_def build_chunks_concat)
  with assms have "h \<in> set (concat (map tide_Headers (buildTIDEChunks hs)))" by simp
  then obtain tide where "tide \<in> set (buildTIDEChunks hs)" "h \<in> set (tide_Headers tide)" by fastforce
  then show thesis by (rule that)
qed

lemma tide_headers_mem:
  assumes "LSDB_Get (fe_lsdb fe) i = Some e" and "ShouldIncludeInTIDE i (fe_systemID fe) (fe_level fe) lvl"
  obtains hs where "tide_headers lvl fe = Some hs" and "LSDBEntry_Header e \<in> set hs"
  using assms that unfolding tide_headers_eq by (force simp: set_sorted_ids)

section \<open>Lifetimes of received TIEs\<close>

text \<open>
  \<^bold>\<open>A repeated TIE starts its lifetime over.\<close> A TIE of another originator that arrives again, the
  same packet as the stored one, is installed as a newer version and its remaining lifetime is
  set back to the origination lifetime as soon as the stored lifetime is more than
  \<open>LifetimeDiff2Ignore\<close> below it: the remaining lifetime the sender put on the envelope is not
  used. A TIE whose originator is gone is therefore kept alive by retransmission.
\<close>

theorem handleTIE_restarts_lifetime:
  assumes "fe_ok fe" and "gm_get (fe_adjacencies fe) ifName = Some adj"
    and "LSDB_Get (fe_lsdb fe) i = Some e" and "Originator i \<noteq> fe_systemID fe"
    and "th_OriginationLifetime (tie_Header (le_Packet e)) = Some lt"
    and "0 \<le> sint (le_RemainingLifetime e)"
    and "sint LifetimeDiff2Ignore < sint lt - sint (le_RemainingLifetime e)"
  shows "\<exists>fe' e'. handleTIE ifName (le_Packet e) fe = Some fe' \<and> LSDB_Get (fe_lsdb fe') i = Some e' \<and>
    le_Packet e' = le_Packet e \<and> le_RemainingLifetime e' = lt"
proof -
  have i: "i = th_TIEID (tie_Header (le_Packet e))" using fe_okD(5) [OF assms(1,3)] by simp
  have lt: "0 \<le> sint lt" using assms(6,7) by simp
  have "0 < CompareTIEHeader (rx_header (le_Packet e)) (LSDBEntry_Header e)"
    using assms(5-7) sint_diff [OF lt assms(6)]
    by (simp add: CompareTIEHeader_def rx_header_def LSDBEntry_Header_def Let_def cmpInt32_def)
  then have "handleTIE ifName (le_Packet e) fe = install_tie ifName (le_Packet e) fe"
    using assms(2-4) i by (simp add: handleTIE_def Let_def)
  with install_tie_effect [OF assms(1), of ifName "le_Packet e"] show ?thesis
    using i assms(5) by (auto simp: rx_entry_def rx_header_def)
qed

end
