(* ===== verification/Tie_Frame.thy ===== *)
theory Tie_Frame
  imports Tie_Flood
begin

text \<open>
  What the flood engine does to its adjacencies: only \<open>handleAdjChange\<close> adds, replaces or removes one. The
  locale \<open>keeps_adjacencies\<close> is for the handlers that change none.
\<close>

section \<open>Operations that change no adjacency\<close>

named_theorems adjacencies_frame

lemma Adjacencies_map:
  assumes "\<And>k adj. afs_Info (f k adj) = afs_Info adj"
  shows "Adjacencies (fe\<lparr>fe_adjacencies := gm_map f (fe_adjacencies fe)\<rparr>) = Adjacencies fe"
  using assms by (simp add: Adjacencies_def gm_map_def comp_def case_prod_unfold)

lemma Adjacencies_upd_adj:
  "(\<And>adj. afs_Info (f adj) = afs_Info adj) \<Longrightarrow> Adjacencies (upd_adj ifName f fe) = Adjacencies fe"
  unfolding upd_adj_def by (rule Adjacencies_map) simp

lemma Adjacencies_queues [adjacencies_frame]:
  "Adjacencies (ackTIE k i fe) = Adjacencies fe" "Adjacencies (enqueueTX k i fe) = Adjacencies fe"
  "Adjacencies (dequeueTX k i fe) = Adjacencies fe" "Adjacencies (enqueueREQ k i fe) = Adjacencies fe"
  "Adjacencies (floodTIEToAll i fe) = Adjacencies fe" "Adjacencies (floodTIEToAllExcept i k fe) = Adjacencies fe"
  unfolding ackTIE_def enqueueTX_def dequeueTX_def enqueueREQ_def floodTIEToAll_def floodTIEToAllExcept_def
  by (rule Adjacencies_upd_adj Adjacencies_map; simp)+

lemma Adjacencies_fields [adjacencies_frame]:
  "Adjacencies (fe\<lparr>fe_lsdb := db\<rparr>) = Adjacencies fe" "Adjacencies (fe\<lparr>fe_FloodSendCh := ps\<rparr>) = Adjacencies fe"
  "Adjacencies (fe\<lparr>fe_LSDBChangeCh := b\<rparr>) = Adjacencies fe" "Adjacencies (fe\<lparr>fe_clock := t\<rparr>) = Adjacencies fe"
  "Adjacencies (upd_lsdb f fe) = Adjacencies fe" "Adjacencies (notifyLSDBChange fe) = Adjacencies fe"
  "Adjacencies (sendFloodPacket adj p lt fe) = Adjacencies fe" "Adjacencies (sendTIRE adj hs fe) = Adjacencies fe"
  by (simp_all add: Adjacencies_def upd_lsdb_def notifyLSDBChange_def sendFloodPacket_def sendTIRE_def Let_def)

locale keeps_adjacencies =
  fixes h :: "FloodEngine \<Rightarrow> FloodEngine option"
  assumes keeps: "h fe = Some fe' \<Longrightarrow> Adjacencies fe' = Adjacencies fe"
begin

lemma then_keeps:
  assumes "keeps_adjacencies g"
  shows "keeps_adjacencies (\<lambda>fe. Option.bind (h fe) g)"
proof
  fix fe fe' assume "Option.bind (h fe) g = Some fe'"
  then obtain fe1 where "h fe = Some fe1" and "g fe1 = Some fe'" by (auto split: Option.bind_splits)
  then show "Adjacencies fe' = Adjacencies fe"
    using keeps keeps_adjacencies.keeps [OF assms] by simp
qed

lemma then_pure: "(\<And>fe. Adjacencies (g fe) = Adjacencies fe) \<Longrightarrow> keeps_adjacencies (\<lambda>fe. Option.bind (h fe) (\<lambda>fe. Some (g fe)))"
  by (rule then_keeps) (simp add: keeps_adjacencies_def)

end

lemma keeps_fold:
  assumes "\<And>x. keeps_adjacencies (f x)"
  shows "keeps_adjacencies (fold_opt f xs)"
proof
  fix fe fe' assume run: "fold_opt f xs fe = Some fe'"
  show "Adjacencies fe' = Adjacencies fe"
    by (rule fold_opt_invD [OF run, of "\<lambda>g. Adjacencies g = Adjacencies fe"])
      (simp_all add: keeps_adjacencies.keeps [OF assms])
qed

lemma keeps_pure_fold: "(\<And>x fe. Adjacencies (f x fe) = Adjacencies fe) \<Longrightarrow> Adjacencies (fold f xs fe) = Adjacencies fe"
  by (induction xs arbitrary: fe) simp_all

lemma keeps_each:
  assumes "\<And>i e s b s'. fn i e s = Some (b, s') \<Longrightarrow> Adjacencies s' = Adjacencies s"
    and "ForEachSorted fe_lsdb upd_lsdb fn fe = Some fe'"
  shows "Adjacencies fe' = Adjacencies fe"
proof -
  have loop: "ForEachSorted_loop fe_lsdb fn ids s = Some s' \<Longrightarrow> Adjacencies s' = Adjacencies s" for ids s s'
    by (induction ids arbitrary: s) (auto split: option.splits if_splits dest: assms(1))
  from assms(2) show ?thesis
    by (auto simp: ForEachSorted_def adjacencies_frame dest!: loop)
qed

section \<open>The handlers\<close>

interpretation insertion: keeps_adjacencies "lsdb_Insert e" for e
  by unfold_locales (auto simp: lsdb_Insert_def adjacencies_frame)

interpretation bump: keeps_adjacencies "bumpOwnTIE tid" for tid
  by unfold_locales (auto simp: bumpOwnTIE_def Let_def split: option.splits if_splits dest: insertion.keeps)

interpretation bump_and_flood: keeps_adjacencies "\<lambda>fe. Option.bind (bumpOwnTIE tid fe) (\<lambda>fe. Some (floodTIEToAll tid' fe))"
  for tid tid'
  by (rule bump.then_pure) (simp add: adjacencies_frame)

lemma insertSelfOriginated_keeps: "insertSelfOriginated tid el fe = Some (b, fe') \<Longrightarrow> Adjacencies fe' = Adjacencies fe"
  by (auto simp: insertSelfOriginated_def Let_def split: Option.bind_splits dest: insertion.keeps)

lemma originate_keeps:
  "originateNorthNodeTIE fe = Some (r, fe') \<Longrightarrow> Adjacencies fe' = Adjacencies fe"
  "originateNorthPrefixTIE fe = Some (r, fe') \<Longrightarrow> Adjacencies fe' = Adjacencies fe"
  "originateSouthNodeTIE fe = Some (r, fe') \<Longrightarrow> Adjacencies fe' = Adjacencies fe"
  "originateSouthPrefixTIE fe = Some (r, fe') \<Longrightarrow> Adjacencies fe' = Adjacencies fe"
  by (auto simp: originateNorthNodeTIE_def originateNorthPrefixTIE_def originateSouthNodeTIE_def
      originateSouthPrefixTIE_def Let_def split: Option.bind_splits dest: insertSelfOriginated_keeps)

lemma collect_keeps:
  assumes "collect_changed f (ids, fe) = Some (ids', fe')" and "\<And>r fe fe'. f fe = Some (r, fe') \<Longrightarrow> Adjacencies fe' = Adjacencies fe"
  shows "Adjacencies fe' = Adjacencies fe"
  using assms by (fastforce simp: collect_changed_def split: Option.bind_splits)

lemma originateSelfTIEs_keeps: "originateSelfTIEs fe = Some (ids, fe') \<Longrightarrow> Adjacencies fe' = Adjacencies fe"
  unfolding originateSelfTIEs_def
  by (auto split: Option.bind_splits if_splits dest!: collect_keeps intro: originate_keeps)

interpretation install: keeps_adjacencies "install_tie ifName tie" for ifName tie
  by unfold_locales
    (auto simp: install_tie_def Let_def adjacencies_frame split: Option.bind_splits dest: insertion.keeps)

interpretation TIE: keeps_adjacencies "handleTIE ifName tie" for ifName tie
  by unfold_locales
    (auto simp: handleTIE_def Let_def adjacencies_frame split: option.splits if_splits
      dest: bump_and_flood.keeps install.keeps)

interpretation tide_header: keeps_adjacencies "tide_entry ifName neighborLevel hdr" for ifName neighborLevel hdr
  by unfold_locales
    (auto simp: tide_entry_def Let_def adjacencies_frame split: option.splits if_splits Option.bind_splits
      dest!: bump_and_flood.keeps bump.keeps originateSelfTIEs_keeps)

interpretation TIDE: keeps_adjacencies "handleTIDE ifName tide" for ifName tide
proof
  fix fe fe' assume run: "handleTIDE ifName tide fe = Some fe'"
  have missing: "Adjacencies s' = Adjacencies s"
    if "tide_missing ifName neighborLevel tide i e s = Some (b, s')" for neighborLevel i e s b s'
    using that by (auto simp: tide_missing_def adjacencies_frame split: if_splits)
  have headers: "keeps_adjacencies (fold_opt (tide_entry ifName neighborLevel) hs)" for neighborLevel hs
    by (rule keeps_fold) (rule tide_header.keeps_adjacencies_axioms)
  from run show "Adjacencies fe' = Adjacencies fe"
    by (auto simp: handleTIDE_def Let_def split: option.splits Option.bind_splits
        dest!: keeps_adjacencies.keeps [OF headers] keeps_each [OF missing, rotated])
qed

lemma handleTIRE_keeps: "Adjacencies (handleTIRE ifName tire fe) = Adjacencies fe"
  by (auto simp: handleTIRE_def tire_entry_def Let_def adjacencies_frame intro!: keeps_pure_fold split: option.split)

interpretation FloodPacket: keeps_adjacencies "handleFloodPacket rpkt" for rpkt
  by unfold_locales
    (auto simp: handleFloodPacket_def Let_def handleTIRE_keeps split: option.splits dest: TIE.keeps TIDE.keeps)

lemma OriginatePositiveDisaggTIE_keeps:
  "OriginatePositiveDisaggTIE prefixes fe = Some (r, fe') \<Longrightarrow> Adjacencies fe' = Adjacencies fe"
  unfolding OriginatePositiveDisaggTIE_def Let_def
  by (cases "prefixes = []"; cases "LSDB_Get (fe_lsdb fe) (TIEID 1 (fe_systemID fe) 4 1)")
    (auto split: Option.bind_splits if_splits dest!: insertSelfOriginated_keeps)

interpretation Disagg: keeps_adjacencies "handleDisaggUpdate prefixes" for prefixes
  by unfold_locales
    (auto simp: handleDisaggUpdate_def adjacencies_frame
      split: Option.bind_splits if_splits dest!: OriginatePositiveDisaggTIE_keeps)

interpretation TIDEs: keeps_adjacencies generateAndSendTIDEs
proof -
  have "keeps_adjacencies (sendTIDEsToAdj ifName)" for ifName
    by unfold_locales
      (auto simp: sendTIDEsToAdj_def adjacencies_frame split: option.splits Option.bind_splits intro!: keeps_pure_fold)
  then show "keeps_adjacencies generateAndSendTIDEs"
    unfolding generateAndSendTIDEs_def keeps_adjacencies_def using keeps_fold [unfolded keeps_adjacencies_def] by metis
qed

interpretation Lifetimes: keeps_adjacencies tickLifetimes
proof
  fix fe fe' assume run: "tickLifetimes fe = Some fe'"
  have "Adjacencies s' = Adjacencies s" if "reoriginate i e s = Some (b, s')" for i e s b s'
    using that by (auto simp: reoriginate_def adjacencies_frame split: if_splits Option.bind_splits dest: bump.keeps)
  note each = keeps_each [OF this]
  from run show "Adjacencies fe' = Adjacencies fe"
    by (auto simp: tickLifetimes_def adjacencies_frame Let_def split: Option.bind_splits if_splits dest!: each [rotated])
qed

lemma drain_keeps: "Adjacencies (drainQueues fe) = Adjacencies fe"
proof -
  have "Adjacencies (drain_acks k adj fe) = Adjacencies fe" "Adjacencies (drain_reqs k adj fe) = Adjacencies fe"
    "Adjacencies (drain_tx k adj i fe) = Adjacencies fe" for k adj i fe
    by (simp_all add: drain_acks_def drain_reqs_def drain_tx_def Let_def adjacencies_frame Adjacencies_upd_adj
        split: option.split)
  then show ?thesis
    by (auto simp: drainQueues_def drainAdjQueues_def split: option.split intro!: keeps_pure_fold)
      (simp add: keeps_pure_fold)
qed

section \<open>What an event does to the adjacencies\<close>

lemma serve_keeps:
  assumes "serve ev fe = Some fe'" and "\<And>ch. ev \<noteq> AdjChangeEv ch"
  shows "Adjacencies fe' = Adjacencies fe"
  using assms
  by (cases ev) (auto simp: drain_keeps dest: FloodPacket.keeps TIDEs.keeps Lifetimes.keeps Disagg.keeps)

lemma Adjacencies_get: "gm_get (Adjacencies fe) k = map_option afs_Info (gm_get (fe_adjacencies fe) k)"
  by (simp add: Adjacencies_def go_map_laws)

lemma serve_adj_change:
  assumes "serve (AdjChangeEv ch) fe = Some fe'" and "gm_wf (fe_adjacencies fe)"
  shows "gm_get (Adjacencies fe') k = (if k = ac_InterfaceName ch then ac_Info ch else gm_get (Adjacencies fe) k)"
    and "fe_LSDBChangeCh fe'"
proof -
  let ?fe1 = "case ac_Info ch of
      Some info \<Rightarrow> fe\<lparr>fe_adjacencies := gm_put (ac_InterfaceName ch) (newAdjFloodState info) (fe_adjacencies fe)\<rparr>
    | None \<Rightarrow> fe\<lparr>fe_adjacencies := gm_del (ac_InterfaceName ch) (fe_adjacencies fe)\<rparr>"
  obtain changed fe2 where o: "originateSelfTIEs ?fe1 = Some (changed, fe2)"
    and fe': "fe' = notifyLSDBChange (fold floodTIEToAll changed fe2)"
    using assms(1) by (auto simp: handleAdjChange_def Let_def split: Option.bind_splits)
  have "Adjacencies fe' = Adjacencies fe2"
    unfolding fe' by (simp add: adjacencies_frame keeps_pure_fold)
  also have "\<dots> = Adjacencies ?fe1" using o by (rule originateSelfTIEs_keeps)
  finally show "gm_get (Adjacencies fe') k = (if k = ac_InterfaceName ch then ac_Info ch else gm_get (Adjacencies fe) k)"
    using assms(2) by (auto simp: Adjacencies_get go_map_laws newAdjFloodState_def split: option.split)
  show "fe_LSDBChangeCh fe'" unfolding fe' by (simp add: notifyLSDBChange_def)
qed

end
