(* ===== verification/Tie_Round.thy ===== *)
theory Tie_Round
  imports Tie_Converge Tie_Frame
begin

text \<open>
  A whole round between two engines: one sends its TIDE packets, the other requests what it lacks, the
  first answers, and the other stores the answers. The transport delivers the packets of a drain in order.
\<close>

section \<open>Delivering packets\<close>

text \<open>The packets of one adjacency, handled one after the other at its other end.\<close>

definition deliver :: "string \<Rightarrow> FloodPacket list \<Rightarrow> FloodEngine \<Rightarrow> FloodEngine option" where
  "deliver ifName = fold_opt (\<lambda>p. handleFloodPacket
     \<lparr>rf_Packet = fp_Packet p, rf_SrcAddr = '''', rf_IfName = ifName\<rparr>)"

text \<open>
  A drain that starts with an empty channel, and what the transport then takes from it for one interface;
  and the TIDE packets of one adjacency.
\<close>

definition drain_sent :: "string \<Rightarrow> FloodEngine \<Rightarrow> FloodPacket list \<times> FloodEngine" where
  "drain_sent ifName fe =
     (let fe = drainQueues (fe\<lparr>fe_FloodSendCh := []\<rparr>)
      in (filter (\<lambda>p. fp_InterfaceName p = ifName) (fe_FloodSendCh fe), fe\<lparr>fe_FloodSendCh := []\<rparr>))"

definition tides_sent :: "string \<Rightarrow> FloodEngine \<Rightarrow> (FloodPacket list \<times> FloodEngine) option" where
  "tides_sent ifName fe =
     map_option (\<lambda>fe. (filter (\<lambda>p. fp_InterfaceName p = ifName) (fe_FloodSendCh fe), fe\<lparr>fe_FloodSendCh := []\<rparr>))
       (sendTIDEsToAdj ifName (fe\<lparr>fe_FloodSendCh := []\<rparr>))"

text \<open>Every adjacency is filed under its own interface.\<close>

definition named_adjacencies :: "FloodEngine \<Rightarrow> bool" where
  "named_adjacencies fe \<longleftrightarrow> (\<forall>k info. gm_get (Adjacencies fe) k = Some info \<longrightarrow> ai_InterfaceName info = k)"

lemma named_adjacency:
  "named_adjacencies fe \<Longrightarrow> gm_get (fe_adjacencies fe) k = Some adj \<Longrightarrow> ai_InterfaceName (afs_Info adj) = k"
  unfolding named_adjacencies_def Adjacencies_get by (metis option.simps(9))

lemma deliver_append: "deliver k (ps @ qs) fe = Option.bind (deliver k ps fe) (deliver k qs)"
  unfolding deliver_def by (induction ps arbitrary: fe) (auto split: Option.bind_splits)

lemma deliver_handler: "flood_handler (deliver k ps)"
  unfolding deliver_def by (rule handler_fold) (rule handleFloodPacket.flood_handler_axioms)

lemma deliver_keeps: "deliver k ps fe = Some fe' \<Longrightarrow> Adjacencies fe' = Adjacencies fe"
  unfolding deliver_def
  by (rule keeps_adjacencies.keeps [OF keeps_fold]) (rule FloodPacket.keeps_adjacencies_axioms)

lemma deliver_safe:
  assumes "fe_ok fe"
  obtains fe' where "deliver k ps fe = Some fe'" and "fe_ok fe'" and "fe_le fe fe'" and "Adjacencies fe' = Adjacencies fe"
  using flood_handler.safe [OF deliver_handler assms] deliver_keeps by blast

lemma Adjacencies_adj:
  assumes "Adjacencies fe' = Adjacencies fe" and "gm_get (fe_adjacencies fe) k = Some adj"
  obtains adj' where "gm_get (fe_adjacencies fe') k = Some adj'" and "afs_Info adj' = afs_Info adj"
proof -
  have "gm_get (Adjacencies fe') k = Some (afs_Info adj)" using assms by (simp add: Adjacencies_get)
  with that show thesis by (auto simp: Adjacencies_get)
qed

section \<open>What a drain sends on one interface\<close>

lemma adj_packets_interface: "p \<in> set (adj_packets fe adj) \<Longrightarrow> fp_InterfaceName p = ai_InterfaceName (afs_Info adj)"
  by (auto simp: adj_packets_def tire_packet_def flood_packet_def map_filter_def split: if_splits)

lemma interface_packets:
  assumes "gm_wf m" and "gm_get m k = Some adj" and "\<And>k' a. gm_get m k' = Some a \<Longrightarrow> ai_InterfaceName (afs_Info a) = k'"
  shows "filter (\<lambda>p. fp_InterfaceName p = k) (concat (map (\<lambda>(_, a). adj_packets fe a) m)) = adj_packets fe adj"
proof -
  have own: "filter (\<lambda>p. fp_InterfaceName p = k) (adj_packets fe a) = (if k' = k then adj_packets fe a else [])"
    if "gm_get m k' = Some a" for k' a
    using adj_packets_interface [of _ fe a] assms(3) [OF that] by (auto simp: filter_id_conv filter_empty_conv)
  have "filter (\<lambda>p. fp_InterfaceName p = k) (concat (map (\<lambda>(_, a). adj_packets fe a) m)) =
      concat (map (\<lambda>(k', a). if k' = k then adj_packets fe a else []) m)"
    unfolding filter_concat using own gm_get_in [OF assms(1)]
    by (auto intro!: arg_cong [of _ _ concat] simp: case_prod_beta)
  also have "\<dots> = adj_packets fe adj"
  proof -
    obtain xs ys where m: "m = xs @ (k, adj) # ys"
      using gm_get_inD [OF assms(2)] by (auto dest: split_list)
    with assms(1) have "k \<notin> fst ` set xs" "k \<notin> fst ` set ys" by (simp_all add: gm_wf_def)
    then have nil: "concat (map (\<lambda>(k', a). if k' = k then adj_packets fe a else []) xs) = []"
      "concat (map (\<lambda>(k', a). if k' = k then adj_packets fe a else []) ys) = []"
      by (auto simp: image_iff split: prod.splits)
    show ?thesis unfolding m map_append concat_append list.map concat.simps nil by simp
  qed
  finally show ?thesis .
qed

lemma push_empty:
  "push ps (fe\<lparr>fe_FloodSendCh := [], fe_adjacencies := m\<rparr>) = fe\<lparr>fe_adjacencies := m, fe_FloodSendCh := take FloodSendCap ps\<rparr>"
  by (simp add: push_def)

lemma drain_sent_eq:
  assumes ok: "fe_ok fe" and "named_adjacencies fe" and "gm_get (fe_adjacencies fe) k = Some adj"
    and "length (drained_packets fe) \<le> FloodSendCap"
  shows "drain_sent k fe = (adj_packets fe adj,
    fe\<lparr>fe_adjacencies := gm_map (\<lambda>_. drained) (fe_adjacencies fe), fe_FloodSendCh := []\<rparr>)"
proof -
  let ?fe = "fe\<lparr>fe_FloodSendCh := []\<rparr>"
  have ok': "fe_ok ?fe" using ok by (simp add: fe_ok_def)
  have "adj_packets ?fe = adj_packets fe"
    by (intro ext) (simp add: adj_packets_def tire_packet_def flood_packet_def packet_header_def)
  then have sent: "drained_packets ?fe = drained_packets fe" by (simp add: drained_packets_def)
  have mine: "filter (\<lambda>p. fp_InterfaceName p = k) (drained_packets fe) = adj_packets fe adj"
    unfolding drained_packets_def
    by (rule interface_packets [OF fe_okD(2) [OF ok] assms(3)]) (rule named_adjacency [OF assms(2)])
  have "fe_adjacencies ?fe = fe_adjacencies fe" by simp
  then have "drainQueues ?fe = fe\<lparr>fe_adjacencies := gm_map (\<lambda>_. drained) (fe_adjacencies fe),
      fe_FloodSendCh := drained_packets fe\<rparr>"
    unfolding drainQueues_eq [OF ok'] sent push_empty take_all [OF assms(4)] by (simp only:)
  then show ?thesis by (simp add: drain_sent_def mine)
qed

section \<open>Sending TIDE packets\<close>

lemma build_chunks_count: "25 * length (build_chunks s hs) \<le> length hs + 24"
proof (induction s hs rule: build_chunks.induct)
  case (1 s hs)
  show ?case
  proof (cases "hs = []")
    case True
    then show ?thesis by (simp add: build_chunks_Nil)
  next
    case False
    let ?e = "if drop MaxTIDEHeaders hs = [] then MaxTIEID else th_TIEID (hl_Header (last (take MaxTIDEHeaders hs)))"
    have "25 * length (build_chunks ?e (drop MaxTIDEHeaders hs)) \<le> length (drop MaxTIDEHeaders hs) + 24"
      using 1 [OF False refl refl refl] .
    with False show ?thesis
      by (cases "drop MaxTIDEHeaders hs = []") (auto simp: build_chunks_Cons [OF False] build_chunks_Nil Let_def Suc_le_eq)
  qed
qed

text \<open>The TIDE packets of a round are the chunks of the headers, if they fit into the channel.\<close>

definition tide_packets :: "FloodEngine \<Rightarrow> adjFloodState \<Rightarrow> FloodPacket list" where
  "tide_packets fe adj = map (\<lambda>tide. flood_packet fe adj (zero_PacketContent\<lparr>pc_TIDE := Some tide\<rparr>) 0)
     (buildTIDEChunks (the (tide_headers (ai_NeighborLevel (afs_Info adj)) fe)))"

lemma send_all:
  assumes "length (fe_FloodSendCh fe) \<le> FloodSendCap"
  shows "fold (\<lambda>tide g. sendFloodPacket adj
      \<lparr>pp_Header = packet_header g, pp_Content = zero_PacketContent\<lparr>pc_TIDE := Some tide\<rparr>\<rparr> 0 g) tides fe =
    push (map (\<lambda>tide. flood_packet fe adj (zero_PacketContent\<lparr>pc_TIDE := Some tide\<rparr>) 0) tides) fe"
  using assms
  by (induction tides arbitrary: fe) (simp_all add: push_Nil sendFloodPacket_push)

lemma tides_sent_eq:
  assumes ok: "fe_ok fe" and "named_adjacencies fe" and adj: "gm_get (fe_adjacencies fe) k = Some adj"
    and "LSDB_Len (fe_lsdb fe) \<le> 25 * FloodSendCap - 24"
  shows "tides_sent k fe = Some (tide_packets fe adj, fe\<lparr>fe_FloodSendCh := []\<rparr>)"
proof -
  let ?fe = "fe\<lparr>fe_FloodSendCh := []\<rparr>"
  let ?lvl = "ai_NeighborLevel (afs_Info adj)"
  obtain hs where hs: "tide_headers ?lvl fe = Some hs" "tide_headers ?lvl ?fe = Some hs"
    "length hs \<le> length (sorted_ids (fe_lsdb fe))"
    by (simp add: tide_headers_eq)
  have frame: "flood_packet ?fe = flood_packet fe"
    by (intro ext) (simp add: flood_packet_def packet_header_def)
  have "length (sorted_ids (fe_lsdb fe)) = LSDB_Len (fe_lsdb fe)"
    using fe_okD(1) [OF ok] length_sorted_ids by simp
  then have "length (tide_packets fe adj) \<le> FloodSendCap"
    using build_chunks_count [of MinTIEID hs] hs(1,3) assms(4)
    by (simp add: tide_packets_def buildTIDEChunks_def)
  moreover have "sendTIDEsToAdj k ?fe = Some (push (tide_packets fe adj) ?fe)"
    using adj hs by (simp add: sendTIDEsToAdj_def send_all frame tide_packets_def)
  moreover have "\<forall>p \<in> set (tide_packets fe adj). fp_InterfaceName p = k"
    using named_adjacency [OF assms(2) adj] by (auto simp: tide_packets_def flood_packet_def)
  ultimately show ?thesis by (simp add: tides_sent_def push_def)
qed

section \<open>Requests\<close>

lemma fold_opt_append: "fold_opt f (xs @ ys) s = Option.bind (fold_opt f xs s) (fold_opt f ys)"
  by (induction xs arbitrary: s) (auto split: Option.bind_splits)

lemma handleTIDE_ext:
  assumes "fe_ok fe"
  obtains fe' where "handleTIDE k tide fe = Some fe'" and "fe_ok fe'" and "fe_ext fe fe'"
proof (cases "gm_get (fe_adjacencies fe) k")
  case None
  with that [of fe] assms show thesis by (simp add: handleTIDE_def)
next
  case (Some adj)
  obtain f1 where f1: "fold_opt (tide_entry k (ai_NeighborLevel (afs_Info adj))) (tide_Headers tide) fe = Some f1"
    "fe_ok f1" "fe_ext fe f1"
    using tide_entries_run [OF assms] by blast
  obtain f2 where f2: "ForEachSorted fe_lsdb upd_lsdb (tide_missing k (ai_NeighborLevel (afs_Info adj)) tide) f1 = Some f2"
    "fe_ok f2"
    using tide_missing_safe [OF f1(2)] by blast
  with Some f1 that [of f2] tide_missing_ext [OF f2(1)] fe_ext_trans show thesis
    by (simp add: handleTIDE_def Let_def)
qed

lemma tides_ext:
  assumes "fe_ok fe"
  obtains fe' where "fold_opt (handleTIDE k) tides fe = Some fe'" and "fe_ok fe'" and "fe_ext fe fe'"
proof -
  have "\<exists>fe'. fold_opt (handleTIDE k) tides fe = Some fe' \<and> (fe_ok fe' \<and> fe_ext fe fe')"
  proof (rule fold_opt_inv)
    fix tide s assume "fe_ok s \<and> fe_ext fe s"
    moreover from this obtain s' where "handleTIDE k tide s = Some s'" "fe_ok s'" "fe_ext s s'"
      using handleTIDE_ext by blast
    ultimately show "\<exists>s'. handleTIDE k tide s = Some s' \<and> fe_ok s' \<and> fe_ext fe s'" using fe_ext_trans by blast
  qed (use assms in simp)
  with that show thesis by blast
qed

text \<open>What a TIDE header asks for.\<close>

definition wanted :: "FloodEngine \<Rightarrow> TIEHeaderWithLifeTime \<Rightarrow> LevelType \<Rightarrow> bool" where
  "wanted fe h lvl \<longleftrightarrow> (let i = th_TIEID (hl_Header h) in
     Originator i \<noteq> fe_systemID fe \<and> shouldAcceptTIE (fe_systemID fe) (fe_level fe) i lvl \<and>
     (case LSDB_Get (fe_lsdb fe) i of None \<Rightarrow> True | Some e \<Rightarrow> CompareTIEHeader h (LSDBEntry_Header e) > 0))"

lemma wanted_ext: "fe_ext fe fe' \<Longrightarrow> wanted fe' h lvl = wanted fe h lvl"
  by (simp add: wanted_def fe_ext_def Let_def cong: conj_cong)

lemma tides_request:
  assumes ok: "fe_ok fe" and adj: "gm_get (fe_adjacencies fe) k = Some adj"
    and run: "fold_opt (handleTIDE k) tides fe = Some fe'"
    and h: "tide \<in> set tides" "h \<in> set (tide_Headers tide)" "wanted fe h (ai_NeighborLevel (afs_Info adj))"
  shows "\<exists>adj'. gm_get (fe_adjacencies fe') k = Some adj' \<and> afs_Info adj' = afs_Info adj \<and>
    th_TIEID (hl_Header h) \<in> set (afs_TIEsREQ adj')"
proof -
  obtain xs ys where tides: "tides = xs @ tide # ys" using h(1) by (auto dest: split_list)
  obtain f1 where f1: "fold_opt (handleTIDE k) xs fe = Some f1" "fe_ok f1" "fe_ext fe f1" using tides_ext [OF ok] .
  obtain a1 where a1: "gm_get (fe_adjacencies f1) k = Some a1" "afs_Info a1 = afs_Info adj"
    using fe_ext_adj [OF f1(3) adj] by blast
  have "wanted f1 h (ai_NeighborLevel (afs_Info a1))" using h(3) wanted_ext [OF f1(3)] a1(2) by simp
  then obtain f2 a2 where f2: "handleTIDE k tide f1 = Some f2" "fe_ok f2" "gm_get (fe_adjacencies f2) k = Some a2"
    "afs_Info a2 = afs_Info a1" "th_TIEID (hl_Header h) \<in> set (afs_TIEsREQ a2)"
    using handleTIDE_requests [OF f1(2) a1(1) h(2) refl] unfolding wanted_def Let_def by blast
  obtain f3 where f3: "fold_opt (handleTIDE k) ys f2 = Some f3" "fe_ext f2 f3" using tides_ext [OF f2(2)] by blast
  have "fe' = f3" using run f1(1) f2(1) f3(1) by (simp add: tides fold_opt_append)
  with fe_ext_adj [OF f3(2) f2(3)] f2(4,5) a1(2) show ?thesis by (metis subsetD)
qed

lemma receive_packet [simp]:
  "handleFloodPacket \<lparr>rf_Packet = fp_Packet (flood_packet a adj c lt), rf_SrcAddr = src, rf_IfName = k\<rparr> fe =
     handleFloodPacket \<lparr>rf_Packet = \<lparr>pp_Header = packet_header a, pp_Content = c\<rparr>, rf_SrcAddr = src, rf_IfName = k\<rparr> fe"
  by (simp add: flood_packet_def)

lemma receive_contents [simp]:
  "handleFloodPacket \<lparr>rf_Packet = \<lparr>pp_Header = h, pp_Content = zero_PacketContent\<lparr>pc_TIDE := Some tide\<rparr>\<rparr>,
     rf_SrcAddr = src, rf_IfName = k\<rparr> fe = handleTIDE k tide fe"
  "handleFloodPacket \<lparr>rf_Packet = \<lparr>pp_Header = h, pp_Content = zero_PacketContent\<lparr>pc_TIRE := Some tire\<rparr>\<rparr>,
     rf_SrcAddr = src, rf_IfName = k\<rparr> fe = Some (handleTIRE k tire fe)"
  "handleFloodPacket \<lparr>rf_Packet = \<lparr>pp_Header = h, pp_Content = zero_PacketContent\<lparr>pc_TIE := Some tie\<rparr>\<rparr>,
     rf_SrcAddr = src, rf_IfName = k\<rparr> fe = handleTIE k tie fe"
  by (simp_all add: handleFloodPacket_def zero_PacketContent_def)

lemma deliver_tides:
  "deliver k (tide_packets a adj) fe =
     fold_opt (handleTIDE k) (buildTIDEChunks (the (tide_headers (ai_NeighborLevel (afs_Info adj)) a))) fe"
proof -
  have "deliver k (map (\<lambda>tide. flood_packet a adj (zero_PacketContent\<lparr>pc_TIDE := Some tide\<rparr>) 0) tides) fe =
    fold_opt (handleTIDE k) tides fe" for tides
    unfolding deliver_def by (induction tides arbitrary: fe) (simp_all cong: Option.bind_cong)
  then show ?thesis by (simp add: tide_packets_def)
qed

section \<open>Answers\<close>

text \<open>
  What a received TIE leaves: entries stay or become newer, the node's own ones by one bump at most, and
  nothing is taken from a transmission queue.
\<close>

definition tie_frame :: "nat \<Rightarrow> FloodEngine \<Rightarrow> FloodEngine \<Rightarrow> bool" where
  "tie_frame n fe fe' \<longleftrightarrow>
     (\<forall>i e. LSDB_Get (fe_lsdb fe) i = Some e \<and> Originator i = fe_systemID fe \<longrightarrow>
        (\<exists>e' m. LSDB_Get (fe_lsdb fe') i = Some e' \<and> m \<le> n \<and> entry_seq e' = entry_seq e + of_nat m)) \<and>
     (\<forall>k a. gm_get (fe_adjacencies fe) k = Some a \<longrightarrow>
        (\<exists>a'. gm_get (fe_adjacencies fe') k = Some a' \<and> set (afs_TIEsTX a) \<subseteq> set (afs_TIEsTX a')))"

lemma tie_frame_refl: "tie_frame n fe fe"
  unfolding tie_frame_def by (auto intro!: exI [of _ 0])

lemma tie_frame_trans:
  assumes "tie_frame m a b" and "tie_frame n b c" and "fe_systemID b = fe_systemID a"
  shows "tie_frame (m + n) a c"
  unfolding tie_frame_def
proof (intro conjI allI impI, goal_cases)
  case (1 i e)
  then obtain e' k where "LSDB_Get (fe_lsdb b) i = Some e'" "k \<le> m" "entry_seq e' = entry_seq e + of_nat k"
    using assms(1) unfolding tie_frame_def by blast
  moreover from this obtain e'' l where "LSDB_Get (fe_lsdb c) i = Some e''" "l \<le> n" "entry_seq e'' = entry_seq e' + of_nat l"
    using assms(2,3) 1 unfolding tie_frame_def by metis
  ultimately show ?case by (intro exI [of _ e''] exI [of _ "k + l"]) simp
next
  case (2 k x)
  then show ?case using assms(1,2) unfolding tie_frame_def by (meson subset_trans)
qed

lemma upd_adj_tie_frame:
  assumes "\<And>a. set (afs_TIEsTX a) \<subseteq> set (afs_TIEsTX (f a))"
  shows "tie_frame n fe (upd_adj k f fe)"
  unfolding tie_frame_def using assms by (auto simp: upd_adj_get intro!: exI [of _ 0])

lemma map_adj_tie_frame:
  assumes "\<And>k a. set (afs_TIEsTX a) \<subseteq> set (afs_TIEsTX (f k a))"
  shows "tie_frame n fe (fe\<lparr>fe_adjacencies := gm_map f (fe_adjacencies fe)\<rparr>)"
  unfolding tie_frame_def using assms by (auto simp: go_map_laws intro!: exI [of _ 0])

lemma queue_tie_frame:
  "tie_frame n fe (ackTIE k i fe)" "tie_frame n fe (enqueueTX k i fe)" "tie_frame n fe (floodTIEToAll i fe)"
  unfolding ackTIE_def enqueueTX_def floodTIEToAll_def
  by (rule upd_adj_tie_frame map_adj_tie_frame; auto)+

lemma bump_tie_frame:
  assumes "fe_ok fe" and "bumpOwnTIE i fe = Some fe'"
  shows "tie_frame 1 fe (floodTIEToAll j fe')"
proof -
  have "tie_frame 1 fe fe'"
  proof (cases "LSDB_Get (fe_lsdb fe) i")
    case (Some e)
    with assms fe_okD(5) [OF assms(1) Some]
    have "fe' = fe \<or> fe' = put_entry (bumped e (fe_clock fe)) fe \<and> entry_id (bumped e (fe_clock fe)) = i"
      by (auto simp: bumpOwnTIE_unlocked fe_okD(3) split: if_splits)
    then show ?thesis
    proof
      assume "fe' = put_entry (bumped e (fe_clock fe)) fe \<and> entry_id (bumped e (fe_clock fe)) = i"
      with Some show ?thesis
        unfolding tie_frame_def by (auto simp: put_entry_get put_entry_frame intro: exI [of _ 0] exI [of _ 1])
    qed (simp add: tie_frame_refl)
  qed (use assms in \<open>auto simp: bumpOwnTIE_unlocked fe_okD(3) tie_frame_refl\<close>)
  moreover have "fe_systemID fe' = fe_systemID fe"
    using flood_handler.keeps [OF bumpOwnTIE_handler assms] by (simp add: fe_le_def)
  ultimately have "tie_frame (1 + 0) fe (floodTIEToAll j fe')" using queue_tie_frame(3) tie_frame_trans by blast
  then show ?thesis by simp
qed

lemma handleTIE_frame:
  assumes "fe_ok fe" and "handleTIE k tie fe = Some fe'"
  shows "tie_frame 1 fe fe'"
proof -
  let ?i = "th_TIEID (tie_Header tie)"
  have install: "tie_frame 1 fe g" if "install_tie k tie fe = Some g" "Originator ?i \<noteq> fe_systemID fe" for g
  proof -
    obtain g' where "install_tie k tie fe = Some g'" "\<forall>i. LSDB_Get (fe_lsdb g') i =
         (if i = ?i then Some (rx_entry tie (fe_clock fe)) else LSDB_Get (fe_lsdb fe) i)"
      "\<forall>k'. gm_get (fe_adjacencies g') k' = map_option (after_install fe k ?i k') (gm_get (fe_adjacencies fe) k')"
      using install_tie_effect [OF assms(1)] by blast
    with that show ?thesis
      unfolding tie_frame_def by (auto simp: after_install_def intro: exI [of _ 0])
  qed
  have bump: "tie_frame 1 fe (floodTIEToAll ?i g)" if "bumpOwnTIE ?i fe = Some g" for g
    using bump_tie_frame [OF assms(1) that] .
  show ?thesis
    using assms(2) install bump queue_tie_frame tie_frame_refl
    by (auto simp: handleTIE_def Let_def split: option.splits if_splits Option.bind_splits)
qed

lemma sint_plus_nat:
  fixes w :: int64
  assumes "0 \<le> sint w" and "sint w + int m < 2 ^ 63"
  shows "sint (w + of_nat m) = sint w + int m"
proof -
  have "w + of_nat m = word_of_int (sint w + int m)" by simp
  moreover have "sint (word_of_int (sint w + int m) :: int64) = sint w + int m"
    using assms unfolding sint_sbintrunc' by (simp add: signed_take_bit_int_eq_self)
  ultimately show ?thesis by (simp only:)
qed

lemma deliver_TIEs_frame:
  assumes "fe_ok fe" and "\<forall>p \<in> set ps. \<exists>b adj tie lt. p = flood_packet b adj (zero_PacketContent\<lparr>pc_TIE := Some tie\<rparr>) lt"
    and "deliver k ps fe = Some fe'"
  shows "tie_frame (length ps) fe fe'"
  using assms
proof (induction ps arbitrary: fe)
  case Nil
  then show ?case by (simp add: deliver_def tie_frame_refl)
next
  case (Cons p ps)
  obtain b adj tie lt where p: "p = flood_packet b adj (zero_PacketContent\<lparr>pc_TIE := Some tie\<rparr>) lt"
    using Cons.prems(2) by auto
  obtain f1 where f1: "handleTIE k tie fe = Some f1" "fe_ok f1" "fe_le fe f1"
    using handleTIE.safe [OF Cons.prems(1)] by blast
  have "deliver k ps f1 = Some fe'" using Cons.prems(3) f1(1) by (simp add: deliver_def p)
  then have "tie_frame (length ps) f1 fe'" using Cons.IH [OF f1(2)] Cons.prems(2) by simp
  from tie_frame_trans [OF handleTIE_frame [OF Cons.prems(1) f1(1)] this] f1(3)
  show ?case by (simp add: fe_le_def)
qed

lemma handleTIRE_lsdb: "fe_lsdb (handleTIRE k tire fe) = fe_lsdb fe"
proof -
  have "fe_lsdb (tire_entry k h g) = fe_lsdb g" for h g
    by (auto simp: tire_entry_def Let_def enqueueTX_def dequeueTX_def split: option.split)
  then have "fe_lsdb (fold (tire_entry k) hs g) = fe_lsdb g" for hs g
    by (induction hs arbitrary: g) simp_all
  then show ?thesis by (simp add: handleTIRE_def split: option.split)
qed

lemma requests_queued:
  assumes ok: "fe_ok a" and adj: "gm_get (fe_adjacencies a) k = Some adjA"
    and run: "deliver k (adj_packets b adjB) a = Some a1" and i: "i \<in> set (afs_TIEsREQ adjB)"
    and e: "LSDB_Get (fe_lsdb a) i = Some e" "0 < sint (entry_seq e)" "sint (entry_seq e) + int n < 2 ^ 63"
    and n: "length (adj_packets b adjB) \<le> n"
  shows "\<exists>adjA1 e1. gm_get (fe_adjacencies a1) k = Some adjA1 \<and> afs_Info adjA1 = afs_Info adjA \<and>
    i \<in> set (afs_TIEsTX adjA1) \<and> LSDB_Get (fe_lsdb a1) i = Some e1 \<and> sle (entry_seq e) (entry_seq e1)"
proof -
  define acks where "acks = tire_packet b adjB (List.map_filter
    (\<lambda>i. map_option LSDBEntry_Header (LSDB_Get (fe_lsdb b) i)) (afs_TIEsACK adjB))"
  define reqs where "reqs = map (\<lambda>i. \<lparr>hl_Header = zero_TIEHeader\<lparr>th_TIEID := i\<rparr>, hl_RemainingLifetime = 0\<rparr>) (afs_TIEsREQ adjB)"
  define ties where "ties = List.map_filter (\<lambda>i. map_option (\<lambda>e. flood_packet b adjB
    (zero_PacketContent\<lparr>pc_TIE := Some (le_Packet e)\<rparr>) (le_RemainingLifetime e)) (LSDB_Get (fe_lsdb b) i)) (afs_TIEsTX adjB)"
  have packets: "adj_packets b adjB =
      acks @ flood_packet b adjB (zero_PacketContent\<lparr>pc_TIRE := Some \<lparr>tire_Headers = reqs\<rparr>\<rparr>) 0 # ties"
    using i by (auto simp: adj_packets_def acks_def reqs_def ties_def tire_packet_def)
  have ties: "\<forall>p \<in> set ties. \<exists>b adj tie lt. p = flood_packet b adj (zero_PacketContent\<lparr>pc_TIE := Some tie\<rparr>) lt"
    unfolding ties_def map_filter_def by (clarsimp, blast)
  obtain ax where ax: "deliver k acks a = Some ax" "fe_ok ax" "Adjacencies ax = Adjacencies a"
    using deliver_safe [OF ok] by blast
  have "fe_lsdb ax = fe_lsdb a \<and> fe_systemID ax = fe_systemID a"
    using ax(1) flood_handler.keeps [OF deliver_handler ok ax(1)]
    by (auto simp: acks_def tire_packet_def deliver_def handleTIRE_lsdb fe_le_def split: if_splits)
  then have lsdb: "fe_lsdb ax = fe_lsdb a" by simp
  obtain adjX where adjX: "gm_get (fe_adjacencies ax) k = Some adjX" using Adjacencies_adj [OF ax(3) adj] by blast
  let ?ay = "handleTIRE k \<lparr>tire_Headers = reqs\<rparr> ax"
  have "\<forall>h \<in> set reqs. hl_RemainingLifetime h = 0 \<and> th_SeqNr (hl_Header h) = 0"
    "i \<in> set (map (\<lambda>h. th_TIEID (hl_Header h)) reqs)"
    using i by (auto simp: reqs_def zero_TIEHeader_def image_image)
  then obtain adjY where adjY: "gm_get (fe_adjacencies ?ay) k = Some adjY" "i \<in> set (afs_TIEsTX adjY)"
    using request_answered(1) [OF adjX, of i e "\<lparr>tire_Headers = reqs\<rparr>"] e(1,2) lsdb by auto
  have oky: "fe_ok ?ay" using handleTIRE.safe [OF ax(2)] by simp
  have ry: "deliver k ties ?ay = Some a1"
    using run ax(1) by (simp add: packets deliver_append) (simp add: deliver_def)
  note frame = deliver_TIEs_frame [OF oky ties ry]
  have le: "fe_le ?ay a1" using flood_handler.keeps [OF deliver_handler oky ry] by blast
  have ey: "LSDB_Get (fe_lsdb ?ay) i = Some e" using e(1) by (simp add: handleTIRE_lsdb lsdb)
  have "\<exists>e1. LSDB_Get (fe_lsdb a1) i = Some e1 \<and> sle (entry_seq e) (entry_seq e1)"
  proof (cases "Originator i = fe_systemID ?ay")
    case True
    with frame ey obtain e1 m where e1: "LSDB_Get (fe_lsdb a1) i = Some e1" "m \<le> length ties"
      "entry_seq e1 = entry_seq e + of_nat m"
      unfolding tie_frame_def by blast
    have "m \<le> n" using e1(2) n by (simp add: packets)
    then have "sint (entry_seq e + of_nat m) = sint (entry_seq e) + int m"
      using e(2,3) by (intro sint_plus_nat) simp_all
    with e1 show ?thesis by simp
  next
    case False
    with le ey show ?thesis unfolding fe_le_def by blast
  qed
  moreover obtain adjZ where "gm_get (fe_adjacencies a1) k = Some adjZ" "i \<in> set (afs_TIEsTX adjZ)"
    using frame adjY unfolding tie_frame_def by blast
  moreover have "Adjacencies a1 = Adjacencies a" by (rule deliver_keeps [OF run])
  ultimately show ?thesis using Adjacencies_adj [of a1 a k adjA] adj by (metis option.inject)
qed

lemma CompareTIEHeader_le: "\<not> 0 < CompareTIEHeader x y \<Longrightarrow> sle (th_SeqNr (hl_Header x)) (th_SeqNr (hl_Header y))"
  by (auto simp: CompareTIEHeader_def cmp_alts Let_def sgn_if split: if_splits)

lemma handleTIE_newest:
  assumes ok: "fe_ok fe" and adj: "gm_get (fe_adjacencies fe) k = Some adj" and i: "i = th_TIEID (tie_Header tie)"
    and "Originator i \<noteq> fe_systemID fe"
    and "shouldAcceptTIE (fe_systemID fe) (fe_level fe) i (ai_NeighborLevel (afs_Info adj))"
  obtains fe' e' where "handleTIE k tie fe = Some fe'" and "fe_ok fe'" and "LSDB_Get (fe_lsdb fe') i = Some e'"
    and "sle (th_SeqNr (tie_Header tie)) (entry_seq e')"
proof -
  obtain g where g: "install_tie k tie fe = Some g" "LSDB_Get (fe_lsdb g) i = Some (rx_entry tie (fe_clock fe))"
    using install_tie_effect [OF ok] i by fastforce
  obtain fe' where fe': "handleTIE k tie fe = Some fe'" "fe_ok fe'" using handleTIE.safe [OF ok] by blast
  have "\<exists>e'. LSDB_Get (fe_lsdb fe') i = Some e' \<and> sle (th_SeqNr (tie_Header tie)) (entry_seq e')"
  proof (cases "LSDB_Get (fe_lsdb fe) i")
    case None
    with fe'(1) g assms show ?thesis by (simp add: handleTIE_def Let_def)
  next
    case (Some e)
    have "sle (th_SeqNr (tie_Header tie)) (entry_seq e)" if "\<not> 0 < CompareTIEHeader (rx_header tie) (LSDBEntry_Header e)"
      using CompareTIEHeader_le [OF that] by (simp add: rx_header_def LSDBEntry_Header_def)
    with Some fe'(1) g assms show ?thesis
      by (cases "0 < CompareTIEHeader (rx_header tie) (LSDBEntry_Header e)")
        (auto simp: handleTIE_def Let_def enqueueTX_def ackTIE_def split: if_splits)
  qed
  with fe' that show thesis by blast
qed

lemma answers_stored:
  assumes ok: "fe_ok b" and adj: "gm_get (fe_adjacencies b) k = Some adjB"
    and run: "deliver k (adj_packets a adjA) b = Some b'" and i: "i \<in> set (afs_TIEsTX adjA)"
    and e: "LSDB_Get (fe_lsdb a) i = Some e" "entry_id e = i"
    and "Originator i \<noteq> fe_systemID b"
    and "shouldAcceptTIE (fe_systemID b) (fe_level b) i (ai_NeighborLevel (afs_Info adjB))"
  shows "\<exists>e'. LSDB_Get (fe_lsdb b') i = Some e' \<and> sle (entry_seq e) (entry_seq e')"
proof -
  let ?p = "flood_packet a adjA (zero_PacketContent\<lparr>pc_TIE := Some (le_Packet e)\<rparr>) (le_RemainingLifetime e)"
  have "?p \<in> set (adj_packets a adjA)" using i e(1) by (force simp: adj_packets_def map_filter_def)
  then obtain xs ys where packets: "adj_packets a adjA = xs @ ?p # ys" by (auto dest: split_list)
  obtain bx where bx: "deliver k xs b = Some bx" "fe_ok bx" "fe_le b bx" "Adjacencies bx = Adjacencies b"
    using deliver_safe [OF ok] .
  obtain adjX where adjX: "gm_get (fe_adjacencies bx) k = Some adjX" "afs_Info adjX = afs_Info adjB"
    using Adjacencies_adj [OF bx(4) adj] .
  obtain b2 e2 where b2: "handleTIE k (le_Packet e) bx = Some b2" "fe_ok b2" "LSDB_Get (fe_lsdb b2) i = Some e2"
    "sle (entry_seq e) (entry_seq e2)"
    using handleTIE_newest [OF bx(2) adjX(1), of i "le_Packet e"] adjX(2) bx(3) e(2) assms(7,8)
    by (auto simp: fe_le_def)
  obtain b3 where b3: "deliver k ys b2 = Some b3" "fe_le b2 b3" using deliver_safe [OF b2(2)] by blast
  have "b' = b3" using run bx(1) b2(1) b3(1) by (simp add: packets deliver_append) (simp add: deliver_def)
  moreover have "fe_systemID b2 = fe_systemID b"
    using handleTIE.keeps [OF bx(2) b2(1)] bx(3) by (simp add: fe_le_def)
  ultimately show ?thesis using b2(3,4) b3(2) assms(7) unfolding fe_le_def by fastforce
qed

section \<open>The round\<close>

lemma clear_ok:
  assumes "fe_ok fe"
  shows "fe_ok (fe\<lparr>fe_FloodSendCh := []\<rparr>)" "fe_le fe (fe\<lparr>fe_FloodSendCh := []\<rparr>)"
    "fe_le (fe\<lparr>fe_FloodSendCh := []\<rparr>) fe"
  using assms by (auto simp: fe_ok_def fe_le_def)

lemma drain_sent_ok:
  assumes "fe_ok fe" and "drain_sent k fe = (ps, fe')"
  shows "fe_ok fe'" "fe_le fe fe'" "Adjacencies fe' = Adjacencies fe"
proof -
  let ?fe = "fe\<lparr>fe_FloodSendCh := []\<rparr>"
  have d: "fe_ok (drainQueues ?fe)" "fe_le ?fe (drainQueues ?fe)" using drainQueues.safe [OF clear_ok(1) [OF assms(1)]] by auto
  have fe': "fe' = drainQueues ?fe\<lparr>fe_FloodSendCh := []\<rparr>" using assms(2) by (simp add: drain_sent_def Let_def)
  show "fe_ok fe'" unfolding fe' by (rule clear_ok(1) [OF d(1)])
  show "fe_le fe fe'" unfolding fe' by (rule fe_le_trans [OF clear_ok(2) [OF assms(1)] fe_le_trans [OF d(2) clear_ok(2) [OF d(1)]]])
  show "Adjacencies fe' = Adjacencies fe" unfolding fe' by (simp add: drain_keeps adjacencies_frame)
qed

lemma drain_sent_len:
  assumes "fe_ok fe" and "drain_sent k fe = (ps, fe')"
  shows "length ps \<le> FloodSendCap"
proof -
  have "fe_ok (drainQueues (fe\<lparr>fe_FloodSendCh := []\<rparr>))" using drainQueues.safe [OF clear_ok(1) [OF assms(1)]] by auto
  then have "length (fe_FloodSendCh (drainQueues (fe\<lparr>fe_FloodSendCh := []\<rparr>))) \<le> FloodSendCap" by (simp add: fe_ok_def)
  moreover have "ps = filter (\<lambda>p. fp_InterfaceName p = k) (fe_FloodSendCh (drainQueues (fe\<lparr>fe_FloodSendCh := []\<rparr>)))"
    using assms(2) by (simp add: drain_sent_def Let_def)
  ultimately show ?thesis using length_filter_le le_trans by metis
qed

text \<open>
  C10 \<^bold>\<open>One TIDE round brings a neighbor up to date.\<close> Two engines with an adjacency between them, each knowing
  the other's level: the first sends its TIDE packets, the second handles them and drains, the first handles
  what that sends it and drains, and the second handles what that sends it. Every step returns, and if neither
  drain overflows the channel, the second then has every TIE of the first that is in its TIDE scope, that it
  accepts and did not originate, in a version at least as new - whatever both had before, whatever else is
  in their queues, and although the first may have changed its database on the way. Sequence numbers must be
  positive and not about to overflow, and the TIDE packets must fit the channel.
\<close>

theorem tide_round_synchronises:
  assumes ok: "fe_ok a" "fe_ok b" and named: "named_adjacencies a" "named_adjacencies b"
    and adjA: "gm_get (fe_adjacencies a) ia = Some adjA" "ai_NeighborLevel (afs_Info adjA) = fe_level b"
    and adjB: "gm_get (fe_adjacencies b) ib = Some adjB" "ai_NeighborLevel (afs_Info adjB) = fe_level a"
    and len: "LSDB_Len (fe_lsdb a) \<le> 6376"
  shows "\<exists>T a0 b1 P b2 a1 Q a2 b3.
    tides_sent ia a = Some (T, a0) \<and> deliver ib T b = Some b1 \<and> drain_sent ib b1 = (P, b2) \<and>
    deliver ia P a0 = Some a1 \<and> drain_sent ia a1 = (Q, a2) \<and> deliver ib Q b2 = Some b3 \<and>
    (length (drained_packets b1) \<le> FloodSendCap \<and> length (drained_packets a1) \<le> FloodSendCap \<longrightarrow>
      (\<forall>i e. LSDB_Get (fe_lsdb a) i = Some e \<and> ShouldIncludeInTIDE i (fe_systemID a) (fe_level a) (fe_level b) \<and>
         0 < sint (entry_seq e) \<and> sint (entry_seq e) + 256 < 2 ^ 63 \<and>
         Originator i \<noteq> fe_systemID b \<and> shouldAcceptTIE (fe_systemID b) (fe_level b) i (fe_level a) \<longrightarrow>
         (\<exists>e'. LSDB_Get (fe_lsdb b3) i = Some e' \<and> sle (entry_seq e) (entry_seq e'))))"
proof -
  let ?T = "tide_packets a adjA" and ?a0 = "a\<lparr>fe_FloodSendCh := []\<rparr>"
  have T: "tides_sent ia a = Some (?T, ?a0)" using tides_sent_eq [OF ok(1) named(1) adjA(1)] len by simp
  obtain b1 where b1: "deliver ib ?T b = Some b1" "fe_ok b1" "fe_le b b1" "Adjacencies b1 = Adjacencies b"
    using deliver_safe [OF ok(2)] .
  obtain P b2 where P: "drain_sent ib b1 = (P, b2)" by fastforce
  note b2 = drain_sent_ok [OF b1(2) P]
  obtain a1 where a1: "deliver ia P ?a0 = Some a1" "fe_ok a1" "fe_le ?a0 a1" "Adjacencies a1 = Adjacencies ?a0"
    using deliver_safe [OF clear_ok(1) [OF ok(1)]] .
  obtain Q a2 where Q: "drain_sent ia a1 = (Q, a2)" by fastforce
  obtain b3 where b3: "deliver ib Q b2 = Some b3" "fe_le b2 b3" using deliver_safe [OF b2(1)] by blast
  have id: "th_TIEID (hl_Header (LSDBEntry_Header e)) = i" if "LSDB_Get (fe_lsdb a) i = Some e" for i e
    using fe_okD(5) [OF ok(1) that] by (simp add: LSDBEntry_Header_def)
  have "\<exists>e'. LSDB_Get (fe_lsdb b3) i = Some e' \<and> sle (entry_seq e) (entry_seq e')"
    if room: "length (drained_packets b1) \<le> FloodSendCap" "length (drained_packets a1) \<le> FloodSendCap"
      and e: "LSDB_Get (fe_lsdb a) i = Some e" "ShouldIncludeInTIDE i (fe_systemID a) (fe_level a) (fe_level b)"
        "0 < sint (entry_seq e)" "sint (entry_seq e) + 256 < 2 ^ 63"
      and acc: "Originator i \<noteq> fe_systemID b" "shouldAcceptTIE (fe_systemID b) (fe_level b) i (fe_level a)" for i e
  proof (cases "wanted b (LSDBEntry_Header e) (ai_NeighborLevel (afs_Info adjB))")
    case False
    then obtain eb where "LSDB_Get (fe_lsdb b) i = Some eb" "\<not> 0 < CompareTIEHeader (LSDBEntry_Header e) (LSDBEntry_Header eb)"
      using acc id [OF e(1)] adjB(2) by (auto simp: wanted_def Let_def split: option.splits)
    moreover from CompareTIEHeader_le [OF this(2)] have "sle (entry_seq e) (entry_seq eb)"
      by (simp add: LSDBEntry_Header_def)
    moreover have "fe_le b b3" using fe_le_trans [OF b1(3) fe_le_trans [OF b2(2) b3(2)]] .
    ultimately show ?thesis using acc(1) unfolding fe_le_def by (meson order_trans)
  next
    case True
    obtain hs where "tide_headers (fe_level b) a = Some hs" "LSDBEntry_Header e \<in> set hs"
      using tide_headers_mem [OF e(1,2)] .
    moreover from this(2) obtain tide where "tide \<in> set (buildTIDEChunks hs)" "LSDBEntry_Header e \<in> set (tide_Headers tide)"
      by (rule listed_in_chunk)
    ultimately obtain adjB1 where B1: "gm_get (fe_adjacencies b1) ib = Some adjB1" "i \<in> set (afs_TIEsREQ adjB1)"
      using tides_request [OF ok(2) adjB(1) b1(1) [unfolded deliver_tides] _ _ True] adjA(2) id [OF e(1)] by auto
    have "named_adjacencies b1" using named(2) b1(4) by (simp add: named_adjacencies_def)
    from drain_sent_eq [OF b1(2) this B1(1) room(1)] P have P': "P = adj_packets b1 adjB1" by simp
    obtain adjA1 e1 where A1: "gm_get (fe_adjacencies a1) ia = Some adjA1" "i \<in> set (afs_TIEsTX adjA1)"
      "LSDB_Get (fe_lsdb a1) i = Some e1" "sle (entry_seq e) (entry_seq e1)"
      using requests_queued [OF clear_ok(1) [OF ok(1)] _ a1(1) [unfolded P'] B1(2), of adjA e 256] adjA(1) e(1,3,4)
        drain_sent_len [OF b1(2) P] by (auto simp: P')
    have "named_adjacencies a1" using named(1) a1(4) by (simp add: named_adjacencies_def adjacencies_frame)
    from drain_sent_eq [OF a1(2) this A1(1) room(2)] Q have Q': "Q = adj_packets a1 adjA1" by simp
    obtain adjB2 where B2: "gm_get (fe_adjacencies b2) ib = Some adjB2" "afs_Info adjB2 = afs_Info adjB"
      using Adjacencies_adj [of b2 b, OF _ adjB(1)] b2(3) b1(4) by auto
    have "fe_systemID b2 = fe_systemID b" "fe_level b2 = fe_level b" using b1(3) b2(2) by (simp_all add: fe_le_def)
    then show ?thesis
      using answers_stored [OF b2(1) B2(1) b3(1) [unfolded Q'] A1(2,3) fe_okD(5) [OF a1(2) A1(3)]] acc B2(2) adjB(2) A1(4)
      by (auto intro: order_trans)
  qed
  with T b1(1) P a1(1) Q b3(1) show ?thesis by blast
qed

end
