(* ===== verification/Tie_Examples.thy ===== *)
theory Tie_Examples
  imports Tie_Round
begin

text \<open>
  Concrete engines, and the theorems about the flood engine applied to them: a leaf (system 1,
  level 0) and a spine (system 2, level 1) with one adjacency between them.
\<close>

definition ex_tie :: "TIEID \<Rightarrow> TIEPacket" where
  "ex_tie i = \<lparr>tie_Header = \<lparr>th_TIEID = i, th_SeqNr = 5, th_OriginationTime = None,
      th_OriginationLifetime = Some 604800\<rparr>, tie_Element = zero_TIEElement\<rparr>"

definition ex_entry :: "TIEID \<Rightarrow> LifeTimeInSecType \<Rightarrow> bool \<Rightarrow> LSDBEntry" where
  "ex_entry i lt self =
     \<lparr>le_Packet = ex_tie i, le_RemainingLifetime = lt, le_LastReceived = 0, le_SelfOriginated = self\<rparr>"

definition ex_adj :: "SystemIDType \<Rightarrow> LevelType \<Rightarrow> adjFloodState" where
  "ex_adj nbr lvl = newAdjFloodState
     \<lparr>ai_InterfaceName = ''e1'', ai_NeighborID = nbr, ai_NeighborLevel = lvl, ai_NeighborAddr = Addr4 7,
      ai_FloodPort = 915, ai_LocalLinkID = 1, ai_NeighborLinkID = 2\<rparr>"

text \<open>The North Node TIE of the leaf, in both databases with different lifetimes.\<close>

abbreviation ex_id :: TIEID where "ex_id \<equiv> TIEID TieDirectionNorth 1 TIETypeNodeTIEType 1"

definition ex_leaf :: FloodEngine where
  "ex_leaf = (NewFloodEngine 1 0 ''leaf'' [] 10)
     \<lparr>fe_lsdb := \<lparr>db_rlocks = 0, db_entries = [(ex_id, ex_entry ex_id 3600 True)]\<rparr>,
      fe_adjacencies := [(''e1'', ex_adj 2 1)]\<rparr>"

definition ex_spine :: FloodEngine where
  "ex_spine = (NewFloodEngine 2 1 ''spine'' [] 10)\<lparr>fe_adjacencies := [(''e1'', ex_adj 1 0)]\<rparr>"

definition ex_spine2 :: FloodEngine where
  "ex_spine2 = ex_spine\<lparr>fe_lsdb := \<lparr>db_rlocks = 0, db_entries = [(ex_id, ex_entry ex_id 5000 False)]\<rparr>\<rparr>"

lemmas ex_defs = ex_tie_def ex_entry_def ex_adj_def ex_leaf_def ex_spine_def ex_spine2_def
  newAdjFloodState_def NewFloodEngine_def NewLSDB_def LSDB_Get_def gm_get_def

lemma ex_ok: "fe_ok ex_leaf" "fe_ok ex_spine" "fe_ok ex_spine2"
  by (simp_all add: fe_ok_def db_ok_def gm_wf_def adj_ok_def ex_defs)

lemma ex_gets:
  "LSDB_Get (fe_lsdb ex_leaf) ex_id = Some (ex_entry ex_id 3600 True)"
  "LSDB_Get (fe_lsdb ex_spine) ex_id = None"
  "LSDB_Get (fe_lsdb ex_spine2) ex_id = Some (ex_entry ex_id 5000 False)"
  "gm_get (fe_adjacencies ex_leaf) ''e1'' = Some (ex_adj 2 1)"
  "gm_get (fe_adjacencies ex_spine) ''e1'' = Some (ex_adj 1 0)"
  "gm_get (fe_adjacencies ex_spine2) ''e1'' = Some (ex_adj 1 0)"
  "fe_systemID ex_leaf = 1" "fe_level ex_leaf = 0" "fe_systemID ex_spine = 2" "fe_level ex_spine = 1"
  "fe_systemID ex_spine2 = 2" "fe_level ex_spine2 = 1"
  "ai_NeighborLevel (afs_Info (ex_adj n l)) = l"
  by (simp_all add: ex_defs)

theorem flood_reachable_serves_witness:
  "\<exists>fe'. serve TIDETickEv (NewFloodEngine 1 0 ''leaf'' [] 10) = Some fe' \<and>
     flood_reachable (NewFloodEngine 1 0 ''leaf'' [] 10) fe'"
  using flood_reachable_serves [OF flood_init [of 1 0 "''leaf''" "[]" 10], of TIDETickEv] by simp

theorem serve_monotone_witness:
  "\<exists>fe' e'. serve TXTickEv ex_spine2 = Some fe' \<and> LSDB_Get (fe_lsdb fe') ex_id = Some e' \<and>
     sle 5 (entry_seq e')"
  using serve_monotone [OF ex_ok(3) _ ex_gets(3), of TXTickEv]
  by (simp add: ex_gets) (simp add: ex_entry_def ex_tie_def)

theorem tickLifetimes_blocks_iff_witness: "tickLifetimes ex_leaf = None"
  by (subst tickLifetimes_blocks_iff [OF ex_ok(1)])
    (intro exI [of _ ex_id] exI [of _ "ex_entry ex_id 3600 True"], simp add: ex_gets, simp add: ex_entry_def)

theorem ticks_block_witness: "ticks 1 ex_leaf = None"
  using ticks_block [OF ex_ok(1) ex_gets(1)] by (simp add: ex_gets) (simp add: ex_entry_def)

theorem tide_headers_exact_witness:
  "\<exists>hs. tide_headers 1 ex_leaf = Some hs \<and> LSDBEntry_Header (ex_entry ex_id 3600 True) \<in> set hs"
proof -
  have "ShouldIncludeInTIDE ex_id 1 0 1" by (simp add: scope_defs)
  then show ?thesis using tide_headers_exact [OF ex_ok(1), of 1] ex_gets(1,7,8) by auto
qed

theorem handleTIE_installs_witness:
  "\<exists>fe'. handleTIE ''e1'' (ex_tie ex_id) ex_spine = Some fe' \<and>
     LSDB_Get (fe_lsdb fe') ex_id = Some (rx_entry (ex_tie ex_id) (fe_clock ex_spine))"
proof -
  have "th_TIEID (tie_Header (ex_tie ex_id)) = ex_id" by (simp add: ex_tie_def)
  then show ?thesis
    using handleTIE_installs [OF ex_ok(2) ex_gets(5), of "ex_tie ex_id"]
    by (auto simp: ex_gets scope_defs)
qed

theorem handleTIDE_exact_witness:
  "\<exists>fe' adj'. handleTIDE ''e1'' \<lparr>tide_StartRange = MinTIEID, tide_EndRange = MaxTIEID,
       tide_Headers = [LSDBEntry_Header (ex_entry ex_id 3600 True)]\<rparr> ex_spine = Some fe' \<and>
     gm_get (fe_adjacencies fe') ''e1'' = Some adj' \<and> ex_id \<in> set (afs_TIEsREQ adj')"
proof -
  let ?h = "LSDBEntry_Header (ex_entry ex_id 3600 True)"
  have "th_TIEID (hl_Header ?h) = ex_id" by (simp add: LSDBEntry_Header_def ex_entry_def ex_tie_def)
  then show ?thesis
    using handleTIDE_exact [OF ex_gets(5), of "\<lparr>tide_StartRange = MinTIEID, tide_EndRange = MaxTIEID,
        tide_Headers = [?h]\<rparr>"]
    by (simp add: ex_gets Let_def) (simp add: shouldAcceptTIE_def, blast)
qed

text \<open>The leaf with its TIE and a request queued.\<close>

definition ex_queued :: FloodEngine where
  "ex_queued = enqueueREQ ''e1'' (TIEID TieDirectionSouth 2 TIETypeNodeTIEType 1) (enqueueTX ''e1'' ex_id ex_leaf)"

lemma ex_queued_simps:
  "ex_queued = ex_leaf\<lparr>fe_adjacencies := [(''e1'', (ex_adj 2 1)
     \<lparr>afs_TIEsTX := [ex_id], afs_TIEsREQ := [TIEID TieDirectionSouth 2 TIETypeNodeTIEType 1]\<rparr>)]\<rparr>"
  by code_simp

theorem drainQueues_exact_witness:
  "fe_adjacencies (drainQueues ex_queued) = [(''e1'', ex_adj 2 1)] \<and> length (fe_FloodSendCh (drainQueues ex_queued)) = 2"
proof -
  have ok: "fe_ok ex_queued"
    by (simp add: ex_queued_simps fe_ok_def db_ok_def gm_wf_def adj_ok_def) (simp add: ex_defs)
  have "length (fe_FloodSendCh ex_queued @ drained_packets ex_queued) = 2" by code_simp
  then show ?thesis
    by (simp add: drainQueues_exact [OF ok]) (simp add: ex_queued_simps gm_map_def ex_defs)
qed

text \<open>The round between the leaf and the spine.\<close>

lemma ex_named: "named_adjacencies ex_leaf" "named_adjacencies ex_spine"
  by (simp_all add: named_adjacencies_def Adjacencies_get ex_gets) (simp_all add: ex_defs)

lemma ex_tides: "tides_sent ''e1'' ex_leaf = Some (tide_packets ex_leaf (ex_adj 2 1), ex_leaf)"
  by (subst tides_sent_eq [OF ex_ok(1) ex_named(1) ex_gets(4)]) (simp_all add: ex_defs LSDB_Len_def)

lemma ex_room:
  "map_option (\<lambda>b1. length (drained_packets b1)) (deliver ''e1'' (tide_packets ex_leaf (ex_adj 2 1)) ex_spine) = Some 1"
  "Option.bind (deliver ''e1'' (tide_packets ex_leaf (ex_adj 2 1)) ex_spine) (\<lambda>b1.
     map_option (\<lambda>a1. length (drained_packets a1)) (deliver ''e1'' (fst (drain_sent ''e1'' b1)) ex_leaf)) = Some 1"
  by code_simp+

theorem tide_round_synchronises_witness:
  "\<exists>T a0 b1 P b2 a1 Q a2 b3 e'. tides_sent ''e1'' ex_leaf = Some (T, a0) \<and>
     deliver ''e1'' T ex_spine = Some b1 \<and> drain_sent ''e1'' b1 = (P, b2) \<and>
     deliver ''e1'' P a0 = Some a1 \<and> drain_sent ''e1'' a1 = (Q, a2) \<and> deliver ''e1'' Q b2 = Some b3 \<and>
     LSDB_Get (fe_lsdb b3) ex_id = Some e' \<and> sle 5 (entry_seq e')"
proof -
  have seq: "entry_seq (ex_entry ex_id 3600 True) = 5" by (simp add: ex_entry_def ex_tie_def)
  have scope: "ShouldIncludeInTIDE ex_id 1 0 1" "shouldAcceptTIE 2 1 ex_id 0" by (simp_all add: scope_defs)
  have len: "LSDB_Len (fe_lsdb ex_leaf) \<le> 6376" by (simp add: ex_defs LSDB_Len_def)
  obtain T a0 b1 P b2 a1 Q a2 b3 where run: "tides_sent ''e1'' ex_leaf = Some (T, a0)"
     "deliver ''e1'' T ex_spine = Some b1" "drain_sent ''e1'' b1 = (P, b2)"
     "deliver ''e1'' P a0 = Some a1" "drain_sent ''e1'' a1 = (Q, a2)" "deliver ''e1'' Q b2 = Some b3"
    and sync: "length (drained_packets b1) \<le> FloodSendCap \<and> length (drained_packets a1) \<le> FloodSendCap \<longrightarrow>
      (\<forall>i e. LSDB_Get (fe_lsdb ex_leaf) i = Some e \<and> ShouldIncludeInTIDE i 1 0 1 \<and>
         0 < sint (entry_seq e) \<and> sint (entry_seq e) + 256 < 2 ^ 63 \<and>
         Originator i \<noteq> 2 \<and> shouldAcceptTIE 2 1 i 0 \<longrightarrow>
         (\<exists>e'. LSDB_Get (fe_lsdb b3) i = Some e' \<and> sle (entry_seq e) (entry_seq e')))"
    using tide_round_synchronises [OF ex_ok(1,2) ex_named ex_gets(4) _ ex_gets(5) _ len] unfolding ex_gets by blast
  have "length (drained_packets b1) = 1" "length (drained_packets a1) = 1"
    using ex_room run by (simp_all add: ex_tides)
  with sync ex_gets(1) scope seq have "\<exists>e'. LSDB_Get (fe_lsdb b3) ex_id = Some e' \<and> sle 5 (entry_seq e')"
    by fastforce
  with run show ?thesis by blast
qed

theorem handleTIE_restarts_lifetime_witness:
  "\<exists>fe' e'. handleTIE ''e1'' (ex_tie ex_id) ex_spine2 = Some fe' \<and>
     LSDB_Get (fe_lsdb fe') ex_id = Some e' \<and> le_RemainingLifetime e' = 604800"
  using handleTIE_restarts_lifetime [OF ex_ok(3) ex_gets(6,3), of 604800]
  by (simp add: ex_gets) (auto simp: ex_entry_def ex_tie_def)

end
