(* ===== verification/Lie_FSM.thy ===== *)
theory Lie_FSM
  imports Rift_Types
begin

text \<open>
  The LIE state machine of one interface, \<open>src/internal/lie/fsm.go\<close> (and the two calls its
  goroutine in \<open>interface.go\<close> makes: \<open>Tick\<close> and \<open>HandlePacket\<close>).

  The FSM is one record. Its transport is represented by the local link identifier it returns and
  by the list of the LIEs sent; the channel to the agent by the list of the events put on it. The
  clock is a field in nanoseconds, \<open>None\<close> is the zero \<open>time.Time\<close>; one call of \<open>Tick\<close> or
  \<open>HandlePacket\<close> sees one clock value. The queue of events is processed in \<open>drainQueue\<close>, whose
  termination is shown by weighing the events.
\<close>

section \<open>States, events, the machine\<close>

datatype State = OneWay | TwoWay | ThreeWay | MultipleNeighborsWait

datatype Event =
    EventTimerTick
  | EventLieRcvd
  | EventNewNeighbor
  | EventValidReflection
  | EventNeighborDroppedReflection
  | EventNeighborChangedLevel
  | EventNeighborChangedAddress
  | EventUnacceptableHeader
  | EventMTUMismatch
  | EventHoldtimeExpired
  | EventMultipleNeighbors
  | EventMultipleNeighborsDone
  | EventSendLie
  | EventLevelChanged
  | EventNeighborChangedMinorFields
  | EventFloodLeadersChanged
  | EventUpdateZTPOffer

record NeighborState =
  ns_SystemID :: SystemIDType
  ns_Level :: LevelType
  ns_LinkID :: LinkIDType
  ns_Address :: Addr
  ns_Name :: string
  ns_FloodPort :: UDPPortType
  ns_Holdtime :: TimeIntervalInSecType

record AdjacencyEvent =
  ae_InterfaceName :: string
  ae_State :: State
  ae_Neighbor :: "NeighborState option"

record FSM =
  fsm_state :: State
  fsm_neighbor :: "NeighborState option"
  fsm_eventQueue :: "Event list"
  fsm_systemID :: SystemIDType
  fsm_level :: LevelType
  fsm_ifName :: string
  fsm_nodeName :: string
  fsm_localID :: LinkIDType
  fsm_sent :: "ProtocolPacket list"
  fsm_now :: int
  fsm_lastLIERcvd :: "int option"
  fsm_neighborHoldtime :: int
  fsm_multipleNeighborsDeadline :: "int option"
  fsm_stateChangeCh :: "AdjacencyEvent list"
  fsm_pendingLIE :: "LIEPacket option"
  fsm_pendingHeader :: "PacketHeader option"
  fsm_pendingSrc :: Addr

definition NewFSM :: "SystemIDType \<Rightarrow> LevelType \<Rightarrow> string \<Rightarrow> string \<Rightarrow> LinkIDType \<Rightarrow> int \<Rightarrow> FSM" where
  "NewFSM systemID level nodeName ifName localID now =
     \<lparr>fsm_state = OneWay, fsm_neighbor = None, fsm_eventQueue = [], fsm_systemID = systemID,
      fsm_level = level, fsm_ifName = ifName, fsm_nodeName = nodeName, fsm_localID = localID,
      fsm_sent = [], fsm_now = now, fsm_lastLIERcvd = None, fsm_neighborHoldtime = 0,
      fsm_multipleNeighborsDeadline = None, fsm_stateChangeCh = [], fsm_pendingLIE = None,
      fsm_pendingHeader = None, fsm_pendingSrc = ZeroAddr\<rparr>"

abbreviation (input) Second :: int where "Second \<equiv> 1000000000"

section \<open>Procedures\<close>

definition pushEv :: "Event \<Rightarrow> FSM \<Rightarrow> FSM" where
  "pushEv ev f = f\<lparr>fsm_eventQueue := fsm_eventQueue f @ [ev]\<rparr>"

definition cleanup :: "FSM \<Rightarrow> FSM" where
  "cleanup f = f\<lparr>fsm_neighbor := None, fsm_lastLIERcvd := None, fsm_neighborHoldtime := 0\<rparr>"

definition enterState :: "State \<Rightarrow> FSM \<Rightarrow> FSM" where
  "enterState newState f =
     (let f = f\<lparr>fsm_state := newState\<rparr>;
          f = (if newState = OneWay then cleanup f else f)
      in f\<lparr>fsm_stateChangeCh := fsm_stateChangeCh f @
           [\<lparr>ae_InterfaceName = fsm_ifName f, ae_State = newState, ae_Neighbor = fsm_neighbor f\<rparr>]\<rparr>)"

definition levelAcceptable :: "LevelType \<Rightarrow> LevelType \<Rightarrow> bool" where
  "levelAcceptable level remoteLevel =
     (if level = LeafLevel then True
      else if remoteLevel = LeafLevel then True
      else \<bar>sint level - sint remoteLevel\<bar> \<le> 1)"

definition sendLIE :: "FSM \<Rightarrow> FSM" where
  "sendLIE f =
     (let lie = zero_LIEPacket
            \<lparr>lie_Name := fsm_nodeName f, lie_LocalID := fsm_localID f,
             lie_FloodPort := DefaultTIEUDPFloodPort, lie_Holdtime := DefaultLIEHoldtime,
             lie_NodeCapabilities := zero_NodeCapabilities\<lparr>nc_ProtocolMinorVersion := ProtocolMinorVersion\<rparr>,
             lie_Neighbor := map_option
               (\<lambda>n. \<lparr>nb_Originator = ns_SystemID n, nb_RemoteID = ns_LinkID n\<rparr>) (fsm_neighbor f)\<rparr>;
          pkt = \<lparr>pp_Header = \<lparr>ph_MajorVersion = ProtocolMajorVersion, ph_MinorVersion = ProtocolMinorVersion,
                   ph_Sender = fsm_systemID f, ph_Level = Some (fsm_level f)\<rparr>,
                 pp_Content = zero_PacketContent\<lparr>pc_LIE := Some lie\<rparr>\<rparr>
      in f\<lparr>fsm_sent := fsm_sent f @ [pkt]\<rparr>)"

definition checkHoldtime :: "FSM \<Rightarrow> FSM" where
  "checkHoldtime f =
     (case fsm_lastLIERcvd f of
        None \<Rightarrow> f
      | Some lastRcvd \<Rightarrow>
          if fsm_neighborHoldtime f = 0 then f
          else if fsm_now f - lastRcvd > fsm_neighborHoldtime f then pushEv EventHoldtimeExpired f
          else f)"

definition startMultipleNeighborsTimer :: "FSM \<Rightarrow> FSM" where
  "startMultipleNeighborsTimer f =
     f\<lparr>fsm_multipleNeighborsDeadline := Some (fsm_now f +
        sint MultipleNeighborsLIEHoldtimeMultiplier * sint DefaultLIEHoldtime * Second)\<rparr>"

definition checkThreeWay :: "LIEPacket \<Rightarrow> FSM \<Rightarrow> FSM" where
  "checkThreeWay lie f =
     (if fsm_state f = OneWay then f
      else case lie_Neighbor lie of
        None \<Rightarrow> if fsm_state f = ThreeWay then pushEv EventNeighborDroppedReflection f else f
      | Some n \<Rightarrow>
          if nb_Originator n = fsm_systemID f \<and> nb_RemoteID n = fsm_localID f
          then pushEv EventValidReflection f
          else pushEv EventMultipleNeighbors f)"

text \<open>Step 4 of \<open>processLIE\<close>: tracking the neighbor, for a LIE that passed the checks.\<close>

definition trackNeighbor :: "PacketHeader \<Rightarrow> LIEPacket \<Rightarrow> Addr \<Rightarrow> LevelType \<Rightarrow> FSM \<Rightarrow> FSM" where
  "trackNeighbor header lie srcAddr remoteLevel f =
     (let f = pushEv EventUpdateZTPOffer f;
          f = f\<lparr>fsm_lastLIERcvd := Some (fsm_now f),
                fsm_neighborHoldtime := sint (lie_Holdtime lie) * Second\<rparr>
      in case fsm_neighbor f of
           None \<Rightarrow>
             checkThreeWay lie (pushEv EventNewNeighbor (f\<lparr>fsm_neighbor := Some
               \<lparr>ns_SystemID = ph_Sender header, ns_Level = remoteLevel, ns_LinkID = lie_LocalID lie,
                ns_Address = srcAddr, ns_Name = lie_Name lie, ns_FloodPort = lie_FloodPort lie,
                ns_Holdtime = lie_Holdtime lie\<rparr>\<rparr>))
         | Some n \<Rightarrow>
             if ns_SystemID n \<noteq> ph_Sender header then pushEv EventMultipleNeighbors f
             else if ns_Level n \<noteq> remoteLevel then pushEv EventNeighborChangedLevel f
             else if ns_Address n \<noteq> srcAddr then pushEv EventNeighborChangedAddress f
             else
               let (n, f) =
                     (if ns_FloodPort n \<noteq> lie_FloodPort lie \<or> ns_Name n \<noteq> lie_Name lie \<or>
                         ns_LinkID n \<noteq> lie_LocalID lie
                      then (n\<lparr>ns_FloodPort := lie_FloodPort lie, ns_Name := lie_Name lie,
                              ns_LinkID := lie_LocalID lie\<rparr>,
                            pushEv EventNeighborChangedMinorFields f)
                      else (n, f));
                   f = f\<lparr>fsm_neighbor := Some (n\<lparr>ns_Holdtime := lie_Holdtime lie\<rparr>)\<rparr>
               in checkThreeWay lie f)"

definition processLIE :: "FSM \<Rightarrow> FSM" where
  "processLIE f =
     (case (fsm_pendingHeader f, fsm_pendingLIE f) of
        (Some header, Some lie) \<Rightarrow>
          if ph_MajorVersion header \<noteq> ProtocolMajorVersion then cleanup f
          else if ph_Sender header = fsm_systemID f then cleanup f
          else if ph_Sender header = IllegalSystemID then cleanup f
          else if DefaultMTUSize \<noteq> (case lie_LinkMTUSize lie of None \<Rightarrow> DefaultMTUSize | Some m \<Rightarrow> m)
          then pushEv EventMTUMismatch (pushEv EventUpdateZTPOffer (cleanup f))
          else (case ph_Level header of
              None \<Rightarrow> pushEv EventUnacceptableHeader (pushEv EventUpdateZTPOffer (cleanup f))
            | Some remoteLevel \<Rightarrow>
                if \<not> levelAcceptable (fsm_level f) remoteLevel
                then pushEv EventUnacceptableHeader (pushEv EventUpdateZTPOffer (cleanup f))
                else trackNeighbor header lie (fsm_pendingSrc f) remoteLevel f)
      | _ \<Rightarrow> f)"

section \<open>The transition tables\<close>

fun processOneWay :: "Event \<Rightarrow> FSM \<Rightarrow> FSM" where
  "processOneWay EventTimerTick f = pushEv EventSendLie f"
| "processOneWay EventLieRcvd f = processLIE f"
| "processOneWay EventNewNeighbor f = enterState TwoWay (pushEv EventSendLie f)"
| "processOneWay EventValidReflection f = enterState ThreeWay f"
| "processOneWay EventMultipleNeighbors f =
     enterState MultipleNeighborsWait (startMultipleNeighborsTimer f)"
| "processOneWay EventSendLie f = sendLIE f"
| "processOneWay EventLevelChanged f = pushEv EventSendLie f"
| "processOneWay _ f = f"

fun processTwoWay :: "Event \<Rightarrow> FSM \<Rightarrow> FSM" where
  "processTwoWay EventTimerTick f = checkHoldtime (pushEv EventSendLie f)"
| "processTwoWay EventLieRcvd f = processLIE f"
| "processTwoWay EventNewNeighbor f =
     enterState MultipleNeighborsWait (startMultipleNeighborsTimer (pushEv EventSendLie f))"
| "processTwoWay EventValidReflection f = enterState ThreeWay f"
| "processTwoWay EventNeighborChangedLevel f = enterState OneWay f"
| "processTwoWay EventNeighborChangedAddress f = enterState OneWay f"
| "processTwoWay EventUnacceptableHeader f = enterState OneWay f"
| "processTwoWay EventMTUMismatch f = enterState OneWay f"
| "processTwoWay EventHoldtimeExpired f = enterState OneWay f"
| "processTwoWay EventMultipleNeighbors f =
     enterState MultipleNeighborsWait (startMultipleNeighborsTimer f)"
| "processTwoWay EventSendLie f = sendLIE f"
| "processTwoWay EventLevelChanged f = enterState OneWay f"
| "processTwoWay _ f = f"

fun processThreeWay :: "Event \<Rightarrow> FSM \<Rightarrow> FSM" where
  "processThreeWay EventTimerTick f = checkHoldtime (pushEv EventSendLie f)"
| "processThreeWay EventLieRcvd f = processLIE f"
| "processThreeWay EventNeighborDroppedReflection f = enterState TwoWay f"
| "processThreeWay EventNeighborChangedLevel f = enterState OneWay f"
| "processThreeWay EventNeighborChangedAddress f = enterState OneWay f"
| "processThreeWay EventUnacceptableHeader f = enterState OneWay f"
| "processThreeWay EventMTUMismatch f = enterState OneWay f"
| "processThreeWay EventHoldtimeExpired f = enterState OneWay f"
| "processThreeWay EventLevelChanged f = enterState OneWay f"
| "processThreeWay EventMultipleNeighbors f =
     enterState MultipleNeighborsWait (startMultipleNeighborsTimer f)"
| "processThreeWay EventFloodLeadersChanged f = pushEv EventSendLie f"
| "processThreeWay EventSendLie f = sendLIE f"
| "processThreeWay EventNewNeighbor f =
     enterState MultipleNeighborsWait (startMultipleNeighborsTimer f)"
| "processThreeWay _ f = f"

fun processMultipleNeighborsWait :: "Event \<Rightarrow> FSM \<Rightarrow> FSM" where
  "processMultipleNeighborsWait EventTimerTick f =
     (case fsm_multipleNeighborsDeadline f of
        None \<Rightarrow> f
      | Some deadline \<Rightarrow> if fsm_now f > deadline then pushEv EventMultipleNeighborsDone f else f)"
| "processMultipleNeighborsWait EventMultipleNeighborsDone f = enterState OneWay f"
| "processMultipleNeighborsWait EventLevelChanged f = enterState OneWay f"
| "processMultipleNeighborsWait EventMultipleNeighbors f = startMultipleNeighborsTimer f"
| "processMultipleNeighborsWait _ f = f"

definition processEvent :: "Event \<Rightarrow> FSM \<Rightarrow> FSM" where
  "processEvent ev f =
     (case fsm_state f of
        OneWay \<Rightarrow> processOneWay ev f
      | TwoWay \<Rightarrow> processTwoWay ev f
      | ThreeWay \<Rightarrow> processThreeWay ev f
      | MultipleNeighborsWait \<Rightarrow> processMultipleNeighborsWait ev f)"

section \<open>The event queue\<close>

text \<open>An event weighs more than the events its handling can push.\<close>

fun weight :: "Event \<Rightarrow> nat" where
  "weight EventLieRcvd = 5"
| "weight EventTimerTick = 3"
| "weight EventNewNeighbor = 2"
| "weight EventFloodLeadersChanged = 2"
| "weight EventLevelChanged = 2"
| "weight _ = 1"

definition queue_weight :: "FSM \<Rightarrow> nat" where
  "queue_weight f = sum_list (map weight (fsm_eventQueue f))"

lemma queue_weight_simps [simp]:
  "queue_weight (pushEv ev f) = queue_weight f + weight ev"
  "queue_weight (cleanup f) = queue_weight f"
  "queue_weight (enterState st f) = queue_weight f"
  "queue_weight (sendLIE f) = queue_weight f"
  "queue_weight (startMultipleNeighborsTimer f) = queue_weight f"
  by (simp_all add: queue_weight_def pushEv_def cleanup_def enterState_def sendLIE_def
      startMultipleNeighborsTimer_def Let_def)

lemma queue_weight_upd [simp]:
  "queue_weight (f\<lparr>fsm_neighbor := n\<rparr>) = queue_weight f"
  "queue_weight (f\<lparr>fsm_lastLIERcvd := l, fsm_neighborHoldtime := h\<rparr>) = queue_weight f"
  by (simp_all add: queue_weight_def)

lemma checkThreeWay_weight: "queue_weight (checkThreeWay lie f) \<le> queue_weight f + 1"
  by (auto simp: checkThreeWay_def split: option.split)

lemma processLIE_weight: "queue_weight (processLIE f) \<le> queue_weight f + 4"
proof -
  have "queue_weight (trackNeighbor h l a r f) \<le> queue_weight f + 4" for h l a r
    unfolding trackNeighbor_def Let_def
    by (auto split: option.split intro!: order_trans [OF checkThreeWay_weight])
  then show ?thesis
    by (auto simp: processLIE_def split: option.split)
qed

lemma processEvent_weight: "queue_weight (processEvent ev f) < queue_weight f + weight ev"
  using processLIE_weight [of f]
  by (cases ev) (auto simp: processEvent_def checkHoldtime_def split: State.split option.split)

text \<open>\<open>for len(f.eventQueue) > 0 { ... }\<close>\<close>

function drainQueue :: "FSM \<Rightarrow> FSM" where
  "drainQueue f =
     (case fsm_eventQueue f of
        [] \<Rightarrow> f
      | ev # evs \<Rightarrow> drainQueue (processEvent ev (f\<lparr>fsm_eventQueue := evs\<rparr>)))"
  by pat_completeness auto
termination
proof (relation "measure queue_weight")
  fix f :: FSM and ev evs
  assume "fsm_eventQueue f = ev # evs"
  then have "queue_weight f = queue_weight (f\<lparr>fsm_eventQueue := evs\<rparr>) + weight ev"
    by (simp add: queue_weight_def)
  then show "(processEvent ev (f\<lparr>fsm_eventQueue := evs\<rparr>), f) \<in> measure queue_weight"
    using processEvent_weight [of ev "f\<lparr>fsm_eventQueue := evs\<rparr>"] by simp
qed simp

declare drainQueue.simps [simp del]

section \<open>The calls of the interface goroutine\<close>

definition HandlePacket :: "ProtocolPacket \<Rightarrow> Addr \<Rightarrow> FSM \<Rightarrow> FSM" where
  "HandlePacket pkt srcAddr f =
     (case pc_LIE (pp_Content pkt) of
        None \<Rightarrow> f
      | Some lie \<Rightarrow>
          drainQueue (pushEv EventLieRcvd
            (f\<lparr>fsm_pendingLIE := Some lie, fsm_pendingHeader := Some (pp_Header pkt),
               fsm_pendingSrc := srcAddr\<rparr>)))"

definition Tick :: "FSM \<Rightarrow> FSM" where
  "Tick f = drainQueue (pushEv EventTimerTick f)"

end
