(* ===== verification/Lie_Props.thy ===== *)
theory Lie_Props
  imports Lie_FSM
begin

text \<open>
  What the LIE state machine does. The queue-driven machine refines a specification without a
  queue (\<open>handle_spec\<close>, \<open>tick_spec\<close>), which says in one step what a received LIE or a tick of the
  clock leads to; the properties of the adjacency are read off it.
\<close>

section \<open>Draining\<close>

lemma drain_Nil [simp]: "fsm_eventQueue f = [] \<Longrightarrow> drainQueue f = f"
  by (simp add: drainQueue.simps)

lemma drain_ev:
  "fsm_eventQueue f = ev # evs \<Longrightarrow> drainQueue f = drainQueue (processEvent ev (f\<lparr>fsm_eventQueue := evs\<rparr>))"
  by (subst drainQueue.simps) simp

text \<open>Between two calls the queue is empty, and a machine in \<open>OneWay\<close> has no neighbor.\<close>

definition fsm_stable :: "FSM \<Rightarrow> bool" where
  "fsm_stable f \<longleftrightarrow> fsm_eventQueue f = [] \<and> (fsm_state f = OneWay \<longrightarrow> fsm_neighbor f = None)"

section \<open>The specification\<close>

definition with_pending :: "ProtocolPacket \<Rightarrow> LIEPacket \<Rightarrow> Addr \<Rightarrow> FSM \<Rightarrow> FSM" where
  "with_pending pkt lie src f =
     f\<lparr>fsm_pendingLIE := Some lie, fsm_pendingHeader := Some (pp_Header pkt), fsm_pendingSrc := src\<rparr>"

definition foreign_header :: "PacketHeader \<Rightarrow> FSM \<Rightarrow> bool" where
  "foreign_header h f \<longleftrightarrow> ph_MajorVersion h = ProtocolMajorVersion \<and> ph_Sender h \<noteq> fsm_systemID f \<and>
     ph_Sender h \<noteq> IllegalSystemID"

text \<open>The level of a sender whose MTU and level are acceptable.\<close>

definition acceptable_level :: "PacketHeader \<Rightarrow> LIEPacket \<Rightarrow> FSM \<Rightarrow> LevelType option" where
  "acceptable_level h lie f =
     (if lie_LinkMTUSize lie \<in> {None, Some DefaultMTUSize} then
        (case ph_Level h of
           None \<Rightarrow> None
         | Some l \<Rightarrow> if levelAcceptable (fsm_level f) l then Some l else None)
      else None)"

definition reflects :: "LIEPacket \<Rightarrow> FSM \<Rightarrow> bool" where
  "reflects lie f \<longleftrightarrow> lie_Neighbor lie = Some \<lparr>nb_Originator = fsm_systemID f, nb_RemoteID = fsm_localID f\<rparr>"

definition wait_for_neighbors :: "FSM \<Rightarrow> FSM" where
  "wait_for_neighbors f = enterState MultipleNeighborsWait (startMultipleNeighborsTimer f)"

definition heard :: "LIEPacket \<Rightarrow> FSM \<Rightarrow> FSM" where
  "heard lie f = f\<lparr>fsm_lastLIERcvd := Some (fsm_now f), fsm_neighborHoldtime := sint (lie_Holdtime lie) * Second\<rparr>"

definition handle_spec :: "PacketHeader \<Rightarrow> LIEPacket \<Rightarrow> Addr \<Rightarrow> FSM \<Rightarrow> FSM" where
  "handle_spec h lie src f =
     (if fsm_state f = MultipleNeighborsWait then f
      else if \<not> foreign_header h f then cleanup f
      else case acceptable_level h lie f of
        None \<Rightarrow> if fsm_state f = OneWay then cleanup f else enterState OneWay f
      | Some l \<Rightarrow>
          (let f = heard lie f in
           case fsm_neighbor f of
             None \<Rightarrow>
               (let f = f\<lparr>fsm_neighbor := Some \<lparr>ns_SystemID = ph_Sender h, ns_Level = l,
                    ns_LinkID = lie_LocalID lie, ns_Address = src, ns_Name = lie_Name lie,
                    ns_FloodPort = lie_FloodPort lie, ns_Holdtime = lie_Holdtime lie\<rparr>\<rparr>
                in if fsm_state f = OneWay then sendLIE (enterState TwoWay f) else wait_for_neighbors f)
           | Some n \<Rightarrow>
               if ns_SystemID n \<noteq> ph_Sender h then wait_for_neighbors f
               else if ns_Level n \<noteq> l \<or> ns_Address n \<noteq> src then enterState OneWay f
               else
                 (let f = f\<lparr>fsm_neighbor := Some (n\<lparr>ns_LinkID := lie_LocalID lie, ns_Name := lie_Name lie,
                      ns_FloodPort := lie_FloodPort lie, ns_Holdtime := lie_Holdtime lie\<rparr>)\<rparr>
                  in if lie_Neighbor lie = None
                     then (if fsm_state f = ThreeWay then enterState TwoWay f else f)
                     else if reflects lie f
                     then (if fsm_state f = TwoWay then enterState ThreeWay f else f)
                     else wait_for_neighbors f)))"

definition expired :: "FSM \<Rightarrow> bool" where
  "expired f \<longleftrightarrow> fsm_neighborHoldtime f \<noteq> 0 \<and>
     (case fsm_lastLIERcvd f of None \<Rightarrow> False | Some t \<Rightarrow> fsm_now f - t > fsm_neighborHoldtime f)"

definition tick_spec :: "FSM \<Rightarrow> FSM" where
  "tick_spec f =
     (case fsm_state f of
        OneWay \<Rightarrow> sendLIE f
      | MultipleNeighborsWait \<Rightarrow>
          (case fsm_multipleNeighborsDeadline f of
             None \<Rightarrow> f
           | Some d \<Rightarrow> if fsm_now f > d then enterState OneWay f else f)
      | _ \<Rightarrow> if expired f then enterState OneWay (sendLIE f) else sendLIE f)"

section \<open>The machine refines the specification\<close>

lemma record_queue: "fsm_eventQueue f = [] \<Longrightarrow> f\<lparr>fsm_eventQueue := []\<rparr> = f"
  by simp

lemma queue_frame [simp]:
  "fsm_eventQueue (cleanup f) = fsm_eventQueue f" "fsm_eventQueue (enterState st f) = fsm_eventQueue f"
  "fsm_eventQueue (sendLIE f) = fsm_eventQueue f"
  "fsm_eventQueue (startMultipleNeighborsTimer f) = fsm_eventQueue f"
  "fsm_eventQueue (pushEv ev f) = fsm_eventQueue f @ [ev]"
  by (simp_all add: cleanup_def enterState_def sendLIE_def startMultipleNeighborsTimer_def pushEv_def Let_def)

lemma state_frame [simp]:
  "fsm_state (cleanup f) = fsm_state f" "fsm_state (enterState st f) = st"
  "fsm_state (sendLIE f) = fsm_state f" "fsm_state (startMultipleNeighborsTimer f) = fsm_state f"
  "fsm_state (pushEv ev f) = fsm_state f"
  by (simp_all add: cleanup_def enterState_def sendLIE_def startMultipleNeighborsTimer_def pushEv_def Let_def)

lemmas fsm_procs = pushEv_def cleanup_def enterState_def sendLIE_def startMultipleNeighborsTimer_def Let_def

lemma Tick_refines:
  assumes "fsm_stable f"
  shows "Tick f = tick_spec f"
proof -
  have q: "fsm_eventQueue f = []" using assms by (simp add: fsm_stable_def)
  show ?thesis
    using q
    by (cases f; cases "fsm_state f"; cases "fsm_lastLIERcvd f"; cases "fsm_multipleNeighborsDeadline f")
      (simp_all add: Tick_def drain_ev processEvent_def fsm_procs tick_spec_def expired_def checkHoldtime_def)
qed

text \<open>The queue moved to the outside of the other changes.\<close>

lemma queue_out:
  "f\<lparr>fsm_eventQueue := q\<rparr>\<lparr>fsm_neighbor := n\<rparr> = f\<lparr>fsm_neighbor := n\<rparr>\<lparr>fsm_eventQueue := q\<rparr>"
  "heard lie (f\<lparr>fsm_eventQueue := q\<rparr>) = (heard lie f)\<lparr>fsm_eventQueue := q\<rparr>"
  "cleanup (f\<lparr>fsm_eventQueue := q\<rparr>) = (cleanup f)\<lparr>fsm_eventQueue := q\<rparr>"
  "enterState st (f\<lparr>fsm_eventQueue := q\<rparr>) = (enterState st f)\<lparr>fsm_eventQueue := q\<rparr>"
  "sendLIE (f\<lparr>fsm_eventQueue := q\<rparr>) = (sendLIE f)\<lparr>fsm_eventQueue := q\<rparr>"
  "startMultipleNeighborsTimer (f\<lparr>fsm_eventQueue := q\<rparr>) = (startMultipleNeighborsTimer f)\<lparr>fsm_eventQueue := q\<rparr>"
  "pushEv ev (f\<lparr>fsm_eventQueue := q\<rparr>) = f\<lparr>fsm_eventQueue := q @ [ev]\<rparr>"
  by (simp_all add: fsm_procs heard_def)

lemma drain_out:
  "drainQueue (f\<lparr>fsm_eventQueue := []\<rparr>) = f\<lparr>fsm_eventQueue := []\<rparr>"
  "drainQueue (f\<lparr>fsm_eventQueue := ev # evs\<rparr>) = drainQueue (processEvent ev (f\<lparr>fsm_eventQueue := evs\<rparr>))"
  by (simp_all add: drain_ev)

text \<open>Waiting for neighbors, the events that are still in the queue change nothing.\<close>

lemma drain_waiting:
  assumes "fsm_state f = MultipleNeighborsWait"
    and "set evs \<subseteq> {EventSendLie, EventValidReflection, EventNeighborDroppedReflection}"
  shows "drainQueue (f\<lparr>fsm_eventQueue := evs\<rparr>) = f\<lparr>fsm_eventQueue := []\<rparr>"
  using assms(2) by (induction evs) (auto simp: drain_out processEvent_def assms(1))

lemma restart_timer:
  "startMultipleNeighborsTimer (enterState MultipleNeighborsWait (startMultipleNeighborsTimer f)) =
   enterState MultipleNeighborsWait (startMultipleNeighborsTimer f)"
  by (simp add: fsm_procs)

lemma drain_reject:
  assumes "fsm_eventQueue f = []" and "fsm_state f \<noteq> MultipleNeighborsWait"
    and "ev \<in> {EventMTUMismatch, EventUnacceptableHeader}"
  shows "drainQueue (pushEv ev (pushEv EventUpdateZTPOffer (cleanup f))) =
    (if fsm_state f = OneWay then cleanup f else enterState OneWay f)"
proof -
  have "pushEv ev (pushEv EventUpdateZTPOffer (cleanup f)) = (cleanup f)\<lparr>fsm_eventQueue := [EventUpdateZTPOffer, ev]\<rparr>"
    using assms(1) by (simp add: pushEv_def cleanup_def)
  moreover have "enterState OneWay (cleanup f) = enterState OneWay f"
    by (simp add: fsm_procs)
  ultimately show ?thesis
    using assms by (cases "fsm_state f"; cases ev) (simp_all add: drain_out processEvent_def queue_out record_queue)
qed

lemma drain_new:
  assumes "fsm_state f \<noteq> MultipleNeighborsWait" and "set evs \<subseteq> {EventValidReflection, EventNeighborDroppedReflection, EventMultipleNeighbors}"
    and "fsm_state f = OneWay \<Longrightarrow> evs = []" and "length evs \<le> 1"
  shows "drainQueue (f\<lparr>fsm_eventQueue := EventUpdateZTPOffer # EventNewNeighbor # evs\<rparr>) =
    (if fsm_state f = OneWay then sendLIE (enterState TwoWay f) else wait_for_neighbors f)\<lparr>fsm_eventQueue := []\<rparr>"
proof -
  consider "evs = []" | ev where "evs = [ev]" using assms(4) by (cases evs) auto
  then show ?thesis
    using assms(1-3)
    by cases (cases "fsm_state f"; auto simp: drain_out processEvent_def queue_out wait_for_neighbors_def
        restart_timer)+
qed

lemma drain_check:
  assumes "fsm_state f \<in> {TwoWay, ThreeWay}" and "set evs \<subseteq> {EventUpdateZTPOffer, EventNeighborChangedMinorFields}"
  shows "drainQueue (checkThreeWay lie (f\<lparr>fsm_eventQueue := evs\<rparr>)) =
    (if lie_Neighbor lie = None then (if fsm_state f = ThreeWay then enterState TwoWay f else f)
     else if reflects lie f then (if fsm_state f = TwoWay then enterState ThreeWay f else f)
     else wait_for_neighbors f)\<lparr>fsm_eventQueue := []\<rparr>"
proof -
  have skip: "drainQueue (f\<lparr>fsm_eventQueue := evs @ rest\<rparr>) = drainQueue (f\<lparr>fsm_eventQueue := rest\<rparr>)" for rest
    using assms by (induction evs) (auto simp: drain_out processEvent_def)
  have last: "drainQueue (f\<lparr>fsm_eventQueue := evs\<rparr>) = f\<lparr>fsm_eventQueue := []\<rparr>"
    using skip [of "[]"] by (simp add: drain_out)
  have refl: "reflects lie f \<longleftrightarrow> (\<exists>n. lie_Neighbor lie = Some n \<and> nb_Originator n = fsm_systemID f \<and>
      nb_RemoteID n = fsm_localID f)"
    by (auto simp: reflects_def)
  show ?thesis
    using assms(1) last
    by (auto simp: checkThreeWay_def queue_out skip drain_out processEvent_def refl wait_for_neighbors_def
        split: option.split)
qed

lemma checkThreeWay_evs:
  obtains evs where "\<And>q. checkThreeWay lie (f\<lparr>fsm_eventQueue := q\<rparr>) = f\<lparr>fsm_eventQueue := q @ evs\<rparr>"
    and "set evs \<subseteq> {EventValidReflection, EventNeighborDroppedReflection, EventMultipleNeighbors}"
    and "fsm_state f = OneWay \<Longrightarrow> evs = []" and "length evs \<le> 1"
proof -
  define evs where "evs = (if fsm_state f = OneWay then [] else case lie_Neighbor lie of
      None \<Rightarrow> if fsm_state f = ThreeWay then [EventNeighborDroppedReflection] else []
    | Some n \<Rightarrow> if nb_Originator n = fsm_systemID f \<and> nb_RemoteID n = fsm_localID f
        then [EventValidReflection] else [EventMultipleNeighbors])"
  show thesis
    by (rule that [of evs]) (auto simp: evs_def checkThreeWay_def queue_out split: option.split)
qed

lemma track_heard:
  "fsm_eventQueue f = [] \<Longrightarrow>
   (pushEv EventUpdateZTPOffer f)\<lparr>fsm_lastLIERcvd := Some (fsm_now (pushEv EventUpdateZTPOffer f)),
     fsm_neighborHoldtime := sint (lie_Holdtime lie) * Second\<rparr> =
   (heard lie f)\<lparr>fsm_eventQueue := [EventUpdateZTPOffer]\<rparr>"
  by (simp add: pushEv_def heard_def)

lemma heard_frame [simp]:
  "fsm_state (heard lie f) = fsm_state f" "fsm_neighbor (heard lie f) = fsm_neighbor f"
  "fsm_systemID (heard lie f) = fsm_systemID f" "fsm_localID (heard lie f) = fsm_localID f"
  "fsm_eventQueue (heard lie f) = fsm_eventQueue f"
  by (simp_all add: heard_def)

lemma queue_empty_again:
  "fsm_eventQueue f = [] \<Longrightarrow> f\<lparr>fsm_eventQueue := []\<rparr> = f"
  by simp

lemma drain_track:
  assumes "fsm_eventQueue f = []" and "fsm_state f \<noteq> MultipleNeighborsWait"
    and "fsm_state f = OneWay \<longrightarrow> fsm_neighbor f = None"
    and "foreign_header h f" and "acceptable_level h lie f = Some l"
  shows "drainQueue (trackNeighbor h lie src l f) = handle_spec h lie src f"
proof (cases "fsm_neighbor f")
  case None
  let ?g = "(heard lie f)\<lparr>fsm_neighbor := Some \<lparr>ns_SystemID = ph_Sender h, ns_Level = l,
      ns_LinkID = lie_LocalID lie, ns_Address = src, ns_Name = lie_Name lie,
      ns_FloodPort = lie_FloodPort lie, ns_Holdtime = lie_Holdtime lie\<rparr>\<rparr>"
  obtain evs where evs: "\<And>q. checkThreeWay lie (?g\<lparr>fsm_eventQueue := q\<rparr>) = ?g\<lparr>fsm_eventQueue := q @ evs\<rparr>"
    "set evs \<subseteq> {EventValidReflection, EventNeighborDroppedReflection, EventMultipleNeighbors}"
    "fsm_state ?g = OneWay \<Longrightarrow> evs = []" "length evs \<le> 1"
    using checkThreeWay_evs [of lie ?g] by blast
  have "trackNeighbor h lie src l f = ?g\<lparr>fsm_eventQueue := EventUpdateZTPOffer # EventNewNeighbor # evs\<rparr>"
    unfolding trackNeighbor_def Let_def track_heard [OF assms(1)]
    using None by (simp add: queue_out evs(1))
  moreover have "drainQueue (?g\<lparr>fsm_eventQueue := EventUpdateZTPOffer # EventNewNeighbor # evs\<rparr>) =
      (if fsm_state ?g = OneWay then sendLIE (enterState TwoWay ?g) else wait_for_neighbors ?g)\<lparr>fsm_eventQueue := []\<rparr>"
    using assms(2) evs by (intro drain_new) auto
  moreover have "fsm_eventQueue (if fsm_state ?g = OneWay then sendLIE (enterState TwoWay ?g)
      else wait_for_neighbors ?g) = []"
    using assms(1) by (simp add: wait_for_neighbors_def)
  ultimately show ?thesis
    using None assms by (simp add: handle_spec_def Let_def queue_empty_again)
next
  case (Some n)
  then have st: "fsm_state f \<in> {TwoWay, ThreeWay}"
    using assms(2,3) by (cases "fsm_state f") auto
  let ?n = "n\<lparr>ns_LinkID := lie_LocalID lie, ns_Name := lie_Name lie,
      ns_FloodPort := lie_FloodPort lie, ns_Holdtime := lie_Holdtime lie\<rparr>"
  let ?g = "(heard lie f)\<lparr>fsm_neighbor := Some ?n\<rparr>"
  have one: "drainQueue ((heard lie f)\<lparr>fsm_eventQueue := [EventUpdateZTPOffer, ev]\<rparr>) =
      (if ev = EventMultipleNeighbors then wait_for_neighbors (heard lie f) else enterState OneWay (heard lie f))"
    if "ev \<in> {EventMultipleNeighbors, EventNeighborChangedLevel, EventNeighborChangedAddress}" for ev
    using that st assms(1)
    by (auto simp: drain_out processEvent_def queue_out wait_for_neighbors_def queue_empty_again)
  show ?thesis
  proof (cases "ns_SystemID n = ph_Sender h \<and> ns_Level n = l \<and> ns_Address n = src")
    case False
    then show ?thesis
      unfolding trackNeighbor_def Let_def track_heard [OF assms(1)]
      using Some assms st by (auto simp: queue_out one handle_spec_def Let_def)
  next
    case True
    have "\<exists>evs. set evs \<subseteq> {EventUpdateZTPOffer, EventNeighborChangedMinorFields} \<and>
        trackNeighbor h lie src l f = checkThreeWay lie (?g\<lparr>fsm_eventQueue := evs\<rparr>)"
    proof (cases "ns_FloodPort n = lie_FloodPort lie \<and> ns_Name n = lie_Name lie \<and> ns_LinkID n = lie_LocalID lie")
      case same: True
      then have n: "n\<lparr>ns_Holdtime := lie_Holdtime lie\<rparr> = ?n" by (cases n) simp
      have "trackNeighbor h lie src l f = checkThreeWay lie
          ((heard lie f)\<lparr>fsm_eventQueue := [EventUpdateZTPOffer]\<rparr>
            \<lparr>fsm_neighbor := Some (n\<lparr>ns_Holdtime := lie_Holdtime lie\<rparr>)\<rparr>)"
        unfolding trackNeighbor_def Let_def track_heard [OF assms(1)]
        using same True Some by simp
      then show ?thesis
        unfolding n queue_out by (intro exI [of _ "[EventUpdateZTPOffer]"]) simp
    next
      case False
      have n: "n\<lparr>ns_FloodPort := lie_FloodPort lie, ns_Name := lie_Name lie, ns_LinkID := lie_LocalID lie,
          ns_Holdtime := lie_Holdtime lie\<rparr> = ?n" by (cases n) simp
      from False True Some show ?thesis
        unfolding trackNeighbor_def Let_def track_heard [OF assms(1)]
        by (intro exI [of _ "[EventUpdateZTPOffer, EventNeighborChangedMinorFields]"]) (auto simp: queue_out n)
    qed
    then obtain evs where evs: "set evs \<subseteq> {EventUpdateZTPOffer, EventNeighborChangedMinorFields}"
      "trackNeighbor h lie src l f = checkThreeWay lie (?g\<lparr>fsm_eventQueue := evs\<rparr>)" by blast
    have "drainQueue (checkThreeWay lie (?g\<lparr>fsm_eventQueue := evs\<rparr>)) =
      (if lie_Neighbor lie = None then (if fsm_state ?g = ThreeWay then enterState TwoWay ?g else ?g)
       else if reflects lie ?g then (if fsm_state ?g = TwoWay then enterState ThreeWay ?g else ?g)
       else wait_for_neighbors ?g)\<lparr>fsm_eventQueue := []\<rparr>"
      using st by (intro drain_check evs(1)) simp
    with evs(2) True Some st assms show ?thesis
      by (auto simp: handle_spec_def Let_def queue_empty_again wait_for_neighbors_def)
  qed
qed

lemma processLIE_drain:
  assumes "fsm_eventQueue f = []" and "fsm_state f = OneWay \<longrightarrow> fsm_neighbor f = None"
    and "fsm_pendingLIE f = Some lie" and "fsm_pendingHeader f = Some h" and "fsm_pendingSrc f = src"
    and "fsm_state f \<noteq> MultipleNeighborsWait"
  shows "drainQueue (processLIE f) = handle_spec h lie src f"
proof (cases "foreign_header h f")
  case False
  with assms show ?thesis
    by (auto simp: processLIE_def handle_spec_def foreign_header_def)
next
  case True
  show ?thesis
  proof (cases "acceptable_level h lie f")
    case None
    with True assms show ?thesis
      by (auto simp: processLIE_def handle_spec_def foreign_header_def acceptable_level_def drain_reject
          split: option.splits if_splits)
  next
    case (Some l)
    with True assms have "processLIE f = trackNeighbor h lie src l f"
      by (auto simp: processLIE_def foreign_header_def acceptable_level_def split: option.splits if_splits)
    with drain_track [OF assms(1,6,2) True Some] show ?thesis by simp
  qed
qed

lemma HandlePacket_refines:
  assumes "fsm_stable f" and "pc_LIE (pp_Content pkt) = Some lie"
  shows "HandlePacket pkt src f = handle_spec (pp_Header pkt) lie src (with_pending pkt lie src f)"
proof -
  let ?f = "with_pending pkt lie src f"
  have q: "fsm_eventQueue ?f = []" "fsm_state ?f = OneWay \<longrightarrow> fsm_neighbor ?f = None"
    "fsm_pendingLIE ?f = Some lie" "fsm_pendingHeader ?f = Some (pp_Header pkt)" "fsm_pendingSrc ?f = src"
    using assms(1) by (simp_all add: fsm_stable_def with_pending_def)
  have "HandlePacket pkt src f = drainQueue (pushEv EventLieRcvd ?f)"
    using assms(2) by (simp add: HandlePacket_def with_pending_def)
  also have "\<dots> = drainQueue (processEvent EventLieRcvd ?f)"
    using q(1) by (simp add: drain_ev [of "pushEv EventLieRcvd ?f" EventLieRcvd "[]"])
      (simp add: pushEv_def record_queue)
  also have "\<dots> = handle_spec (pp_Header pkt) lie src ?f"
  proof (cases "fsm_state ?f = MultipleNeighborsWait")
    case True
    with q(1) show ?thesis by (simp add: processEvent_def handle_spec_def)
  next
    case False
    then have p: "processEvent EventLieRcvd ?f = processLIE ?f"
      by (cases "fsm_state ?f") (simp_all add: processEvent_def)
    show ?thesis
      unfolding p using processLIE_drain [OF q False] .
  qed
  finally show ?thesis .
qed

section \<open>Runs of the interface goroutine\<close>

text \<open>
  \<open>Interface.Run\<close> selects between the ticker and the receive channel: a run is the list of what it
  selected, each with the reading of the clock.
\<close>

datatype Input = Tick_at int | Packet_at int ProtocolPacket Addr

fun react :: "Input \<Rightarrow> FSM \<Rightarrow> FSM" where
  "react (Tick_at t) f = Tick (f\<lparr>fsm_now := t\<rparr>)"
| "react (Packet_at t pkt src) f = HandlePacket pkt src (f\<lparr>fsm_now := t\<rparr>)"

definition Run :: "Input list \<Rightarrow> FSM \<Rightarrow> FSM" where
  "Run inputs f = fold react inputs f"

lemma Run_simps [simp]: "Run [] f = f" "Run (i # is) f = Run is (react i f)"
  by (simp_all add: Run_def)

lemma Run_append: "Run (is @ js) f = Run js (Run is f)"
  by (simp add: Run_def)

fun react_spec :: "Input \<Rightarrow> FSM \<Rightarrow> FSM" where
  "react_spec (Tick_at t) f = tick_spec (f\<lparr>fsm_now := t\<rparr>)"
| "react_spec (Packet_at t pkt src) f =
     (case pc_LIE (pp_Content pkt) of
        None \<Rightarrow> f\<lparr>fsm_now := t\<rparr>
      | Some lie \<Rightarrow> handle_spec (pp_Header pkt) lie src (with_pending pkt lie src (f\<lparr>fsm_now := t\<rparr>)))"

lemma stable_now [simp]: "fsm_stable (f\<lparr>fsm_now := t\<rparr>) = fsm_stable f"
  by (simp add: fsm_stable_def)

lemma react_refines: "fsm_stable f \<Longrightarrow> react i f = react_spec i f"
proof (cases i)
  case (Packet_at t pkt src)
  assume "fsm_stable f"
  then show ?thesis
    using Packet_at by (cases "pc_LIE (pp_Content pkt)") (simp_all add: HandlePacket_refines, simp add: HandlePacket_def)
qed (simp add: Tick_refines)

text \<open>The invariants of the adjacency are shown once, for a predicate every procedure keeps.\<close>

definition no_self :: "FSM \<Rightarrow> bool" where
  "no_self f \<longleftrightarrow> (\<forall>n. fsm_neighbor f = Some n \<longrightarrow> ns_SystemID n \<notin> {fsm_systemID f, IllegalSystemID})"

definition published :: "FSM \<Rightarrow> bool" where
  "published f \<longleftrightarrow> fsm_state f = (if fsm_stateChangeCh f = [] then OneWay else ae_State (last (fsm_stateChangeCh f)))"

definition events_ok :: "FSM \<Rightarrow> bool" where
  "events_ok f \<longleftrightarrow> (\<forall>ev \<in> set (fsm_stateChangeCh f).
     ae_InterfaceName ev = fsm_ifName f \<and> (ae_State ev = OneWay \<longleftrightarrow> ae_Neighbor ev = None) \<and>
     (\<forall>n. ae_Neighbor ev = Some n \<longrightarrow> ns_SystemID n \<notin> {fsm_systemID f, IllegalSystemID}))"

definition same_identity :: "FSM \<Rightarrow> FSM \<Rightarrow> bool" where
  "same_identity f g \<longleftrightarrow> fsm_systemID f = fsm_systemID g \<and> fsm_level f = fsm_level g \<and>
     fsm_ifName f = fsm_ifName g \<and> fsm_nodeName f = fsm_nodeName g \<and> fsm_localID f = fsm_localID g"

definition lie_inv :: "FSM \<Rightarrow> bool" where
  "lie_inv f \<longleftrightarrow> fsm_stable f \<and> no_self f \<and> published f \<and> events_ok f"

lemmas inv_defs = lie_inv_def fsm_stable_def no_self_def published_def events_ok_def

lemma inv_frame [simp]:
  "lie_inv (f\<lparr>fsm_now := t\<rparr>) = lie_inv f" "lie_inv (with_pending pkt lie src f) = lie_inv f"
  "lie_inv (heard lie f) = lie_inv f" "lie_inv (sendLIE f) = lie_inv f"
  by (simp_all add: inv_defs with_pending_def heard_def sendLIE_def Let_def)

lemma inv_cleanup: "lie_inv f \<Longrightarrow> lie_inv (cleanup f)"
  by (simp add: inv_defs cleanup_def)

lemma inv_OneWay: "lie_inv f \<Longrightarrow> lie_inv (enterState OneWay f)"
  by (auto simp: inv_defs fsm_procs)

lemma inv_enter:
  "\<lbrakk>lie_inv f; fsm_neighbor f = Some n; ns_SystemID n \<notin> {fsm_systemID f, IllegalSystemID}\<rbrakk> \<Longrightarrow>
   lie_inv (enterState st f)"
  by (auto simp: inv_defs fsm_procs)

lemma inv_wait:
  "\<lbrakk>lie_inv f; fsm_neighbor f = Some n; ns_SystemID n \<notin> {fsm_systemID f, IllegalSystemID}\<rbrakk> \<Longrightarrow>
   lie_inv (wait_for_neighbors f)"
  by (auto simp: inv_defs fsm_procs wait_for_neighbors_def)

lemma tick_inv: "lie_inv f \<Longrightarrow> lie_inv (tick_spec f)"
  by (auto simp: tick_spec_def inv_OneWay split: State.split option.split)

lemma handle_inv:
  assumes "lie_inv f"
  shows "lie_inv (handle_spec h lie src f)"
proof (cases "fsm_state f \<noteq> MultipleNeighborsWait \<and> foreign_header h f")
  case False
  then show ?thesis using assms by (auto simp: handle_spec_def inv_cleanup)
next
  case True
  then have h: "ph_Sender h \<notin> {fsm_systemID f, IllegalSystemID}" by (simp add: foreign_header_def)
  show ?thesis
  proof (cases "acceptable_level h lie f")
    case None
    then show ?thesis using True assms by (auto simp: handle_spec_def inv_cleanup inv_OneWay)
  next
    case (Some l)
    let ?new = "\<lambda>n. (heard lie f)\<lparr>fsm_neighbor := Some n\<rparr>"
    have enter: "lie_inv (enterState st (?new n))" if "st \<noteq> OneWay" "ns_SystemID n = ph_Sender h" for st n
      using that assms h by (auto simp: inv_defs fsm_procs heard_def)
    have wait: "lie_inv (wait_for_neighbors (?new n))" if "ns_SystemID n = ph_Sender h" for n
      using that assms h by (auto simp: inv_defs fsm_procs heard_def wait_for_neighbors_def)
    have keep: "lie_inv (?new n)" if "ns_SystemID n = ph_Sender h" "fsm_state f \<noteq> OneWay" for n
      using that assms h by (auto simp: inv_defs heard_def)
    show ?thesis
    proof (cases "fsm_neighbor f")
      case None
      then show ?thesis
        using True Some enter wait by (simp add: handle_spec_def Let_def)
    next
      case n: (Some n)
      then have st: "fsm_state f \<noteq> OneWay" and "ns_SystemID n \<notin> {fsm_systemID f, IllegalSystemID}"
        using assms by (auto simp: inv_defs)
      then have "lie_inv (wait_for_neighbors (heard lie f))" "lie_inv (enterState OneWay (heard lie f))"
        using assms n by (auto intro: inv_wait inv_OneWay)
      then show ?thesis
        using True Some n st enter wait keep by (simp add: handle_spec_def Let_def)
    qed
  qed
qed

lemma react_inv: "lie_inv f \<Longrightarrow> lie_inv (react i f)"
  using handle_inv tick_inv by (subst react_refines) (simp add: lie_inv_def, cases i, auto split: option.split)

lemma Run_inv: "lie_inv f \<Longrightarrow> lie_inv (Run is f)"
  by (induction "is" arbitrary: f) (simp_all add: react_inv)

lemma NewFSM_inv: "lie_inv (NewFSM s l nm i lid t)"
  by (simp add: inv_defs NewFSM_def)

text \<open>The identity of the interface.\<close>

lemma identity_frame [simp]:
  "fsm_systemID (enterState st f) = fsm_systemID f" "fsm_systemID (sendLIE f) = fsm_systemID f"
  "fsm_systemID (cleanup f) = fsm_systemID f" "fsm_systemID (wait_for_neighbors f) = fsm_systemID f"
  "fsm_systemID (with_pending pkt lie src f) = fsm_systemID f"
  "fsm_level (enterState st f) = fsm_level f" "fsm_level (sendLIE f) = fsm_level f"
  "fsm_level (cleanup f) = fsm_level f" "fsm_level (wait_for_neighbors f) = fsm_level f"
  "fsm_level (with_pending pkt lie src f) = fsm_level f" "fsm_level (heard lie f) = fsm_level f"
  "fsm_localID (enterState st f) = fsm_localID f" "fsm_localID (sendLIE f) = fsm_localID f"
  "fsm_localID (cleanup f) = fsm_localID f" "fsm_localID (wait_for_neighbors f) = fsm_localID f"
  "fsm_localID (with_pending pkt lie src f) = fsm_localID f"
  "fsm_nodeName (enterState st f) = fsm_nodeName f" "fsm_nodeName (sendLIE f) = fsm_nodeName f"
  "fsm_nodeName (cleanup f) = fsm_nodeName f" "fsm_nodeName (wait_for_neighbors f) = fsm_nodeName f"
  "fsm_nodeName (with_pending pkt lie src f) = fsm_nodeName f" "fsm_nodeName (heard lie f) = fsm_nodeName f"
  by (simp_all add: fsm_procs wait_for_neighbors_def with_pending_def heard_def)

section \<open>What the received packets justify\<close>

text \<open>Node \<open>s\<close> sent a LIE with link id \<open>lid\<close>; node \<open>s\<close> sent a LIE that reflects this interface.\<close>

definition heard_from :: "Input set \<Rightarrow> SystemIDType \<Rightarrow> LinkIDType \<Rightarrow> bool" where
  "heard_from R s lid \<longleftrightarrow> (\<exists>t pkt src lie. Packet_at t pkt src \<in> R \<and> pc_LIE (pp_Content pkt) = Some lie \<and>
     ph_MajorVersion (pp_Header pkt) = ProtocolMajorVersion \<and> ph_Sender (pp_Header pkt) = s \<and> lie_LocalID lie = lid)"

definition reflected_by :: "Input set \<Rightarrow> SystemIDType \<Rightarrow> FSM \<Rightarrow> bool" where
  "reflected_by R s f \<longleftrightarrow> (\<exists>t pkt src lie. Packet_at t pkt src \<in> R \<and> pc_LIE (pp_Content pkt) = Some lie \<and>
     ph_MajorVersion (pp_Header pkt) = ProtocolMajorVersion \<and> ph_Sender (pp_Header pkt) = s \<and>
     lie_Neighbor lie = Some \<lparr>nb_Originator = fsm_systemID f, nb_RemoteID = fsm_localID f\<rparr>)"

definition sent_ok :: "Input set \<Rightarrow> FSM \<Rightarrow> ProtocolPacket \<Rightarrow> bool" where
  "sent_ok R f pkt \<longleftrightarrow>
     pp_Header pkt = \<lparr>ph_MajorVersion = ProtocolMajorVersion, ph_MinorVersion = ProtocolMinorVersion,
       ph_Sender = fsm_systemID f, ph_Level = Some (fsm_level f)\<rparr> \<and>
     (\<exists>lie. pc_LIE (pp_Content pkt) = Some lie \<and> lie_LocalID lie = fsm_localID f \<and>
        lie_Name lie = fsm_nodeName f \<and> lie_Holdtime lie = DefaultLIEHoldtime \<and>
        (\<forall>n. lie_Neighbor lie = Some n \<longrightarrow> heard_from R (nb_Originator n) (nb_RemoteID n)))"

definition justified :: "Input set \<Rightarrow> FSM \<Rightarrow> bool" where
  "justified R f \<longleftrightarrow>
     (\<forall>n. fsm_neighbor f = Some n \<longrightarrow> heard_from R (ns_SystemID n) (ns_LinkID n)) \<and>
     (\<forall>pkt \<in> set (fsm_sent f). sent_ok R f pkt) \<and>
     (\<forall>n. fsm_state f = ThreeWay \<longrightarrow> fsm_neighbor f = Some n \<longrightarrow> reflected_by R (ns_SystemID n) f) \<and>
     (\<forall>ev \<in> set (fsm_stateChangeCh f). \<forall>n. ae_State ev = ThreeWay \<longrightarrow> ae_Neighbor ev = Some n \<longrightarrow>
        reflected_by R (ns_SystemID n) f)"

lemma justified_frame [simp]:
  "justified R (f\<lparr>fsm_now := t\<rparr>) = justified R f" "justified R (with_pending pkt lie src f) = justified R f"
  "justified R (heard lie f) = justified R f"
  by (simp_all add: justified_def sent_ok_def reflected_by_def with_pending_def heard_def)

lemma justified_cleanup: "justified R f \<Longrightarrow> justified R (cleanup f)"
  by (simp add: justified_def sent_ok_def reflected_by_def cleanup_def)

lemma justified_sendLIE: "justified R f \<Longrightarrow> justified R (sendLIE f)"
  by (auto simp: justified_def sent_ok_def reflected_by_def sendLIE_def Let_def)

lemma justified_enter: "\<lbrakk>justified R f; st \<noteq> ThreeWay\<rbrakk> \<Longrightarrow> justified R (enterState st f)"
  by (auto simp: justified_def sent_ok_def reflected_by_def fsm_procs)

lemma justified_wait: "justified R f \<Longrightarrow> justified R (wait_for_neighbors f)"
  by (auto simp: justified_def sent_ok_def reflected_by_def fsm_procs wait_for_neighbors_def)

lemma justified_ThreeWay:
  "\<lbrakk>justified R f; fsm_neighbor f = Some n; reflected_by R (ns_SystemID n) f\<rbrakk> \<Longrightarrow> justified R (enterState ThreeWay f)"
  by (auto simp: justified_def sent_ok_def reflected_by_def fsm_procs)

lemma justified_neighbor:
  "\<lbrakk>justified R f; heard_from R (ns_SystemID n) (ns_LinkID n);
    fsm_state f = ThreeWay \<Longrightarrow> (\<exists>m. fsm_neighbor f = Some m \<and> ns_SystemID m = ns_SystemID n)\<rbrakk> \<Longrightarrow>
   justified R (f\<lparr>fsm_neighbor := Some n\<rparr>)"
  by (auto simp: justified_def sent_ok_def reflected_by_def)

lemma justified_new:
  "\<lbrakk>justified R f; heard_from R (ns_SystemID n) (ns_LinkID n); st \<noteq> ThreeWay\<rbrakk> \<Longrightarrow>
   justified R (enterState st (f\<lparr>fsm_neighbor := Some n\<rparr>))"
  by (auto simp: justified_def sent_ok_def reflected_by_def fsm_procs)

lemma justified_new_wait:
  "\<lbrakk>justified R f; heard_from R (ns_SystemID n) (ns_LinkID n)\<rbrakk> \<Longrightarrow>
   justified R (wait_for_neighbors (f\<lparr>fsm_neighbor := Some n\<rparr>))"
  by (auto simp: justified_def sent_ok_def reflected_by_def fsm_procs wait_for_neighbors_def)

lemma justified_handle:
  assumes j: "justified R f" and lie: "Packet_at t pkt src \<in> R" "pc_LIE (pp_Content pkt) = Some lie"
  shows "justified R (handle_spec (pp_Header pkt) lie src f)"
proof (cases "fsm_state f \<noteq> MultipleNeighborsWait \<and> foreign_header (pp_Header pkt) f")
  case False
  then show ?thesis using j by (auto simp: handle_spec_def justified_cleanup)
next
  case True
  then have hf: "heard_from R (ph_Sender (pp_Header pkt)) (lie_LocalID lie)"
    using lie by (auto simp: heard_from_def foreign_header_def)
  have refl: "reflected_by R (ph_Sender (pp_Header pkt)) g" if "reflects lie g" for g
    using that lie True by (auto simp: reflected_by_def reflects_def foreign_header_def)
  show ?thesis
  proof (cases "acceptable_level (pp_Header pkt) lie f")
    case None
    then show ?thesis using True j by (auto simp: handle_spec_def justified_cleanup justified_enter)
  next
    case (Some l)
    show ?thesis
    proof (cases "fsm_neighbor f")
      case None
      with True Some j hf show ?thesis
        by (auto simp: handle_spec_def Let_def intro!: justified_sendLIE justified_new justified_new_wait)
    next
      case n: (Some n)
      let ?n = "n\<lparr>ns_LinkID := lie_LocalID lie, ns_Name := lie_Name lie,
          ns_FloodPort := lie_FloodPort lie, ns_Holdtime := lie_Holdtime lie\<rparr>"
      let ?g = "(heard lie f)\<lparr>fsm_neighbor := Some ?n\<rparr>"
      have "justified R ?g" if "ns_SystemID n = ph_Sender (pp_Header pkt)"
        using that j hf n by (intro justified_neighbor) auto
      moreover have "justified R (enterState ThreeWay ?g)"
        if "ns_SystemID n = ph_Sender (pp_Header pkt)" "reflects lie ?g"
        using that calculation refl [OF that(2)] by (intro justified_ThreeWay [of _ _ ?n]) auto
      ultimately show ?thesis
        using True Some n j
        by (auto simp: handle_spec_def Let_def intro: justified_wait justified_enter)
    qed
  qed
qed

lemma justified_react: "\<lbrakk>lie_inv f; justified R f; i \<in> R\<rbrakk> \<Longrightarrow> justified R (react i f)"
  by (subst react_refines, simp add: lie_inv_def, cases i)
    (auto simp: tick_spec_def justified_enter justified_sendLIE justified_handle split: State.split option.split)

lemma justified_Run: "\<lbrakk>lie_inv f; justified R f; set is \<subseteq> R\<rbrakk> \<Longrightarrow> justified R (Run is f)"
  by (induction "is" arbitrary: f) (simp_all add: react_inv justified_react)

lemma justified_NewFSM: "justified R (NewFSM s l nm i lid t)"
  by (simp add: justified_def NewFSM_def)

section \<open>Entering the states\<close>

lemma handle_enters:
  assumes "fsm_stable f" and "fsm_state (handle_spec h lie src f) \<noteq> fsm_state f"
  shows "fsm_state f \<noteq> MultipleNeighborsWait \<and> foreign_header h f"
  using assms by (auto simp: handle_spec_def split: if_splits)

lemma handle_enters_ThreeWay:
  assumes "fsm_state (handle_spec h lie src f) = ThreeWay" and "fsm_state f \<noteq> ThreeWay"
  shows "fsm_state f = TwoWay \<and> foreign_header h f \<and> acceptable_level h lie f \<noteq> None \<and> reflects lie f \<and>
    (\<exists>n. fsm_neighbor f = Some n \<and> ns_SystemID n = ph_Sender h \<and> Some (ns_Level n) = acceptable_level h lie f \<and>
      ns_Address n = src)"
  using assms
  by (auto simp: handle_spec_def wait_for_neighbors_def reflects_def Let_def split: if_splits option.splits)

lemma handle_enters_TwoWay:
  assumes "fsm_stable f" and "fsm_state (handle_spec h lie src f) = TwoWay" and "fsm_state f \<noteq> TwoWay"
  shows "foreign_header h f \<and> acceptable_level h lie f \<noteq> None \<and>
    (fsm_state f = OneWay \<or> fsm_state f = ThreeWay \<and> lie_Neighbor lie = None)"
  using assms
  by (auto simp: handle_spec_def wait_for_neighbors_def fsm_stable_def Let_def split: if_splits option.splits)

lemma tick_enters: "fsm_state (tick_spec f) \<in> {fsm_state f, OneWay}"
  by (auto simp: tick_spec_def split: State.split option.split)

section \<open>Silence\<close>

definition adjacent :: "FSM \<Rightarrow> bool" where
  "adjacent f \<longleftrightarrow> fsm_state f \<in> {TwoWay, ThreeWay}"

lemma tick_silent:
  assumes "lie_inv f" and "adjacent f" and "fsm_lastLIERcvd f = Some t0" and "fsm_neighborHoldtime f = h"
    and "h \<noteq> 0" and "t - t0 \<le> h"
  shows "react (Tick_at t) f = sendLIE (f\<lparr>fsm_now := t\<rparr>)"
  using assms by (subst react_refines) (auto simp: lie_inv_def tick_spec_def adjacent_def expired_def)

lemma ticks_silent:
  assumes "lie_inv f" and "adjacent f" and "fsm_lastLIERcvd f = Some t0" and "fsm_neighborHoldtime f = h"
    and "h \<noteq> 0" and "\<forall>t \<in> set ts. t - t0 \<le> h"
  shows "let g = Run (map Tick_at ts) f in
    lie_inv g \<and> fsm_state g = fsm_state f \<and> fsm_neighbor g = fsm_neighbor f \<and> fsm_lastLIERcvd g = Some t0 \<and>
    fsm_neighborHoldtime g = h \<and> fsm_stateChangeCh g = fsm_stateChangeCh f \<and> same_identity f g"
  using assms
proof (induction ts arbitrary: f)
  case Nil
  then show ?case by (simp add: same_identity_def)
next
  case (Cons t ts)
  have step: "react (Tick_at t) f = sendLIE (f\<lparr>fsm_now := t\<rparr>)"
    using Cons.prems tick_silent [of f t0 h t] by simp
  have frame: "fsm_neighbor (sendLIE g) = fsm_neighbor g" "fsm_lastLIERcvd (sendLIE g) = fsm_lastLIERcvd g"
    "fsm_neighborHoldtime (sendLIE g) = fsm_neighborHoldtime g" "fsm_stateChangeCh (sendLIE g) = fsm_stateChangeCh g"
    "same_identity f (sendLIE g) = same_identity f g" "fsm_ifName (sendLIE g) = fsm_ifName g" for g
    by (simp_all add: sendLIE_def same_identity_def Let_def)
  have "same_identity (sendLIE (f\<lparr>fsm_now := t\<rparr>)) g = same_identity f g" for g
    by (simp add: sendLIE_def same_identity_def Let_def)
  then show ?case
    using Cons.IH [of "sendLIE (f\<lparr>fsm_now := t\<rparr>)"] Cons.prems
    by (simp add: step frame adjacent_def Let_def del: react.simps)
qed

lemma tick_expires:
  assumes "lie_inv f" and "adjacent f" and "fsm_lastLIERcvd f = Some t0" and "fsm_neighborHoldtime f = h"
    and "h \<noteq> 0" and "h < t - t0"
  shows "react (Tick_at t) f = enterState OneWay (sendLIE (f\<lparr>fsm_now := t\<rparr>))"
  using assms by (subst react_refines) (auto simp: lie_inv_def tick_spec_def adjacent_def expired_def)

text \<open>An adjacency whose timer was cleared: no tick ends it.\<close>

lemma ticks_stuck:
  assumes "lie_inv f" and "adjacent f" and "fsm_neighborHoldtime f = 0"
  shows "let g = Run (map Tick_at ts) f in fsm_state g = fsm_state f \<and> fsm_neighbor g = fsm_neighbor f \<and>
    fsm_stateChangeCh g = fsm_stateChangeCh f"
  using assms
proof (induction ts arbitrary: f)
  case (Cons t ts)
  have step: "react (Tick_at t) f = sendLIE (f\<lparr>fsm_now := t\<rparr>)"
    using Cons.prems by (subst react_refines) (auto simp: lie_inv_def tick_spec_def adjacent_def expired_def)
  have frame: "fsm_neighbor (sendLIE g) = fsm_neighbor g" "fsm_neighborHoldtime (sendLIE g) = fsm_neighborHoldtime g"
    "fsm_stateChangeCh (sendLIE g) = fsm_stateChangeCh g" for g
    by (simp_all add: sendLIE_def Let_def)
  show ?case
    using Cons.IH [of "sendLIE (f\<lparr>fsm_now := t\<rparr>)"] Cons.prems
    by (simp add: step frame adjacent_def Let_def del: react.simps)
qed simp

text \<open>A machine that waits because of several neighbors, before and after its deadline.\<close>

definition waiting :: "int \<Rightarrow> FSM \<Rightarrow> bool" where
  "waiting d f \<longleftrightarrow> fsm_stable f \<and> fsm_state f = MultipleNeighborsWait \<and> fsm_multipleNeighborsDeadline f = Some d"

fun input_time :: "Input \<Rightarrow> int" where
  "input_time (Tick_at t) = t"
| "input_time (Packet_at t pkt src) = t"

lemma waiting_react:
  assumes "waiting d f" and "input_time i \<le> d \<or> (\<exists>t pkt src. i = Packet_at t pkt src)"
  shows "waiting d (react i f) \<and> fsm_sent (react i f) = fsm_sent f \<and>
    fsm_stateChangeCh (react i f) = fsm_stateChangeCh f"
proof -
  have "react i f = react_spec i f" using assms(1) by (simp add: waiting_def react_refines)
  then show ?thesis
    using assms by (cases i) (auto simp: waiting_def fsm_stable_def tick_spec_def handle_spec_def with_pending_def
        split: option.split)
qed

lemma waiting_Run:
  assumes "waiting d f" and "\<forall>i \<in> set is. input_time i \<le> d"
  shows "waiting d (Run is f) \<and> fsm_sent (Run is f) = fsm_sent f \<and>
    fsm_stateChangeCh (Run is f) = fsm_stateChangeCh f"
  using assms by (induction "is" arbitrary: f) (auto dest: waiting_react)

lemma waiting_done:
  assumes "waiting d f" and "d < t"
  shows "react (Tick_at t) f = enterState OneWay (f\<lparr>fsm_now := t\<rparr>)"
  using assms by (subst react_refines) (auto simp: waiting_def tick_spec_def)

section \<open>The handshake of two nodes\<close>

definition lie_pkt :: "FSM \<Rightarrow> ProtocolPacket" where
  "lie_pkt f = last (fsm_sent (sendLIE f))"

lemma sendLIE_pkt: "sendLIE f = f\<lparr>fsm_sent := fsm_sent f @ [lie_pkt f]\<rparr>"
  by (simp add: sendLIE_def lie_pkt_def Let_def)

lemma levelAcceptable_sym: "levelAcceptable l r = levelAcceptable r l"
  by (auto simp: levelAcceptable_def)

definition compatible :: "FSM \<Rightarrow> FSM \<Rightarrow> bool" where
  "compatible f g \<longleftrightarrow> fsm_systemID f \<noteq> fsm_systemID g \<and> fsm_systemID f \<noteq> IllegalSystemID \<and>
     fsm_systemID g \<noteq> IllegalSystemID \<and> levelAcceptable (fsm_level f) (fsm_level g)"

lemma compatible_sym: "compatible f g \<Longrightarrow> compatible g f"
  by (auto simp: compatible_def levelAcceptable_sym)

text \<open>\<open>f\<close> has \<open>g\<close> as its neighbor, heard at time \<open>t\<close> from \<open>src\<close>.\<close>

definition tracks :: "FSM \<Rightarrow> FSM \<Rightarrow> Addr \<Rightarrow> int \<Rightarrow> bool" where
  "tracks f g src t \<longleftrightarrow> lie_inv f \<and> fsm_lastLIERcvd f = Some t \<and> fsm_neighborHoldtime f = 3 * Second \<and>
     (\<exists>n. fsm_neighbor f = Some n \<and> ns_SystemID n = fsm_systemID g \<and> ns_LinkID n = fsm_localID g \<and>
        ns_Level n = fsm_level g \<and> ns_Address n = src)"

lemma lie_pkt_parts:
  "ph_MajorVersion (pp_Header (lie_pkt g)) = ProtocolMajorVersion" "ph_Sender (pp_Header (lie_pkt g)) = fsm_systemID g"
  "ph_Level (pp_Header (lie_pkt g)) = Some (fsm_level g)"
  "\<exists>lie. pc_LIE (pp_Content (lie_pkt g)) = Some lie \<and> lie_LocalID lie = fsm_localID g \<and>
     lie_LinkMTUSize lie \<in> {None, Some DefaultMTUSize} \<and> sint (lie_Holdtime lie) = 3 \<and>
     lie_Neighbor lie = map_option (\<lambda>n. \<lparr>nb_Originator = ns_SystemID n, nb_RemoteID = ns_LinkID n\<rparr>) (fsm_neighbor g)"
  by (simp_all add: lie_pkt_def sendLIE_def Let_def zero_LIEPacket_def)

lemma lie_pkt_accepted:
  assumes "compatible f g"
  shows "foreign_header (pp_Header (lie_pkt g)) f"
    and "pc_LIE (pp_Content (lie_pkt g)) = Some lie \<Longrightarrow>
      acceptable_level (pp_Header (lie_pkt g)) lie f = Some (fsm_level g)"
  using assms lie_pkt_parts [of g] by (auto simp: foreign_header_def compatible_def acceptable_level_def)

lemma pending_compat: "compatible (with_pending p l s (f\<lparr>fsm_now := t\<rparr>)) g = compatible f g"
  by (simp add: compatible_def with_pending_def)

lemma hello:
  assumes "lie_inv f" and "fsm_state f = OneWay" and "compatible f g"
  shows "let f' = react (Packet_at t (lie_pkt g) src) f in
    fsm_state f' = TwoWay \<and> tracks f' g src t \<and> last (fsm_sent f') = lie_pkt f' \<and> same_identity f f'"
proof -
  obtain lie where lie: "pc_LIE (pp_Content (lie_pkt g)) = Some lie" "lie_LocalID lie = fsm_localID g"
    "sint (lie_Holdtime lie) = 3"
    using lie_pkt_parts(4) by blast
  let ?f = "with_pending (lie_pkt g) lie src (f\<lparr>fsm_now := t\<rparr>)"
  let ?f' = "react (Packet_at t (lie_pkt g) src) f"
  have inv: "lie_inv ?f'" using assms(1) by (rule react_inv)
  have nb: "fsm_neighbor ?f = None" using assms(1,2) by (simp add: inv_defs with_pending_def)
  have st: "fsm_state ?f = OneWay" using assms(2) by (simp add: with_pending_def)
  have acc: "foreign_header (pp_Header (lie_pkt g)) ?f"
    "acceptable_level (pp_Header (lie_pkt g)) lie ?f = Some (fsm_level g)"
    using lie_pkt_accepted [of ?f g] assms(3) lie(1) by (simp_all add: pending_compat)
  let ?h = "enterState TwoWay ((heard lie ?f)\<lparr>fsm_neighbor := Some
      \<lparr>ns_SystemID = fsm_systemID g, ns_Level = fsm_level g, ns_LinkID = lie_LocalID lie, ns_Address = src,
       ns_Name = lie_Name lie, ns_FloodPort = lie_FloodPort lie, ns_Holdtime = lie_Holdtime lie\<rparr>\<rparr>)"
  have "?f' = sendLIE ?h"
    using assms(1) lie(1) nb st acc
    by (subst react_refines) (simp_all add: lie_inv_def handle_spec_def Let_def lie_pkt_parts)
  moreover have "lie_pkt (sendLIE h) = lie_pkt h" for h
    by (simp add: lie_pkt_def sendLIE_def Let_def)
  moreover have "fsm_lastLIERcvd ?h = Some t" "fsm_neighborHoldtime ?h = 3 * Second" "same_identity f ?h"
    "fsm_neighbor ?h = Some \<lparr>ns_SystemID = fsm_systemID g, ns_Level = fsm_level g, ns_LinkID = lie_LocalID lie,
       ns_Address = src, ns_Name = lie_Name lie, ns_FloodPort = lie_FloodPort lie, ns_Holdtime = lie_Holdtime lie\<rparr>"
    using lie(3) by (simp_all add: enterState_def heard_def with_pending_def same_identity_def Let_def)
  ultimately show ?thesis
    using inv lie(2) by (simp add: tracks_def Let_def sendLIE_pkt same_identity_def)
qed

lemma reflection:
  assumes "tracks f g src t'" and "adjacent f" and "compatible f g"
    and "fsm_neighbor g = Some m" and "ns_SystemID m = fsm_systemID f" and "ns_LinkID m = fsm_localID f"
  shows "let f' = react (Packet_at t (lie_pkt g) src) f in
    fsm_state f' = ThreeWay \<and> tracks f' g src t \<and> same_identity f f'"
proof -
  obtain lie where lie: "pc_LIE (pp_Content (lie_pkt g)) = Some lie" "lie_LocalID lie = fsm_localID g"
    "sint (lie_Holdtime lie) = 3"
    "lie_Neighbor lie = Some \<lparr>nb_Originator = fsm_systemID f, nb_RemoteID = fsm_localID f\<rparr>"
    using lie_pkt_parts(4) [of g] assms(4-6) by auto
  let ?f = "with_pending (lie_pkt g) lie src (f\<lparr>fsm_now := t\<rparr>)"
  let ?f' = "react (Packet_at t (lie_pkt g) src) f"
  obtain n where n: "fsm_neighbor f = Some n" "ns_SystemID n = fsm_systemID g" "ns_LinkID n = fsm_localID g"
    "ns_Level n = fsm_level g" "ns_Address n = src" and inv: "lie_inv f"
    using assms(1) by (auto simp: tracks_def)
  have inv': "lie_inv ?f'" using inv by (rule react_inv)
  have acc: "foreign_header (pp_Header (lie_pkt g)) ?f"
    "acceptable_level (pp_Header (lie_pkt g)) lie ?f = Some (fsm_level g)"
    using lie_pkt_accepted [of ?f g] assms(3) lie(1) by (simp_all add: pending_compat)
  let ?h = "(heard lie ?f)\<lparr>fsm_neighbor := Some (n\<lparr>ns_LinkID := lie_LocalID lie, ns_Name := lie_Name lie,
      ns_FloodPort := lie_FloodPort lie, ns_Holdtime := lie_Holdtime lie\<rparr>)\<rparr>"
  have frame: "fsm_neighbor ?f = Some n" "fsm_state ?f = fsm_state f"
    using n by (simp_all add: with_pending_def)
  have refl: "reflects lie ?h"
    using lie(4) by (simp add: reflects_def with_pending_def heard_def)
  have "?f' = (if fsm_state f = TwoWay then enterState ThreeWay ?h else ?h)"
    using inv lie(1) acc frame n refl assms(2) lie(4)
    by (subst react_refines) (simp_all add: lie_inv_def handle_spec_def Let_def lie_pkt_parts adjacent_def, auto)
  then have "fsm_state ?f' = ThreeWay" and k: "?f' \<in> {?h, enterState ThreeWay ?h}"
    using assms(2) frame(2) by (auto simp: adjacent_def)
  moreover have "fsm_lastLIERcvd k = Some t \<and> fsm_neighborHoldtime k = 3 * Second \<and> same_identity f k \<and>
      fsm_neighbor k = fsm_neighbor ?h" if "k \<in> {?h, enterState ThreeWay ?h}" for k
    using that lie(3) by (auto simp: enterState_def heard_def with_pending_def same_identity_def Let_def)
  note this [OF k]
  moreover have "\<exists>n'. fsm_neighbor ?h = Some n' \<and> ns_SystemID n' = fsm_systemID g \<and> ns_LinkID n' = fsm_localID g \<and>
      ns_Level n' = fsm_level g \<and> ns_Address n' = src"
    using n lie(2) by simp
  ultimately show ?thesis
    using inv' unfolding tracks_def Let_def by (simp del: react.simps)
qed

end
