(* ===== verification/Lie_Adjacency.thy ===== *)
theory Lie_Adjacency
  imports Lie_Props
begin

text \<open>
  The properties of the LIE adjacency: the handshake of two machines, what ends an adjacency and what
  does not, and the invariants of every run of the interface goroutine.
\<close>

section \<open>The handshake, step by step\<close>

lemma bare_hello:
  assumes "lie_inv f" and "fsm_state f = OneWay"
  shows "react (Tick_at t) f = sendLIE (f\<lparr>fsm_now := t\<rparr>)"
  using assms by (subst react_refines) (auto simp: lie_inv_def tick_spec_def)

lemma lie_pkt_frame [simp]: "lie_pkt (sendLIE f) = lie_pkt f" "lie_pkt (f\<lparr>fsm_now := t\<rparr>) = lie_pkt f"
  "last (fsm_sent (sendLIE f)) = lie_pkt f"
  by (simp_all add: lie_pkt_def sendLIE_def Let_def)

lemma tracks_frame: "same_identity g g' \<Longrightarrow> tracks f g' src t = tracks f g src t"
  by (simp add: tracks_def same_identity_def)

lemma compatible_frame: "same_identity f f' \<Longrightarrow> compatible f' g = compatible f g"
  "same_identity g g' \<Longrightarrow> compatible f g' = compatible f g"
  by (simp_all add: compatible_def same_identity_def)

lemma same_identity_trans: "\<lbrakk>same_identity f g; same_identity g h\<rbrakk> \<Longrightarrow> same_identity f h"
  by (simp add: same_identity_def)

lemma same_identity_sent: "same_identity f (sendLIE (f\<lparr>fsm_now := t\<rparr>))"
  by (simp add: same_identity_def sendLIE_def Let_def)

lemma tracksD:
  assumes "tracks f g src t"
  obtains n where "fsm_neighbor f = Some n" "ns_SystemID n = fsm_systemID g" "ns_LinkID n = fsm_localID g"
  using assms by (auto simp: tracks_def)

lemma reflection':
  assumes "tracks f g src t'" and "adjacent f" and "compatible f g" and "tracks g f src' t''"
  shows "let f' = react (Packet_at t (lie_pkt g) src) f in
    fsm_state f' = ThreeWay \<and> tracks f' g src t \<and> same_identity f f'"
  using assms(4) by (rule tracksD) (rule reflection [OF assms(1-3)])

lemma tick_tracks:
  assumes "tracks f g src t'" and "adjacent f" and "t - t' \<le> 3 * Second"
  shows "let f' = react (Tick_at t) f in
    last (fsm_sent f') = lie_pkt f' \<and> tracks f' g src t' \<and> fsm_state f' = fsm_state f \<and> same_identity f f'"
proof -
  have inv: "lie_inv f" "fsm_lastLIERcvd f = Some t'" "fsm_neighborHoldtime f = 3 * Second"
    using assms(1) by (auto simp: tracks_def)
  have "react (Tick_at t) f = sendLIE (f\<lparr>fsm_now := t\<rparr>)"
    using tick_silent [OF inv(1) assms(2) inv(2,3)] assms(3) by simp
  moreover have "tracks (sendLIE (f\<lparr>fsm_now := t\<rparr>)) g src t'"
    using assms(1) by (simp add: tracks_def) (simp add: sendLIE_def Let_def)
  ultimately show ?thesis by (simp add: same_identity_sent del: react.simps)
qed

text \<open>The messages of the handshake, each delivered once: the tick of \<open>a\<close> starts it.\<close>

definition handshake :: "FSM \<Rightarrow> FSM \<Rightarrow> Addr \<Rightarrow> Addr \<Rightarrow> int \<Rightarrow> int \<Rightarrow> int \<Rightarrow> int \<Rightarrow> int \<Rightarrow> int \<Rightarrow> FSM \<times> FSM" where
  "handshake a b addr_a addr_b t1 t2 t3 t4 t5 t6 =
     (let a = react (Tick_at t1) a;
          b = react (Packet_at t2 (last (fsm_sent a)) addr_a) b;
          a = react (Packet_at t3 (last (fsm_sent b)) addr_b) a;
          b = react (Packet_at t4 (last (fsm_sent a)) addr_a) b;
          b = react (Tick_at t5) b;
          a = react (Packet_at t6 (last (fsm_sent b)) addr_b) a
      in (a, b))"

lemma handshake_ok:
  assumes "lie_inv a" and "lie_inv b" and "fsm_state a = OneWay" and "fsm_state b = OneWay"
    and "compatible a b" and "t5 - t4 \<le> 3 * Second"
    and "handshake a b addr_a addr_b t1 t2 t3 t4 t5 t6 = (a', b')"
  shows "fsm_state a' = ThreeWay" and "fsm_state b' = ThreeWay" and "tracks a' b addr_b t6" and "tracks b' a addr_a t4"
proof -
  define a1 where "a1 = react (Tick_at t1) a"
  define b1 where "b1 = react (Packet_at t2 (lie_pkt a1) addr_a) b"
  define a2 where "a2 = react (Packet_at t3 (lie_pkt b1) addr_b) a1"
  define b2 where "b2 = react (Packet_at t4 (lie_pkt a2) addr_a) b1"
  define b3 where "b3 = react (Tick_at t5) b2"
  define a3 where "a3 = react (Packet_at t6 (lie_pkt b3) addr_b) a2"
  note defs = a1_def b1_def a2_def b2_def b3_def a3_def
  have a1: "lie_inv a1" "fsm_state a1 = OneWay" "last (fsm_sent a1) = lie_pkt a1" "same_identity a a1"
    using assms(1,3) unfolding a1_def
    by (simp_all add: bare_hello react_inv same_identity_sent del: react.simps)
  have b1: "fsm_state b1 = TwoWay" "tracks b1 a1 addr_a t2" "last (fsm_sent b1) = lie_pkt b1" "same_identity b b1"
    using hello [OF assms(2,4), of a1 t2 addr_a] compatible_sym [OF assms(5)] a1(4)
    by (simp_all add: b1_def Let_def compatible_frame del: react.simps)
  have c1: "compatible a1 b1" using assms(5) a1(4) b1(4) by (simp add: compatible_frame)
  have a2: "fsm_state a2 = TwoWay" "tracks a2 b1 addr_b t3" "last (fsm_sent a2) = lie_pkt a2" "same_identity a1 a2"
    using hello [OF a1(1,2) c1, of t3 addr_b] by (simp_all add: a2_def Let_def del: react.simps)
  have b2: "fsm_state b2 = ThreeWay" "tracks b2 a2 addr_a t4" "same_identity b1 b2"
    using reflection' [of b1 a2 addr_a t2 addr_b t3 t4] b1 a2 compatible_sym [OF c1]
    by (simp_all add: b2_def Let_def adjacent_def compatible_frame tracks_frame del: react.simps)
  have b3: "fsm_state b3 = ThreeWay" "tracks b3 a2 addr_a t4" "last (fsm_sent b3) = lie_pkt b3" "same_identity b2 b3"
    using tick_tracks [OF b2(2) _ assms(6)] b2(1) by (simp_all add: b3_def Let_def adjacent_def del: react.simps)
  have id: "same_identity b1 b3" "same_identity b b3" "same_identity a1 a2"
    using a2(4) b1(4) b2(3) b3(4) same_identity_trans by blast+
  have t: "tracks a2 b3 addr_b t3" using a2(2) tracks_frame [OF id(1)] by blast
  have c: "compatible a2 b3" using c1 compatible_frame(1) [OF a2(4)] compatible_frame(2) [OF id(1)] by blast
  have a3: "fsm_state a3 = ThreeWay" "tracks a3 b3 addr_b t6"
    using reflection' [OF t _ c b3(2), of t6] a2(1) by (simp_all add: a3_def Let_def adjacent_def del: react.simps)
  have "a' = a3" "b' = b3"
    using assms(7) a1(3) b1(3) a2(3) b3(3)
    by (simp_all add: handshake_def Let_def defs [symmetric] del: react.simps)
  then show "fsm_state a' = ThreeWay" "fsm_state b' = ThreeWay" "tracks a' b addr_b t6" "tracks b' a addr_a t4"
    using a3 b3(1,2) tracks_frame [OF id(2)] tracks_frame [OF id(3)] tracks_frame [OF a1(4)] by blast+
qed
section \<open>Properties\<close>

text \<open>
  C6 \<^bold>\<open>The queue-driven machine is the one-step specification.\<close> From \<open>NewFSM\<close>, any run of
  the interface goroutine - ticks and received packets in any order, with any clock readings - leaves
  the machine that processes its internal event queue in exactly the state, with exactly the packets
  sent and notifications published, that the specification without a queue gives.
\<close>

theorem fsm_refines_spec:
  "Run inputs (NewFSM systemID level nodeName ifName localID t0) =
   fold react_spec inputs (NewFSM systemID level nodeName ifName localID t0)"
proof -
  have "Run inputs f = fold react_spec inputs f" if "lie_inv f" for f
    using that
  proof (induction inputs arbitrary: f)
    case (Cons i inputs)
    then have "react i f = react_spec i f" by (simp add: react_refines lie_inv_def)
    then show ?case using Cons.IH [OF react_inv [OF Cons.prems, of i]] by simp
  qed simp
  then show ?thesis by (simp add: NewFSM_inv)
qed

text \<open>
  C15 \<^bold>\<open>The adjacency invariant.\<close> After any run from \<open>NewFSM\<close>: the event queue is drained; in
  \<open>OneWay\<close> there is no neighbor; the neighbor is never this node itself nor the illegal system id;
  the last notification on the channel names the current state; and every notification names this
  interface and carries a neighbor exactly when the state is not \<open>OneWay\<close>.
\<close>

theorem adjacency_invariant:
  fixes inputs systemID level nodeName ifName localID t0
  defines "f \<equiv> Run inputs (NewFSM systemID level nodeName ifName localID t0)"
  shows "fsm_eventQueue f = [] \<and> (fsm_state f = OneWay \<longrightarrow> fsm_neighbor f = None) \<and> no_self f \<and>
    published f \<and> events_ok f"
  unfolding f_def using Run_inv [OF NewFSM_inv] by (simp add: inv_defs)

text \<open>
  C28 \<^bold>\<open>Nothing is claimed that was not heard.\<close> In any run from \<open>NewFSM\<close>, every LIE this node
  sends that reflects a neighbor \<open>(s, l)\<close> is preceded by a received LIE of version 8 from \<open>s\<close> with
  link id \<open>l\<close>, and a \<open>ThreeWay\<close> notification names only a neighbor that sent a LIE reflecting
  this node's system id and link id.
\<close>

theorem nothing_unheard:
  fixes inputs systemID level nodeName ifName localID t0
  defines "f \<equiv> Run inputs (NewFSM systemID level nodeName ifName localID t0)"
  shows "(\<forall>pkt \<in> set (fsm_sent f). sent_ok (set inputs) f pkt) \<and>
    (\<forall>ev \<in> set (fsm_stateChangeCh f). \<forall>n. ae_State ev = ThreeWay \<longrightarrow> ae_Neighbor ev = Some n \<longrightarrow>
       reflected_by (set inputs) (ns_SystemID n) f)"
  unfolding f_def using justified_Run [OF NewFSM_inv justified_NewFSM subset_refl]
  by (auto simp: justified_def)

text \<open>
  C14 \<^bold>\<open>ThreeWay is entered in one way only.\<close> A machine between two calls enters \<open>ThreeWay\<close> only
  out of \<open>TwoWay\<close>, on a LIE of version 8 from the tracked neighbor at its known address and level,
  with an acceptable MTU and level, that reflects this node's system id and link id. No tick enters it.
\<close>

theorem ThreeWay_entry:
  assumes "fsm_stable f" and "fsm_state (react i f) = ThreeWay" and "fsm_state f \<noteq> ThreeWay"
  shows "fsm_state f = TwoWay \<and> (\<exists>t pkt src lie n l. i = Packet_at t pkt src \<and>
    pc_LIE (pp_Content pkt) = Some lie \<and> foreign_header (pp_Header pkt) f \<and>
    acceptable_level (pp_Header pkt) lie f = Some l \<and> fsm_neighbor f = Some n \<and>
    ns_SystemID n = ph_Sender (pp_Header pkt) \<and> ns_Level n = l \<and> ns_Address n = src \<and>
    lie_Neighbor lie = Some \<lparr>nb_Originator = fsm_systemID f, nb_RemoteID = fsm_localID f\<rparr>)"
proof (cases i)
  case (Tick_at t)
  with assms tick_enters [of "f\<lparr>fsm_now := t\<rparr>"] show ?thesis
    by (simp add: react_refines del: react.simps)
next
  case (Packet_at t pkt src)
  show ?thesis
  proof (cases "pc_LIE (pp_Content pkt)")
    case None
    with assms Packet_at show ?thesis by (simp add: react_refines del: react.simps)
  next
    case (Some lie)
    let ?f = "with_pending pkt lie src (f\<lparr>fsm_now := t\<rparr>)"
    have frame: "fsm_state ?f = fsm_state f" "fsm_neighbor ?f = fsm_neighbor f"
      "fsm_systemID ?f = fsm_systemID f" "fsm_localID ?f = fsm_localID f" "fsm_level ?f = fsm_level f"
      by (simp_all add: with_pending_def)
    have "fsm_state (handle_spec (pp_Header pkt) lie src ?f) = ThreeWay" "fsm_state ?f \<noteq> ThreeWay"
      using assms Packet_at Some frame by (simp_all add: react_refines del: react.simps)
    moreover have "foreign_header h ?f = foreign_header h f" "acceptable_level h lie ?f = acceptable_level h lie f" for h
      by (simp_all add: frame foreign_header_def acceptable_level_def cong: option.case_cong)
    ultimately show ?thesis
      using handle_enters_ThreeWay [of "pp_Header pkt" lie src ?f] Packet_at Some by (auto simp: frame reflects_def)
  qed
qed

text \<open>
  C16 \<^bold>\<open>Silence ends the adjacency.\<close> Once the last LIE, of holdtime \<open>h > 0\<close> seconds, was
  received at \<open>t0\<close>, ticks up to \<open>t0 + h\<close> keep an adjacency (\<open>TwoWay\<close> or \<open>ThreeWay\<close>) and its
  neighbor and publish nothing; the first tick after that ends in \<open>OneWay\<close> without neighbor and
  publishes it once.
\<close>

theorem silence_ends_adjacency:
  assumes "lie_inv f" and "fsm_state f \<in> {TwoWay, ThreeWay}" and "fsm_lastLIERcvd f = Some t0"
    and "fsm_neighborHoldtime f = h" and "h \<noteq> 0" and "\<forall>t \<in> set ts. t \<le> t0 + h" and "t0 + h < t1"
  shows "fsm_state (Run (map Tick_at ts) f) = fsm_state f \<and> fsm_neighbor (Run (map Tick_at ts) f) = fsm_neighbor f \<and>
    fsm_stateChangeCh (Run (map Tick_at ts) f) = fsm_stateChangeCh f \<and>
    (let g = Run (map Tick_at ts @ [Tick_at t1]) f in
       fsm_state g = OneWay \<and> fsm_neighbor g = None \<and>
       fsm_stateChangeCh g = fsm_stateChangeCh f @
         [\<lparr>ae_InterfaceName = fsm_ifName f, ae_State = OneWay, ae_Neighbor = None\<rparr>])"
proof -
  have adj: "adjacent f" using assms(2) by (simp add: adjacent_def)
  let ?g = "Run (map Tick_at ts) f"
  have ts: "\<forall>t \<in> set ts. t - t0 \<le> h" using assms(6) by auto
  note g = ticks_silent [OF assms(1) adj assms(3,4,5) ts, unfolded Let_def]
  have "adjacent ?g" using g adj by (simp add: adjacent_def)
  then have "react (Tick_at t1) ?g = enterState OneWay (sendLIE (?g\<lparr>fsm_now := t1\<rparr>))"
    using g assms(5,7) tick_expires [of ?g t0 h t1] by simp
  then show ?thesis
    using g by (simp add: Run_append Let_def same_identity_def fsm_procs del: react.simps)
qed

text \<open>
  \<^bold>\<open>Waiting for several neighbors lasts until the deadline.\<close> In \<open>MultipleNeighborsWait\<close> with
  deadline \<open>d\<close>, no packet and no tick up to \<open>d\<close> changes the state, sends or publishes anything;
  the first tick after \<open>d\<close> ends in \<open>OneWay\<close>.
\<close>

theorem multiple_neighbors_wait:
  assumes "fsm_stable f" and "fsm_state f = MultipleNeighborsWait" and "fsm_multipleNeighborsDeadline f = Some d"
    and "\<forall>i \<in> set inputs. input_time i \<le> d" and "d < t1"
  shows "fsm_state (Run inputs f) = MultipleNeighborsWait \<and> fsm_sent (Run inputs f) = fsm_sent f \<and>
    fsm_stateChangeCh (Run inputs f) = fsm_stateChangeCh f \<and>
    fsm_state (Run (inputs @ [Tick_at t1]) f) = OneWay"
proof -
  have w: "waiting d f" using assms(1-3) by (simp add: waiting_def)
  note r = waiting_Run [OF w assms(4)]
  moreover have "react (Tick_at t1) (Run inputs f) = enterState OneWay ((Run inputs f)\<lparr>fsm_now := t1\<rparr>)"
    using r assms(5) waiting_done by blast
  ultimately show ?thesis
    by (simp add: Run_append waiting_def del: react.simps)
qed
text \<open>
  C17 \<^bold>\<open>Two nodes become adjacent.\<close> Two machines in \<open>OneWay\<close> with different, legal system ids and
  levels acceptable to each other reach \<open>ThreeWay\<close> on both sides, each tracking the other, when
  the LIEs of the exchange are delivered: a tick of the first, the LIE and its answers, and one tick of
  the second within the holdtime.
\<close>

theorem handshake_completes:
  assumes "lie_inv a" and "lie_inv b" and "fsm_state a = OneWay" and "fsm_state b = OneWay"
    and "fsm_systemID a \<noteq> fsm_systemID b" and "fsm_systemID a \<noteq> IllegalSystemID"
    and "fsm_systemID b \<noteq> IllegalSystemID" and "levelAcceptable (fsm_level a) (fsm_level b)"
    and "t5 \<le> t4 + 3 * Second"
    and "handshake a b addr_a addr_b t1 t2 t3 t4 t5 t6 = (a', b')"
  shows "fsm_state a' = ThreeWay \<and> fsm_state b' = ThreeWay \<and> tracks a' b addr_b t6 \<and> tracks b' a addr_a t4"
  using handshake_ok [OF assms(1-4) _ _ assms(10)] assms(5-9) by (simp add: compatible_def)

text \<open>
  C34 \<^bold>\<open>A LIE with a foreign version strands the adjacency.\<close> On a LIE whose header has another major
  version, this node's own system id or the illegal one, the machine deletes the neighbor and clears the
  holdtime but stays in \<open>TwoWay\<close> or \<open>ThreeWay\<close> and publishes nothing; no number of ticks ends
  that state afterwards.
\<close>

theorem foreign_version_strands:
  assumes "lie_inv f" and "fsm_state f \<in> {TwoWay, ThreeWay}" and "pc_LIE (pp_Content pkt) = Some lie"
    and "ph_MajorVersion (pp_Header pkt) \<noteq> ProtocolMajorVersion \<or> ph_Sender (pp_Header pkt) = fsm_systemID f \<or>
      ph_Sender (pp_Header pkt) = IllegalSystemID"
  shows "let g = Run (Packet_at t pkt src # map Tick_at ts) f in
    fsm_state g = fsm_state f \<and> fsm_neighbor g = None \<and> fsm_stateChangeCh g = fsm_stateChangeCh f"
proof -
  let ?g = "react (Packet_at t pkt src) f"
  let ?f = "with_pending pkt lie src (f\<lparr>fsm_now := t\<rparr>)"
  have "\<not> foreign_header (pp_Header pkt) ?f"
    using assms(4) by (auto simp: foreign_header_def with_pending_def)
  moreover have "fsm_state ?f = fsm_state f" by (simp add: with_pending_def)
  moreover have "fsm_state f \<noteq> MultipleNeighborsWait" using assms(2) by auto
  ultimately have "?g = cleanup ?f"
    using assms(1,3) by (subst react_refines) (simp_all add: lie_inv_def handle_spec_def)
  then have g: "fsm_state ?g = fsm_state f" "fsm_neighbor ?g = None" "fsm_neighborHoldtime ?g = 0"
    "fsm_stateChangeCh ?g = fsm_stateChangeCh f" "lie_inv ?g"
    using react_inv [OF assms(1), of "Packet_at t pkt src"] by (simp_all add: cleanup_def with_pending_def)
  then show ?thesis
    using ticks_stuck [OF g(5) _ g(3), of ts] assms(2) by (simp add: adjacent_def Let_def del: react.simps)
qed

section \<open>Witnesses\<close>

definition ex_a :: FSM where "ex_a = NewFSM 1 0 ''leaf'' ''ethernet-1/1'' 10 0"
definition ex_b :: FSM where "ex_b = NewFSM 2 1 ''spine'' ''ethernet-1/2'' 20 0"

definition ex_two :: FSM where
  "ex_two = ex_a\<lparr>fsm_state := TwoWay, fsm_lastLIERcvd := Some 0, fsm_neighborHoldtime := 3 * Second,
     fsm_neighbor := Some \<lparr>ns_SystemID = 2, ns_Level = 1, ns_LinkID = 20, ns_Address = Addr4 7, ns_Name = ''spine'',
       ns_FloodPort = 915, ns_Holdtime = 3\<rparr>,
     fsm_stateChangeCh := [\<lparr>ae_InterfaceName = ''ethernet-1/1'', ae_State = TwoWay, ae_Neighbor = Some
       \<lparr>ns_SystemID = 2, ns_Level = 1, ns_LinkID = 20, ns_Address = Addr4 7, ns_Name = ''spine'',
        ns_FloodPort = 915, ns_Holdtime = 3\<rparr>\<rparr>]\<rparr>"

definition ex_lie :: "VersionType \<Rightarrow> ProtocolPacket" where
  "ex_lie v = \<lparr>pp_Header = \<lparr>ph_MajorVersion = v, ph_MinorVersion = 0, ph_Sender = 2, ph_Level = Some 1\<rparr>,
     pp_Content = zero_PacketContent\<lparr>pc_LIE := Some (zero_LIEPacket\<lparr>lie_LocalID := 20, lie_Holdtime := 3,
       lie_Neighbor := Some \<lparr>nb_Originator = 1, nb_RemoteID = 10\<rparr>\<rparr>)\<rparr>\<rparr>"

lemma ex_two_inv: "lie_inv ex_two" "fsm_state ex_two = TwoWay"
  by (simp_all add: inv_defs ex_two_def ex_a_def NewFSM_def)

lemma ex_ThreeWay: "fsm_state (react (Packet_at 5 (ex_lie 8) (Addr4 7)) ex_two) = ThreeWay"
  using ex_two_inv(1)
  by (simp add: react_refines lie_inv_def del: react.simps)
    (simp add: ex_lie_def ex_two_def ex_a_def NewFSM_def handle_spec_def with_pending_def foreign_header_def
      acceptable_level_def levelAcceptable_def heard_def reflects_def zero_LIEPacket_def)

theorem ThreeWay_entry_witness:
  "lie_Neighbor (the (pc_LIE (pp_Content (ex_lie 8)))) = Some \<lparr>nb_Originator = 1, nb_RemoteID = 10\<rparr> \<and>
   foreign_header (pp_Header (ex_lie 8)) ex_two"
  using ThreeWay_entry [OF _ ex_ThreeWay] ex_two_inv
  by (auto simp: lie_inv_def ex_two_def ex_a_def NewFSM_def)

theorem silence_ends_adjacency_witness:
  "fsm_state (Run [Tick_at 1000000000, Tick_at 3000000000, Tick_at 4000000000] ex_two) = OneWay"
  using silence_ends_adjacency [of ex_two 0 "3 * Second" "[1000000000, 3000000000]" 4000000000] ex_two_inv
  by (simp add: Let_def ex_two_def del: react.simps)

theorem multiple_neighbors_wait_witness:
  "fsm_state (Run [Packet_at 5 (ex_lie 8) (Addr4 7), Tick_at 13000000000]
     (ex_a\<lparr>fsm_state := MultipleNeighborsWait, fsm_multipleNeighborsDeadline := Some 12000000000\<rparr>)) = OneWay"
  using multiple_neighbors_wait [of "ex_a\<lparr>fsm_state := MultipleNeighborsWait,
      fsm_multipleNeighborsDeadline := Some 12000000000\<rparr>" 12000000000
      "[Packet_at 5 (ex_lie 8) (Addr4 7)]" 13000000000]
  by (simp add: ex_a_def NewFSM_def fsm_stable_def del: react.simps)

theorem handshake_completes_witness:
  "fsm_state (fst (handshake ex_a ex_b (Addr4 1) (Addr4 2) 0 1 2 3 1000000000 1000000001)) = ThreeWay"
proof -
  have "lie_inv ex_a" "lie_inv ex_b" "levelAcceptable (fsm_level ex_a) (fsm_level ex_b)"
    by (simp_all add: ex_a_def ex_b_def NewFSM_inv levelAcceptable_def) (simp_all add: NewFSM_def)
  note inv = this
  have st: "fsm_state ex_a = OneWay" "fsm_state ex_b = OneWay" "fsm_systemID ex_a \<noteq> fsm_systemID ex_b"
    "fsm_systemID ex_a \<noteq> IllegalSystemID" "fsm_systemID ex_b \<noteq> IllegalSystemID"
    by (simp_all add: ex_a_def ex_b_def NewFSM_def)
  have "(1000000000 :: int) \<le> 3 + 3 * Second" by simp
  from handshake_completes [OF inv(1,2) st inv(3) this prod.collapse [symmetric]]
  show ?thesis by blast
qed

theorem foreign_version_strands_witness:
  "fsm_state (Run (Packet_at 5 (ex_lie 7) (Addr4 7) # map Tick_at [10000000000, 900000000000]) ex_two) = TwoWay"
  using foreign_version_strands [OF ex_two_inv(1), of "ex_lie 7" _ 5 "Addr4 7" "[10000000000, 900000000000]"]
    ex_two_inv(2)
  by (simp add: ex_lie_def Let_def del: react.simps Run_simps list.map)

theorem adjacency_invariant_witness:
  "published (Run [Tick_at 1, Packet_at 5 (ex_lie 8) (Addr4 7)] (NewFSM 1 0 ''leaf'' ''ethernet-1/1'' 10 0))"
  using adjacency_invariant [of "[Tick_at 1, Packet_at 5 (ex_lie 8) (Addr4 7)]" 1 0 "''leaf''" "''ethernet-1/1''" 10 0]
  by blast

theorem nothing_unheard_witness:
  "sent_ok {Tick_at 1} (Run [Tick_at 1] (NewFSM 1 0 ''leaf'' ''ethernet-1/1'' 10 0))
     (lie_pkt (NewFSM 1 0 ''leaf'' ''ethernet-1/1'' 10 0))"
proof -
  let ?f = "NewFSM 1 0 ''leaf'' ''ethernet-1/1'' 10 0"
  have "Run [Tick_at 1] ?f = sendLIE (?f\<lparr>fsm_now := 1\<rparr>)"
    using bare_hello [OF NewFSM_inv, of 1 0 "''leaf''" "''ethernet-1/1''" 10 0 1] by (simp add: NewFSM_def)
  then have "lie_pkt ?f \<in> set (fsm_sent (Run [Tick_at 1] ?f))"
    by (simp add: sendLIE_pkt)
  then show ?thesis
    using nothing_unheard [of "[Tick_at 1]" 1 0 "''leaf''" "''ethernet-1/1''" 10 0] by simp
qed

end
