(* ===== verification/Thrift_Wire.thy ===== *)
theory Thrift_Wire
  imports Rift_Types
begin

text \<open>
  The Thrift binary protocol of \<open>src/internal/encoding/codec.go\<close>: the primitive writers and
  readers, field headers, \<open>skip\<close>, and the two loop shapes every struct decoder has.

  A writer is the list of the bytes it writes (the encoder writes to a \<open>bytes.Buffer\<close>, whose
  writes do not fail). A reader takes the remaining input and returns an error, or the value and
  the input that is left. The loops check that the input gets shorter; the check stands for
  nothing in the Go code, and the locale \<open>reader\<close> shows that it never fails: \<open>Stuck\<close> is not a
  result of any reader.
\<close>

section \<open>Errors and writers\<close>

datatype codec_error =
    EOF
  | UnexpectedEOF
  | CollectionLength int32
  | StringLength int32
  | UnknownType byte
  | NoVariantSet
  | BadMagic int16
  | Stuck

abbreviation (input) thriftTypeStop :: byte where "thriftTypeStop \<equiv> 0"
abbreviation (input) thriftTypeBool :: byte where "thriftTypeBool \<equiv> 2"
abbreviation (input) thriftTypeByte :: byte where "thriftTypeByte \<equiv> 3"
abbreviation (input) thriftTypeI16 :: byte where "thriftTypeI16 \<equiv> 6"
abbreviation (input) thriftTypeI32 :: byte where "thriftTypeI32 \<equiv> 8"
abbreviation (input) thriftTypeI64 :: byte where "thriftTypeI64 \<equiv> 10"
abbreviation (input) thriftTypeString :: byte where "thriftTypeString \<equiv> 11"
abbreviation (input) thriftTypeStruct :: byte where "thriftTypeStruct \<equiv> 12"
abbreviation (input) thriftTypeMap :: byte where "thriftTypeMap \<equiv> 13"
abbreviation (input) thriftTypeSet :: byte where "thriftTypeSet \<equiv> 14"
abbreviation (input) thriftTypeList :: byte where "thriftTypeList \<equiv> 15"

abbreviation (input) maxRIFTCollectionSize :: int32 where "maxRIFTCollectionSize \<equiv> 10000"
abbreviation (input) maxStringSize :: int32 where "maxStringSize \<equiv> 1048576"

text \<open>Big-endian bytes of a word, and back.\<close>

definition be_bytes :: "nat \<Rightarrow> 'a::len word \<Rightarrow> byte list" where
  "be_bytes n w = map (\<lambda>i. ucast (drop_bit (8 * i) w)) (rev [0..<n])"

definition be_word :: "byte list \<Rightarrow> 'a::len word" where
  "be_word bs = word_of_int (foldl (\<lambda>acc b. acc * 256 + uint b) 0 bs)"

definition writeByte :: "byte \<Rightarrow> byte list" where
  "writeByte v = [v]"

definition writeI16 :: "int16 \<Rightarrow> byte list" where
  "writeI16 v = be_bytes 2 v"

definition writeI32 :: "int32 \<Rightarrow> byte list" where
  "writeI32 v = be_bytes 4 v"

definition writeI64 :: "int64 \<Rightarrow> byte list" where
  "writeI64 v = be_bytes 8 v"

definition writeBool :: "bool \<Rightarrow> byte list" where
  "writeBool v = (if v then writeByte 1 else writeByte 0)"

text \<open>The bytes of a Go string, and the conversion of bytes to a string.\<close>

definition string_bytes :: "string \<Rightarrow> byte list" where
  "string_bytes s = map (\<lambda>c. word_of_nat (of_char c)) s"

definition bytes_string :: "byte list \<Rightarrow> string" where
  "bytes_string bs = map (\<lambda>b. char_of (unat b)) bs"

definition writeBinary :: "byte list \<Rightarrow> byte list" where
  "writeBinary v = writeI32 (of_nat (length v)) @ v"

definition writeString :: "string \<Rightarrow> byte list" where
  "writeString v = writeI32 (of_nat (length v)) @ string_bytes v"

definition writeFieldHeader :: "byte \<Rightarrow> int16 \<Rightarrow> byte list" where
  "writeFieldHeader fieldType fieldID = writeByte fieldType @ writeI16 fieldID"

definition writeFieldStop :: "byte list" where
  "writeFieldStop = writeByte thriftTypeStop"

section \<open>Readers\<close>

type_synonym 'a reader = "byte list \<Rightarrow> codec_error + ('a \<times> byte list)"

text \<open>\<open>io.ReadFull\<close>: all \<open>n\<close> bytes or an error.\<close>

definition readFull :: "nat \<Rightarrow> byte list reader" where
  "readFull n bs =
     (if n \<le> length bs then Inr (take n bs, drop n bs)
      else if bs = [] then Inl EOF else Inl UnexpectedEOF)"

definition rmap :: "('a \<Rightarrow> 'b) \<Rightarrow> codec_error + ('a \<times> byte list) \<Rightarrow> codec_error + ('b \<times> byte list)" where
  "rmap f r = rbind r (\<lambda>(v, bs). Inr (f v, bs))"

definition readByte :: "byte reader" where
  "readByte bs = rmap hd (readFull 1 bs)"

definition readI16 :: "int16 reader" where
  "readI16 bs = rmap be_word (readFull 2 bs)"

definition readI32 :: "int32 reader" where
  "readI32 bs = rmap be_word (readFull 4 bs)"

definition readI64 :: "int64 reader" where
  "readI64 bs = rmap be_word (readFull 8 bs)"

definition readBool :: "bool reader" where
  "readBool bs = rmap (\<lambda>b. b \<noteq> 0) (readByte bs)"

definition readCollectionLen :: "int32 \<Rightarrow> int32 reader" where
  "readCollectionLen limit bs = rbind (readI32 bs) (\<lambda>(n, bs).
     if slt n 0 \<or> slt limit n then Inl (CollectionLength n) else Inr (n, bs))"

definition readBinary :: "byte list reader" where
  "readBinary bs = rbind (readI32 bs) (\<lambda>(n, bs).
     if slt n 0 \<or> slt maxStringSize n then Inl (StringLength n) else readFull (nat (sint n)) bs)"

definition readString :: "string reader" where
  "readString bs = rbind (readI32 bs) (\<lambda>(n, bs).
     if slt n 0 \<or> slt maxStringSize n then Inl (StringLength n)
     else rmap bytes_string (readFull (nat (sint n)) bs))"

definition readFieldHeader :: "(byte \<times> int16) reader" where
  "readFieldHeader bs = rbind (readByte bs) (\<lambda>(ftype, bs).
     if ftype = thriftTypeStop then Inr ((thriftTypeStop, 0), bs)
     else rmap (\<lambda>fid. (ftype, fid)) (readI16 bs))"

section \<open>Skipping a value of any type\<close>

text \<open>
  \<open>skip\<close> with its three loops: the fields of a struct, the entries of a map, the elements of a
  set or list. A count is an \<open>int32\<close>; a negative one runs the loop zero times.
\<close>

function (sequential) skip :: "byte \<Rightarrow> unit reader"
  and skip_fields :: "unit reader"
  and skip_entries :: "byte \<Rightarrow> byte \<Rightarrow> nat \<Rightarrow> unit reader"
  and skip_elems :: "byte \<Rightarrow> nat \<Rightarrow> unit reader" where
  "skip ftype bs =
     (if ftype = thriftTypeBool \<or> ftype = thriftTypeByte then rmap (\<lambda>_. ()) (readByte bs)
      else if ftype = thriftTypeI16 then rmap (\<lambda>_. ()) (readI16 bs)
      else if ftype = thriftTypeI32 then rmap (\<lambda>_. ()) (readI32 bs)
      else if ftype = thriftTypeI64 then rmap (\<lambda>_. ()) (readI64 bs)
      else if ftype = thriftTypeString then rmap (\<lambda>_. ()) (readBinary bs)
      else if ftype = thriftTypeStruct then skip_fields bs
      else if ftype = thriftTypeMap then
        (case readByte bs of Inl e \<Rightarrow> Inl e | Inr (kt, bs1) \<Rightarrow>
         case readByte bs1 of Inl e \<Rightarrow> Inl e | Inr (vt, bs2) \<Rightarrow>
         case readI32 bs2 of Inl e \<Rightarrow> Inl e | Inr (n, bs3) \<Rightarrow>
           if length bs3 < length bs then skip_entries kt vt (nat (sint n)) bs3 else Inl Stuck)
      else if ftype = thriftTypeSet \<or> ftype = thriftTypeList then
        (case readByte bs of Inl e \<Rightarrow> Inl e | Inr (et, bs1) \<Rightarrow>
         case readI32 bs1 of Inl e \<Rightarrow> Inl e | Inr (n, bs2) \<Rightarrow>
           if length bs2 < length bs then skip_elems et (nat (sint n)) bs2 else Inl Stuck)
      else Inl (UnknownType ftype))"
| "skip_fields bs =
     (case readFieldHeader bs of Inl e \<Rightarrow> Inl e | Inr ((ft, _), bs1) \<Rightarrow>
        if ft = thriftTypeStop then Inr ((), bs1)
        else if length bs1 < length bs then
          (case skip ft bs1 of Inl e \<Rightarrow> Inl e | Inr (_, bs2) \<Rightarrow>
             if length bs2 < length bs then skip_fields bs2 else Inl Stuck)
        else Inl Stuck)"
| "skip_entries kt vt 0 bs = Inr ((), bs)"
| "skip_entries kt vt (Suc n) bs =
     (case skip kt bs of Inl e \<Rightarrow> Inl e | Inr (_, bs1) \<Rightarrow>
        if length bs1 < length bs then
          (case skip vt bs1 of Inl e \<Rightarrow> Inl e | Inr (_, bs2) \<Rightarrow>
             if length bs2 < length bs then skip_entries kt vt n bs2 else Inl Stuck)
        else Inl Stuck)"
| "skip_elems et 0 bs = Inr ((), bs)"
| "skip_elems et (Suc n) bs =
     (case skip et bs of Inl e \<Rightarrow> Inl e | Inr (_, bs1) \<Rightarrow>
        if length bs1 < length bs then skip_elems et n bs1 else Inl Stuck)"
  by pat_completeness auto
termination
  by (relation "measure (\<lambda>x. case x of
        Inl (Inl (_, bs)) \<Rightarrow> 3 * length bs + 1
      | Inl (Inr bs) \<Rightarrow> 3 * length bs
      | Inr (Inl (_, _, _, bs)) \<Rightarrow> 3 * length bs + 2
      | Inr (Inr (_, _, bs)) \<Rightarrow> 3 * length bs + 2)") auto

declare skip.simps [simp del] skip_fields.simps [simp del]

section \<open>The loops of the struct decoders\<close>

text \<open>
  \<open>for { ftype, fid, err := d.readFieldHeader(); ...; switch fid { ... } }\<close> over the struct that
  is being filled; \<open>step\<close> is the \<open>switch\<close>.
\<close>

function decode_loop ::
  "(byte \<Rightarrow> int16 \<Rightarrow> 's \<Rightarrow> 's reader) \<Rightarrow> 's \<Rightarrow> 's reader"
where
  "decode_loop step s bs =
     (case readFieldHeader bs of Inl e \<Rightarrow> Inl e | Inr ((ftype, fid), bs1) \<Rightarrow>
        if ftype = thriftTypeStop then Inr (s, bs1)
        else (case step ftype fid s bs1 of Inl e \<Rightarrow> Inl e | Inr (s', bs2) \<Rightarrow>
          if length bs2 < length bs then decode_loop step s' bs2 else Inl Stuck))"
  by pat_completeness auto
termination
  by (relation "measure (\<lambda>(_, _, bs). length bs)") auto

declare decode_loop.simps [simp del]

text \<open>\<open>for i := 0; i < n; i++\<close> over elements that are read one after the other.\<close>

fun decode_n :: "nat \<Rightarrow> 'a reader \<Rightarrow> 'a list reader" where
  "decode_n 0 d bs = Inr ([], bs)"
| "decode_n (Suc n) d bs = rbind (d bs) (\<lambda>(x, bs). rmap (\<lambda>xs. x # xs) (decode_n n d bs))"

definition read_pair :: "'a reader \<Rightarrow> 'b reader \<Rightarrow> ('a \<times> 'b) reader" where
  "read_pair ra rb bs = rbind (ra bs) (\<lambda>(a, bs). rmap (\<lambda>b. (a, b)) (rb bs))"

text \<open>A set or list: element type, length, elements; a map: key type, value type, length, entries.\<close>

definition read_list :: "'a reader \<Rightarrow> 'a list reader" where
  "read_list d bs = rbind (readByte bs) (\<lambda>(_, bs).
     rbind (readCollectionLen maxRIFTCollectionSize bs) (\<lambda>(n, bs). decode_n (nat (sint n)) d bs))"

definition read_map :: "'a reader \<Rightarrow> 'b reader \<Rightarrow> ('a \<times> 'b) list reader" where
  "read_map ra rb bs = rbind (readByte bs) (\<lambda>(_, bs). read_list (read_pair ra rb) bs)"

definition skip_field :: "byte \<Rightarrow> 's \<Rightarrow> 's reader" where
  "skip_field ftype s bs = rmap (\<lambda>_. s) (skip ftype bs)"


section \<open>What is written is read back\<close>

lemma be_fold:
  fixes w :: "'a::len word"
  shows "foldl (\<lambda>acc b. acc * 256 + uint b) a (be_bytes n w) = a * 256 ^ n + take_bit (8 * n) (uint w)"
proof (induction n arbitrary: a)
  case (Suc n)
  have split: "take_bit (8 * Suc n) x = take_bit 8 (drop_bit (8 * n) x) * 256 ^ n + take_bit (8 * n) x" for x :: int
  proof -
    have p: "(2::int) ^ (8 * n) = 256 ^ n" "(2::int) ^ (8 * Suc n) = 256 ^ n * 256"
      by (simp_all add: power_add power_mult)
    have "x mod (256 ^ n * 256) = 256 ^ n * (x div 256 ^ n mod 256) + x mod 256 ^ n"
      by (rule zmod_zmult2_eq) simp
    then show ?thesis
      by (simp only: take_bit_eq_mod drop_bit_eq_div p) (simp add: mult.commute)
  qed
  have byte: "uint (ucast (drop_bit (8 * n) w) :: byte) = take_bit 8 (drop_bit (8 * n) (uint w))"
    by (simp add: unsigned_ucast_eq take_bit_word_eq_self unsigned_drop_bit_eq take_bit_int_eq_self)
  have "foldl (\<lambda>acc b. acc * 256 + uint b) a (be_bytes (Suc n) w) =
      foldl (\<lambda>acc b. acc * 256 + uint b) (a * 256 + take_bit 8 (drop_bit (8 * n) (uint w))) (be_bytes n w)"
    using byte by (simp add: be_bytes_def)
  also have "\<dots> = a * 256 ^ Suc n + take_bit (8 * Suc n) (uint w)"
    unfolding Suc.IH split by (simp add: algebra_simps)
  finally show ?case .
qed (simp add: be_bytes_def)

lemma be_word_bytes: "LENGTH('a::len) = 8 * n \<Longrightarrow> be_word (be_bytes n (w :: 'a word)) = w"
proof -
  assume n: "LENGTH('a) = 8 * n"
  have "take_bit (8 * n) (uint w) = uint w"
    using uint_bounded [of w] n by (simp add: take_bit_int_eq_self)
  then show ?thesis by (simp add: be_word_def be_fold)
qed

lemma be_bytes_length [simp]: "length (be_bytes n w) = n"
  by (simp add: be_bytes_def)


lemma rmap_simps [simp]: "rmap f (Inl e) = Inl e" "rmap f (Inr (v, bs)) = Inr (f v, bs)"
  by (simp_all add: rmap_def)

lemma readFull_app [simp]: "length p = n \<Longrightarrow> readFull n (p @ rest) = Inr (p, rest)"
  by (simp add: readFull_def)

lemma read_back [simp]:
  "readByte (writeByte b @ rest) = Inr (b, rest)"
  "readI16 (writeI16 h @ rest) = Inr (h, rest)"
  "readI32 (writeI32 w @ rest) = Inr (w, rest)"
  "readI64 (writeI64 l @ rest) = Inr (l, rest)"
  "readBool (writeBool x @ rest) = Inr (x, rest)"
  by (simp_all add: readByte_def writeByte_def readI16_def writeI16_def readI32_def writeI32_def
      readI64_def writeI64_def readBool_def writeBool_def be_word_bytes readFull_def)

lemma string_bytes_back [simp]: "bytes_string (string_bytes s) = s"
proof -
  have "char_of (unat (word_of_nat (of_char c) :: byte)) = c" for c
    by (simp add: unat_of_nat)
  then show ?thesis by (simp add: bytes_string_def string_bytes_def comp_def map_idI)
qed

lemma string_bytes_length [simp]: "length (string_bytes s) = length s"
  by (simp add: string_bytes_def)

lemma sint_of_nat32: "n < 2147483648 \<Longrightarrow> sint (word_of_nat n :: int32) = int n"
  using sint_sbintrunc' [of "int n", where 'a = 32] by (simp add: signed_take_bit_int_eq_self)

lemma readBinary_back [simp]:
  "length v \<le> 1048576 \<Longrightarrow> readBinary (writeBinary v @ rest) = Inr (v, rest)"
  by (simp add: readBinary_def writeBinary_def sint_of_nat32)

lemma readString_back [simp]:
  "length v \<le> 1048576 \<Longrightarrow> readString (writeString v @ rest) = Inr (v, rest)"
  by (simp add: readString_def writeString_def sint_of_nat32)

lemma readCollectionLen_back [simp]:
  "n \<le> 10000 \<Longrightarrow> readCollectionLen maxRIFTCollectionSize (writeI32 (word_of_nat n) @ rest) =
     Inr (word_of_nat n, rest)"
  by (simp add: readCollectionLen_def sint_of_nat32)

lemma readFieldHeader_back [simp]:
  "ft \<noteq> 0 \<Longrightarrow> readFieldHeader (writeFieldHeader ft fid @ rest) = Inr ((ft, fid), rest)"
  "readFieldHeader (writeFieldStop @ rest) = Inr ((0, 0), rest)"
  by (simp_all add: readFieldHeader_def writeFieldHeader_def writeFieldStop_def)

section \<open>Every reader consumes its input and returns\<close>

text \<open>
  The contract between the struct decoders: a reader leaves no more input than it was given, and
  never reports \<open>Stuck\<close>. A loop over such readers has it again, and its check never fails.
\<close>

locale reader =
  fixes d :: "'a reader"
  assumes shrink: "d bs = Inr (x, bs') \<Longrightarrow> length bs' \<le> length bs"
    and not_stuck: "d bs \<noteq> Inl Stuck"
begin

lemma rmap_reader: "reader (\<lambda>bs. rmap f (d bs))"
proof
  fix bs x bs'
  show "rmap f (d bs) = Inr (x, bs') \<Longrightarrow> length bs' \<le> length bs"
    using shrink by (cases "d bs") auto
  show "rmap f (d bs) \<noteq> Inl Stuck"
    using not_stuck [of bs] by (cases "d bs") auto
qed

lemma bind_reader:
  assumes "\<And>x. reader (g x)"
  shows "reader (\<lambda>bs. rbind (d bs) (\<lambda>(x, bs). g x bs))"
proof
  fix bs y bs'
  show "rbind (d bs) (\<lambda>(x, bs). g x bs) = Inr (y, bs') \<Longrightarrow> length bs' \<le> length bs"
    using shrink reader.shrink [OF assms] by (cases "d bs") (auto, meson le_trans)
  show "rbind (d bs) (\<lambda>(x, bs). g x bs) \<noteq> Inl Stuck"
    using not_stuck [of bs] reader.not_stuck [OF assms] by (cases "d bs") auto
qed

lemma decode_n_reader: "reader (decode_n n d)"
proof
  fix bs xs bs'
  show "decode_n n d bs = Inr (xs, bs') \<Longrightarrow> length bs' \<le> length bs"
  proof (induction n arbitrary: bs xs bs')
    case (Suc n)
    then obtain x b1 ys where "d bs = Inr (x, b1)" "decode_n n d b1 = Inr (ys, bs')"
      by (auto simp: rbind_eq_Inr rmap_def)
    with Suc.IH shrink show ?case by fastforce
  qed simp
  show "decode_n n d bs \<noteq> Inl Stuck"
  proof (induction n arbitrary: bs)
    case (Suc n)
    then show ?case using not_stuck [of bs] by (auto simp: rbind_eq_Inl rmap_def)
  qed simp
qed

end


named_theorems readers \<open>readers that keep the contract\<close>

interpretation full: reader "readFull n" for n
  by unfold_locales (auto simp: readFull_def split: if_splits)

lemma reader_const [readers]: "reader (\<lambda>bs. Inr (x, bs))"
  by unfold_locales simp_all

lemma reader_error: "e \<noteq> Stuck \<Longrightarrow> reader (\<lambda>bs. Inl e)"
  by unfold_locales simp_all

lemma reader_if [readers]: "reader d1 \<Longrightarrow> reader d2 \<Longrightarrow> reader (\<lambda>bs. if c then d1 bs else d2 bs)"
  by (cases c) simp_all

lemma reader_rmap [readers]: "reader d \<Longrightarrow> reader (\<lambda>bs. rmap f (d bs))"
  by (rule reader.rmap_reader)

lemma reader_rbind: "reader d \<Longrightarrow> (\<And>x. reader (g x)) \<Longrightarrow> reader (\<lambda>bs. rbind (d bs) (\<lambda>(x, bs). g x bs))"
  by (rule reader.bind_reader)

interpretation byte: reader readByte
  unfolding readByte_def by (rule full.rmap_reader)
interpretation i16: reader readI16
  unfolding readI16_def by (rule full.rmap_reader)
interpretation i32: reader readI32
  unfolding readI32_def by (rule full.rmap_reader)
interpretation i64: reader readI64
  unfolding readI64_def by (rule full.rmap_reader)
interpretation bool: reader readBool
  unfolding readBool_def by (rule byte.rmap_reader)

lemma reader_collection_len: "reader (readCollectionLen m)"
  unfolding readCollectionLen_def
  by (rule i32.bind_reader) (intro reader_if reader_const reader_error, simp)

interpretation binary: reader readBinary
  unfolding readBinary_def
  by (rule i32.bind_reader) (intro reader_if full.reader_axioms reader_error, simp)

interpretation str: reader readString
  unfolding readString_def
  by (rule i32.bind_reader) (intro reader_if full.rmap_reader reader_error, simp)

lemmas [readers] = byte.reader_axioms i16.reader_axioms i32.reader_axioms i64.reader_axioms
  bool.reader_axioms binary.reader_axioms str.reader_axioms

interpretation field_header: reader readFieldHeader
  unfolding readFieldHeader_def
  by (rule byte.bind_reader) (intro reader_if i16.rmap_reader reader_const)

lemma reader_list [readers]: "reader d \<Longrightarrow> reader (read_list d)"
  unfolding read_list_def
  by (intro reader_rbind byte.reader_axioms reader_collection_len reader.decode_n_reader)

lemma reader_pair: "reader ra \<Longrightarrow> reader rb \<Longrightarrow> reader (read_pair ra rb)"
  unfolding read_pair_def by (intro reader_rbind reader_rmap)

lemma reader_map [readers]: "reader ra \<Longrightarrow> reader rb \<Longrightarrow> reader (read_map ra rb)"
  unfolding read_map_def by (intro reader_rbind byte.reader_axioms reader_list reader_pair)

text \<open>Strictly shorter input after a primitive read.\<close>

lemma readFull_less: "readFull n bs = Inr (v, bs') \<Longrightarrow> length bs = length bs' + n"
  by (auto simp: readFull_def split: if_splits)

lemma rmap_Inr: "rmap f r = Inr (v, bs) \<longleftrightarrow> (\<exists>x. r = Inr (x, bs) \<and> v = f x)"
  by (cases r) auto

lemma read_lengths:
  "readByte bs = Inr (b, bs') \<Longrightarrow> length bs = length bs' + 1"
  "readI16 bs = Inr (h, bs') \<Longrightarrow> length bs = length bs' + 2"
  "readI32 bs = Inr (w, bs') \<Longrightarrow> length bs = length bs' + 4"
  "readI64 bs = Inr (l, bs') \<Longrightarrow> length bs = length bs' + 8"
  by (auto simp: readByte_def readI16_def readI32_def readI64_def rmap_Inr dest: readFull_less)

lemma readBinary_length: "readBinary bs = Inr (v, bs') \<Longrightarrow> length bs' < length bs"
  by (auto simp: readBinary_def rbind_eq_Inr dest!: read_lengths readFull_less split: if_splits)

lemma readFieldHeader_length: "readFieldHeader bs = Inr (h, bs') \<Longrightarrow> length bs' < length bs"
  by (auto simp: readFieldHeader_def rbind_eq_Inr rmap_Inr dest!: read_lengths split: if_splits)

text \<open>\<open>skip\<close> consumes at least one byte, its checks never fail.\<close>

definition shrinks :: "nat \<Rightarrow> codec_error + (unit \<times> byte list) \<Rightarrow> bool" where
  "shrinks n r \<longleftrightarrow> r \<noteq> Inl Stuck \<and> (\<forall>u bs. r = Inr (u, bs) \<longrightarrow> length bs < n)"

lemma shrinks_case:
  assumes "r \<noteq> Inl Stuck" and "\<And>x bs. r = Inr (x, bs) \<Longrightarrow> shrinks n (f x bs)"
  shows "shrinks n (case r of Inl e \<Rightarrow> Inl e | Inr (x, bs) \<Rightarrow> f x bs)"
  using assms by (auto simp: shrinks_def split: sum.splits)

lemma shrinks_if: "(c \<Longrightarrow> shrinks n a) \<Longrightarrow> (\<not> c \<Longrightarrow> shrinks n b) \<Longrightarrow> shrinks n (if c then a else b)"
  by simp

lemma shrinks_rmap: "r \<noteq> Inl Stuck \<Longrightarrow> (\<And>x bs. r = Inr (x, bs) \<Longrightarrow> length bs < n) \<Longrightarrow> shrinks n (rmap f r)"
  by (cases r) (auto simp: shrinks_def)

lemma shrinks_mono: "shrinks m r \<Longrightarrow> m \<le> n \<Longrightarrow> shrinks n r"
  by (fastforce simp: shrinks_def)

lemma shrinksD: "shrinks n r \<Longrightarrow> r \<noteq> Inl Stuck" "shrinks n r \<Longrightarrow> r = Inr (u, bs) \<Longrightarrow> length bs < n"
  by (simp_all add: shrinks_def)

lemma skip_shrinks:
  "shrinks (length bs) (skip ft bs)"
  "shrinks (length bs) (skip_fields bs)"
  "shrinks (Suc (length bs)) (skip_entries kt vt n bs)"
  "shrinks (Suc (length bs)) (skip_elems et n bs)"
proof (induction ft bs and bs and kt vt n bs and et n bs rule: skip_skip_fields_skip_entries_skip_elems.induct)
  case (1 ft bs)
  have map: "shrinks (length bs) (case readByte bs of Inl e \<Rightarrow> Inl e | Inr (kt, bs1) \<Rightarrow>
         case readByte bs1 of Inl e \<Rightarrow> Inl e | Inr (vt, bs2) \<Rightarrow>
         case readI32 bs2 of Inl e \<Rightarrow> Inl e | Inr (n, bs3) \<Rightarrow>
           if length bs3 < length bs then skip_entries kt vt (nat (sint n)) bs3 else Inl Stuck)"
    if "ft = thriftTypeMap"
  proof (intro shrinks_case byte.not_stuck i32.not_stuck)
    fix kt bs1 vt bs2 n bs3
    assume r: "readByte bs = Inr (kt, bs1)" "readByte bs1 = Inr (vt, bs2)" "readI32 bs2 = Inr (n, bs3)"
    then have l: "Suc (length bs3) \<le> length bs" "length bs3 < length bs" by (auto dest!: read_lengths)
    have "shrinks (Suc (length bs3)) (skip_entries kt vt (nat (sint n)) bs3)"
      using 1(2) that r l by simp
    with l show "shrinks (length bs)
        (if length bs3 < length bs then skip_entries kt vt (nat (sint n)) bs3 else Inl Stuck)"
      by (auto intro: shrinks_mono)
  qed
  have list: "shrinks (length bs) (case readByte bs of Inl e \<Rightarrow> Inl e | Inr (et, bs1) \<Rightarrow>
         case readI32 bs1 of Inl e \<Rightarrow> Inl e | Inr (n, bs2) \<Rightarrow>
           if length bs2 < length bs then skip_elems et (nat (sint n)) bs2 else Inl Stuck)"
    if "ft = thriftTypeSet \<or> ft = thriftTypeList"
  proof (intro shrinks_case byte.not_stuck i32.not_stuck)
    fix et bs1 n bs2
    assume r: "readByte bs = Inr (et, bs1)" "readI32 bs1 = Inr (n, bs2)"
    then have l: "Suc (length bs2) \<le> length bs" "length bs2 < length bs" by (auto dest!: read_lengths)
    have "shrinks (Suc (length bs2)) (skip_elems et (nat (sint n)) bs2)"
      using 1(3) that r l by auto
    with l show "shrinks (length bs)
        (if length bs2 < length bs then skip_elems et (nat (sint n)) bs2 else Inl Stuck)"
      by (auto intro: shrinks_mono)
  qed
  have prim: "shrinks (length bs) (rmap f (readByte bs))" "shrinks (length bs) (rmap g (readI16 bs))"
    "shrinks (length bs) (rmap h (readI32 bs))" "shrinks (length bs) (rmap i (readI64 bs))"
    "shrinks (length bs) (rmap j (readBinary bs))" for f g h i j
    by (rule shrinks_rmap,
        simp add: byte.not_stuck i16.not_stuck i32.not_stuck i64.not_stuck binary.not_stuck,
        fastforce dest: read_lengths readBinary_length)+
  have unknown: "shrinks n (Inl (UnknownType x))" for n x by (simp add: shrinks_def)
  have struct: "ft = thriftTypeStruct \<Longrightarrow> shrinks (length bs) (skip_fields bs)" using 1(1) by simp
  show ?case
    unfolding skip.simps [of ft bs]
    by (intro shrinks_if prim unknown) (erule struct map list)+
next
  case (2 bs)
  have head: "shrinks (length bs) (if ft = thriftTypeStop then Inr ((), bs1)
        else if length bs1 < length bs then
          (case skip ft bs1 of Inl e \<Rightarrow> Inl e | Inr (u, bs2) \<Rightarrow>
             if length bs2 < length bs then skip_fields bs2 else Inl Stuck)
        else Inl Stuck)" if h: "readFieldHeader bs = Inr ((ft, fid), bs1)" for ft fid bs1
  proof -
    have l: "length bs1 < length bs" using h by (rule readFieldHeader_length)
    show ?thesis
    proof (cases "ft = 0")
      case True
      with l show ?thesis by (simp add: shrinks_def)
    next
      case False
      have s: "shrinks (length bs1) (skip ft bs1)" using 2(1) h False l by simp
      have "shrinks (length bs) (if length bs2 < length bs then skip_fields bs2 else Inl Stuck)"
        if r: "skip ft bs1 = Inr (u, bs2)" for u bs2
      proof -
        have "length bs2 < length bs" using shrinksD(2) [OF s r] l by simp
        moreover from this have "shrinks (length bs2) (skip_fields bs2)" using 2(2) h False l r by simp
        ultimately show ?thesis by (auto intro: shrinks_mono)
      qed
      with False l shrinksD(1) [OF s] show ?thesis by (simp add: shrinks_case)
    qed
  qed
  show ?case
    unfolding skip_fields.simps [of bs]
    by (rule shrinks_case [OF field_header.not_stuck]) (auto dest: head)
next
  case (4 kt vt n bs)
  have rest: "shrinks (Suc (length bs)) (if length bs2 < length bs then skip_entries kt vt n bs2 else Inl Stuck)"
    if "skip kt bs = Inr (u, bs1)" "length bs1 < length bs" "skip vt bs1 = Inr (w, bs2)"
      "shrinks (length bs1) (skip vt bs1)" for u bs1 w bs2
  proof -
    have "length bs2 < length bs" using shrinksD(2) [OF that(4,3)] that(2) by simp
    moreover from this have "shrinks (Suc (length bs2)) (skip_entries kt vt n bs2)" using 4(3) that by simp
    ultimately show ?thesis by (auto intro: shrinks_mono)
  qed
  have s: "shrinks (length bs) (skip kt bs)" by (rule 4(1))
  have "shrinks (Suc (length bs)) (if length bs1 < length bs then
          (case skip vt bs1 of Inl e \<Rightarrow> Inl e | Inr (w, bs2) \<Rightarrow>
             if length bs2 < length bs then skip_entries kt vt n bs2 else Inl Stuck)
        else Inl Stuck)" if r: "skip kt bs = Inr (u, bs1)" for u bs1
  proof -
    have l: "length bs1 < length bs" using shrinksD(2) [OF s r] .
    moreover from this have v: "shrinks (length bs1) (skip vt bs1)" using 4(2) r by simp
    ultimately show ?thesis using rest [OF r l _ v] shrinksD(1) [OF v] by (simp add: shrinks_case)
  qed
  then show ?case
    unfolding skip_entries.simps by (intro shrinks_case shrinksD(1) [OF s]) simp
next
  case (6 et n bs)
  have s: "shrinks (length bs) (skip et bs)" by (rule 6(1))
  have "shrinks (Suc (length bs)) (if length bs1 < length bs then skip_elems et n bs1 else Inl Stuck)"
    if r: "skip et bs = Inr (u, bs1)" for u bs1
  proof -
    have l: "length bs1 < length bs" using shrinksD(2) [OF s r] .
    moreover from this have "shrinks (Suc (length bs1)) (skip_elems et n bs1)" using 6(2) r by simp
    ultimately show ?thesis by (auto intro: shrinks_mono)
  qed
  then show ?case
    unfolding skip_elems.simps by (intro shrinks_case shrinksD(1) [OF s]) simp
qed (simp_all add: shrinks_def)

interpretation skip: reader "skip ft" for ft
  using skip_shrinks(1) [of _ ft] by unfold_locales (auto simp: shrinks_def intro: less_imp_le)

lemma reader_skip_field [readers]: "reader (skip_field ft s)"
  unfolding skip_field_def by (rule skip.rmap_reader)

text \<open>The loop over the fields, for steps that keep the contract.\<close>

lemma decode_loop_step:
  assumes "\<And>ft fid s. reader (step ft fid s)"
  shows "decode_loop step s bs =
    rbind (readFieldHeader bs) (\<lambda>((ft, fid), bs1).
      if ft = thriftTypeStop then Inr (s, bs1)
      else rbind (step ft fid s bs1) (\<lambda>(s', bs2). decode_loop step s' bs2))"
proof (cases "readFieldHeader bs")
  case (Inr h)
  obtain ft fid bs1 where h: "h = ((ft, fid), bs1)" by (metis prod.exhaust)
  have "length bs2 < length bs" if "step ft fid s bs1 = Inr (s', bs2)" for s' bs2
    using reader.shrink [OF assms that] readFieldHeader_length Inr h by fastforce
  with Inr h show ?thesis
    by (subst decode_loop.simps) (auto simp: rbind_def split: sum.split)
qed (simp add: decode_loop.simps)

lemma decode_loop_reader:
  assumes "\<And>ft fid s. reader (step ft fid s)"
  shows "reader (decode_loop step s)"
proof
  fix bs x bs'
  have *: "decode_loop step s bs \<noteq> Inl Stuck \<and>
      (\<forall>x bs'. decode_loop step s bs = Inr (x, bs') \<longrightarrow> length bs' \<le> length bs)"
  proof (induction "length bs" arbitrary: s bs rule: less_induct)
    case less
    show ?case
    proof (cases "readFieldHeader bs")
      case (Inl e)
      with field_header.not_stuck [of bs] show ?thesis by (subst (1 2) decode_loop_step [OF assms]) auto
    next
      case (Inr h)
      obtain ft fid bs1 where h: "h = ((ft, fid), bs1)" by (metis prod.exhaust)
      with Inr have l: "length bs1 < length bs" by (simp add: readFieldHeader_length)
      have IH: "decode_loop step s' bs2 \<noteq> Inl Stuck \<and>
          (\<forall>x bs'. decode_loop step s' bs2 = Inr (x, bs') \<longrightarrow> length bs' \<le> length bs)"
        if "step ft fid s bs1 = Inr (s', bs2)" for s' bs2
      proof -
        have "length bs2 < length bs" using reader.shrink [OF assms that] l by simp
        with less [of bs2 s'] show ?thesis by (meson le_trans less_imp_le)
      qed
      show ?thesis
        using Inr h l IH reader.not_stuck [OF assms, of ft fid s bs1]
        by (subst (1 2) decode_loop_step [OF assms]) (auto simp: rbind_eq_Inr rbind_eq_Inl)
    qed
  qed
  then show "decode_loop step s bs = Inr (x, bs') \<Longrightarrow> length bs' \<le> length bs"
    and "decode_loop step s bs \<noteq> Inl Stuck" by auto
qed

lemma loop_stop [simp]: "decode_loop step s (writeFieldStop @ rest) = Inr (s, rest)"
  by (simp add: decode_loop.simps [of step s])

lemma loop_field [simp]:
  assumes "\<And>ft fid s. reader (step ft fid s)" and "ft \<noteq> 0"
  shows "decode_loop step s (writeFieldHeader ft fid @ bs) =
    rbind (step ft fid s bs) (\<lambda>(s', bs'). decode_loop step s' bs')"
  using assms(2) by (simp add: decode_loop_step [OF assms(1), where bs = "writeFieldHeader ft fid @ bs"])

section \<open>Optional fields and collections\<close>

text \<open>\<open>if v != nil { write the header and the value }\<close>, and the same for strings and sets.\<close>

definition opt_field :: "byte \<Rightarrow> int16 \<Rightarrow> ('a \<Rightarrow> byte list) \<Rightarrow> 'a option \<Rightarrow> byte list" where
  "opt_field ftype fid enc v =
     (case v of None \<Rightarrow> [] | Some x \<Rightarrow> writeFieldHeader ftype fid @ enc x)"

definition str_field :: "int16 \<Rightarrow> string \<Rightarrow> byte list" where
  "str_field fid v = (if v \<noteq> [] then writeFieldHeader thriftTypeString fid @ writeString v else [])"

definition writeList :: "byte \<Rightarrow> ('a \<Rightarrow> byte list) \<Rightarrow> 'a list \<Rightarrow> byte list" where
  "writeList etype enc xs = writeByte etype @ writeI32 (of_nat (length xs)) @ concat (map enc xs)"

definition set_field :: "int16 \<Rightarrow> byte \<Rightarrow> ('a \<Rightarrow> byte list) \<Rightarrow> 'a list \<Rightarrow> byte list" where
  "set_field fid etype enc xs =
     (if length xs > 0 then writeFieldHeader thriftTypeSet fid @ writeList etype enc xs else [])"

lemma decode_n_back:
  assumes "\<And>x rest. x \<in> set xs \<Longrightarrow> d (enc x @ rest) = Inr (f x, rest)"
  shows "decode_n (length xs) d (concat (map enc xs) @ rest) = Inr (map f xs, rest)"
  using assms by (induction xs) simp_all

lemma read_list_back:
  assumes "\<And>x rest. x \<in> set xs \<Longrightarrow> d (enc x @ rest) = Inr (f x, rest)" and "length xs \<le> 10000"
  shows "read_list d (writeList etype enc xs @ rest) = Inr (map f xs, rest)"
  using assms by (simp add: read_list_def writeList_def sint_of_nat32 decode_n_back)

lemma read_pair_back:
  assumes "\<And>rest. ra (ea @ rest) = Inr (a, rest)" and "\<And>rest. rb (eb @ rest) = Inr (b, rest)"
  shows "read_pair ra rb (ea @ eb @ rest) = Inr ((a, b), rest)"
  by (simp add: read_pair_def assms)

lemma read_map_back:
  assumes "\<And>x rest. x \<in> set xs \<Longrightarrow> read_pair ra rb (enc x @ rest) = Inr (f x, rest)"
    and "length xs \<le> 10000"
  shows "read_map ra rb (writeByte kt @ writeList vt enc xs @ rest) = Inr (map f xs, rest)"
  using assms by (simp add: read_map_def read_list_back)

lemma read_words_back [simp]:
  "length ws \<le> 10000 \<Longrightarrow> read_list readI32 (writeList et writeI32 ws @ rest) = Inr (ws, rest)"
  "length ls \<le> 10000 \<Longrightarrow> read_list readI64 (writeList et writeI64 ls @ rest) = Inr (ls, rest)"
  using read_list_back [of ws readI32 writeI32 "\<lambda>x. x"] read_list_back [of ls readI64 writeI64 "\<lambda>x. x"]
  by simp_all

text \<open>Building a set from its elements: the same set if there are no duplicates.\<close>

lemma fold_gs_add_distinct: "distinct (s @ xs) \<Longrightarrow> fold gs_add xs s = s @ xs"
  by (induction xs arbitrary: s) (auto simp: gs_add_def)

end
