(* ===== verification/Codec_Encode.thy ===== *)
theory Codec_Encode
  imports Thrift_Wire
begin

text \<open>
  The encoder of \<open>src/internal/encoding/codec.go\<close>, one definition per method, fields in the order
  in which they are written. The two unions fail when no variant is set. A Go map is written in
  the order of its list; \<open>Neighbors\<close> is written in the order of the keys.
\<close>

section \<open>Small structs\<close>

definition encodePacketHeader :: "PacketHeader \<Rightarrow> byte list" where
  "encodePacketHeader h =
     writeFieldHeader thriftTypeByte 1 @ writeByte (ph_MajorVersion h) @
     writeFieldHeader thriftTypeI16 2 @ writeI16 (ph_MinorVersion h) @
     writeFieldHeader thriftTypeI64 3 @ writeI64 (ph_Sender h) @
     opt_field thriftTypeByte 4 writeByte (ph_Level h) @
     writeFieldStop"

definition encodeNeighbor :: "Neighbor \<Rightarrow> byte list" where
  "encodeNeighbor n =
     writeFieldHeader thriftTypeI64 1 @ writeI64 (nb_Originator n) @
     writeFieldHeader thriftTypeI32 2 @ writeI32 (nb_RemoteID n) @
     writeFieldStop"

definition encodeNodeCapabilities :: "NodeCapabilities \<Rightarrow> byte list" where
  "encodeNodeCapabilities c =
     writeFieldHeader thriftTypeI16 1 @ writeI16 (nc_ProtocolMinorVersion c) @
     opt_field thriftTypeBool 2 writeBool (nc_FloodReduction c) @
     opt_field thriftTypeI32 3 writeI32 (nc_HierarchyIndications c) @
     writeFieldStop"

definition encodeLinkCapabilities :: "LinkCapabilities \<Rightarrow> byte list" where
  "encodeLinkCapabilities c =
     opt_field thriftTypeBool 1 writeBool (lc_BFD c) @
     opt_field thriftTypeBool 2 writeBool (lc_IPv4ForwardingCapable c) @
     writeFieldStop"

definition encodeLIEPacket :: "LIEPacket \<Rightarrow> byte list" where
  "encodeLIEPacket p =
     str_field 1 (lie_Name p) @
     writeFieldHeader thriftTypeI32 2 @ writeI32 (lie_LocalID p) @
     writeFieldHeader thriftTypeI16 3 @ writeI16 (lie_FloodPort p) @
     opt_field thriftTypeI32 4 writeI32 (lie_LinkMTUSize p) @
     opt_field thriftTypeI32 5 writeI32 (lie_LinkBandwidth p) @
     opt_field thriftTypeStruct 6 encodeNeighbor (lie_Neighbor p) @
     opt_field thriftTypeI32 7 writeI32 (lie_Pod p) @
     writeFieldHeader thriftTypeStruct 10 @ encodeNodeCapabilities (lie_NodeCapabilities p) @
     opt_field thriftTypeStruct 11 encodeLinkCapabilities (lie_LinkCapabilities p) @
     writeFieldHeader thriftTypeI16 12 @ writeI16 (lie_Holdtime p) @
     opt_field thriftTypeI32 13 writeI32 (lie_Label p) @
     opt_field thriftTypeBool 21 writeBool (lie_NotAZTPOffer p) @
     opt_field thriftTypeBool 22 writeBool (lie_YouAreFloodRepeater p) @
     opt_field thriftTypeBool 23 writeBool (lie_YouAreSendingTooQuickly p) @
     str_field 24 (lie_InstanceName p) @
     opt_field thriftTypeI32 35 writeI32 (lie_FabricID p) @
     writeFieldStop"

definition encodeIEEE802_1ASTimestamp :: "IEEE802_1ASTimeStampType \<Rightarrow> byte list" where
  "encodeIEEE802_1ASTimestamp t =
     writeFieldHeader thriftTypeI64 1 @ writeI64 (ts_ASSec t) @
     opt_field thriftTypeI32 2 writeI32 (ts_ASNsec t) @
     writeFieldStop"

section \<open>TIE headers, TIDE and TIRE packets\<close>

definition encodeTIEID :: "TIEID \<Rightarrow> byte list" where
  "encodeTIEID tid =
     writeFieldHeader thriftTypeI32 1 @ writeI32 (Direction tid) @
     writeFieldHeader thriftTypeI64 2 @ writeI64 (Originator tid) @
     writeFieldHeader thriftTypeI32 3 @ writeI32 (TIEType tid) @
     writeFieldHeader thriftTypeI32 4 @ writeI32 (TIENr tid) @
     writeFieldStop"

definition encodeTIEHeader :: "TIEHeader \<Rightarrow> byte list" where
  "encodeTIEHeader h =
     writeFieldHeader thriftTypeStruct 2 @ encodeTIEID (th_TIEID h) @
     writeFieldHeader thriftTypeI64 3 @ writeI64 (th_SeqNr h) @
     opt_field thriftTypeStruct 10 encodeIEEE802_1ASTimestamp (th_OriginationTime h) @
     opt_field thriftTypeI32 12 writeI32 (th_OriginationLifetime h) @
     writeFieldStop"

definition encodeTIEHeaderWithLifeTime :: "TIEHeaderWithLifeTime \<Rightarrow> byte list" where
  "encodeTIEHeaderWithLifeTime h =
     writeFieldHeader thriftTypeStruct 1 @ encodeTIEHeader (hl_Header h) @
     writeFieldHeader thriftTypeI32 2 @ writeI32 (hl_RemainingLifetime h) @
     writeFieldStop"

definition encodeTIEHeaderWithLifeTimeInline :: "TIEHeaderWithLifeTime \<Rightarrow> byte list" where
  "encodeTIEHeaderWithLifeTimeInline h =
     writeFieldHeader thriftTypeStruct 1 @ encodeTIEHeader (hl_Header h) @
     writeFieldHeader thriftTypeI32 2 @ writeI32 (hl_RemainingLifetime h) @
     writeFieldStop"

definition encodeTIDEPacket :: "TIDEPacket \<Rightarrow> byte list" where
  "encodeTIDEPacket p =
     writeFieldHeader thriftTypeStruct 1 @ encodeTIEID (tide_StartRange p) @
     writeFieldHeader thriftTypeStruct 2 @ encodeTIEID (tide_EndRange p) @
     writeFieldHeader thriftTypeList 3 @
       writeList thriftTypeStruct encodeTIEHeaderWithLifeTimeInline (tide_Headers p) @
     writeFieldStop"

definition encodeTIREPacket :: "TIREPacket \<Rightarrow> byte list" where
  "encodeTIREPacket p =
     writeFieldHeader thriftTypeSet 1 @
       writeList thriftTypeStruct encodeTIEHeaderWithLifeTimeInline (tire_Headers p) @
     writeFieldStop"

section \<open>Node TIE elements\<close>

definition encodeNodeFlags :: "NodeFlags \<Rightarrow> byte list" where
  "encodeNodeFlags f = opt_field thriftTypeBool 1 writeBool (nf_Overload f) @ writeFieldStop"

definition encodeLinkIDPair :: "LinkIDPair \<Rightarrow> byte list" where
  "encodeLinkIDPair p =
     writeFieldHeader thriftTypeI32 1 @ writeI32 (lp_LocalID p) @
     writeFieldHeader thriftTypeI32 2 @ writeI32 (lp_RemoteID p) @
     opt_field thriftTypeI32 10 writeI32 (lp_PlatformInterfaceIndex p) @
     str_field 11 (lp_PlatformInterfaceName p) @
     opt_field thriftTypeByte 12 writeByte (lp_TrustedOuterSecurityKey p) @
     opt_field thriftTypeBool 13 writeBool (lp_BFDUp p) @
     set_field 14 thriftTypeI32 writeI32 (lp_AddressFamilies p) @
     writeFieldStop"

definition encodeNodeNeighborsTIEElement :: "NodeNeighborsTIEElement \<Rightarrow> byte list" where
  "encodeNodeNeighborsTIEElement n =
     writeFieldHeader thriftTypeByte 1 @ writeByte (nn_Level n) @
     opt_field thriftTypeI32 3 writeI32 (nn_Cost n) @
     set_field 4 thriftTypeStruct encodeLinkIDPair (nn_LinkIDs n) @
     opt_field thriftTypeI32 5 writeI32 (nn_Bandwidth n) @
     writeFieldStop"

text \<open>The entries of \<open>Neighbors\<close> in ascending order of the (signed) keys.\<close>

definition sorted_entries :: "(int64, 'v) gomap \<Rightarrow> (int64 \<times> 'v) list" where
  "sorted_entries m = map (\<lambda>k. (k, the (gm_get m k))) (sort_key sint (gm_keys m))"

definition encodeNodeTIEElement :: "NodeTIEElement \<Rightarrow> byte list" where
  "encodeNodeTIEElement n =
     writeFieldHeader thriftTypeByte 1 @ writeByte (nt_Level n) @
     writeFieldHeader thriftTypeMap 2 @ writeByte thriftTypeI64 @
       writeList thriftTypeStruct (\<lambda>(k, v). writeI64 k @ encodeNodeNeighborsTIEElement v)
         (sorted_entries (nt_Neighbors n)) @
     writeFieldHeader thriftTypeStruct 3 @ encodeNodeCapabilities (nt_Capabilities n) @
     opt_field thriftTypeStruct 4 encodeNodeFlags (nt_Flags n) @
     str_field 5 (nt_Name n) @
     opt_field thriftTypeI32 6 writeI32 (nt_Pod n) @
     opt_field thriftTypeI64 7 writeI64 (nt_StartupTime n) @
     set_field 10 thriftTypeI32 writeI32 (nt_MiscabledLinks n) @
     set_field 12 thriftTypeI64 writeI64 (nt_SamePlaneTofs n) @
     opt_field thriftTypeI32 20 writeI32 (nt_FabricID n) @
     writeFieldStop"

section \<open>Prefix and key-value TIE elements\<close>

definition encodeIPv4PrefixType :: "IPv4PrefixType \<Rightarrow> byte list" where
  "encodeIPv4PrefixType p =
     writeFieldHeader thriftTypeI32 1 @ writeI32 (p4_Address p) @
     writeFieldHeader thriftTypeByte 2 @ writeByte (p4_PrefixLen p) @
     writeFieldStop"

definition encodeIPv6PrefixType :: "IPv6PrefixType \<Rightarrow> byte list" where
  "encodeIPv6PrefixType p =
     writeFieldHeader thriftTypeString 1 @ writeBinary (p6_Address p) @
     writeFieldHeader thriftTypeByte 2 @ writeByte (p6_PrefixLen p) @
     writeFieldStop"

definition encodeIPPrefixType :: "IPPrefixType \<Rightarrow> byte list" where
  "encodeIPPrefixType p =
     (case ip_IPv4Prefix p of
        Some p4 \<Rightarrow> writeFieldHeader thriftTypeStruct 1 @ encodeIPv4PrefixType p4
      | None \<Rightarrow>
          (case ip_IPv6Prefix p of
             Some p6 \<Rightarrow> writeFieldHeader thriftTypeStruct 2 @ encodeIPv6PrefixType p6
           | None \<Rightarrow> [])) @
     writeFieldStop"

definition encodePrefixSequenceType :: "PrefixSequenceType \<Rightarrow> byte list" where
  "encodePrefixSequenceType p =
     writeFieldHeader thriftTypeStruct 1 @ encodeIEEE802_1ASTimestamp (ps_Timestamp p) @
     opt_field thriftTypeByte 2 writeByte (ps_TransactionID p) @
     writeFieldStop"

definition encodePrefixAttributes :: "PrefixAttributes \<Rightarrow> byte list" where
  "encodePrefixAttributes a =
     writeFieldHeader thriftTypeI32 2 @ writeI32 (pa_Metric a) @
     set_field 3 thriftTypeI64 writeI64 (pa_Tags a) @
     opt_field thriftTypeStruct 4 encodePrefixSequenceType (pa_MonotonicClock a) @
     opt_field thriftTypeBool 6 writeBool (pa_Loopback a) @
     opt_field thriftTypeBool 7 writeBool (pa_DirectlyAttached a) @
     opt_field thriftTypeI32 10 writeI32 (pa_FromLink a) @
     opt_field thriftTypeI32 12 writeI32 (pa_Label a) @
     writeFieldStop"

definition encodePrefixTIEElement :: "PrefixTIEElement \<Rightarrow> byte list" where
  "encodePrefixTIEElement p =
     writeFieldHeader thriftTypeMap 1 @ writeByte thriftTypeStruct @
       writeList thriftTypeStruct
         (\<lambda>e. encodeIPPrefixType (pe_Prefix e) @ encodePrefixAttributes (pe_Attributes e))
         (pt_Prefixes p) @
     writeFieldStop"

definition encodeKeyValueTIEElementContent :: "KeyValueTIEElementContent \<Rightarrow> byte list" where
  "encodeKeyValueTIEElementContent c =
     opt_field thriftTypeI64 1 writeI64 (kc_Targets c) @
     opt_field thriftTypeString 2 writeBinary (kc_Value c) @
     writeFieldStop"

definition encodeKeyValueTIEElement :: "KeyValueTIEElement \<Rightarrow> byte list" where
  "encodeKeyValueTIEElement kv =
     writeFieldHeader thriftTypeMap 1 @ writeByte thriftTypeI32 @
       writeList thriftTypeStruct (\<lambda>(k, v). writeI32 k @ encodeKeyValueTIEElementContent v)
         (kv_KeyValues kv) @
     writeFieldStop"

section \<open>Unions and packets\<close>

definition encodeTIEElement :: "TIEElement \<Rightarrow> codec_error + byte list" where
  "encodeTIEElement el =
     (let variant = (\<lambda>fid bs. Inr (writeFieldHeader thriftTypeStruct fid @ bs @ writeFieldStop)) in
      case el_Node el of Some n \<Rightarrow> variant 1 (encodeNodeTIEElement n) | None \<Rightarrow>
      case el_Prefixes el of Some p \<Rightarrow> variant 2 (encodePrefixTIEElement p) | None \<Rightarrow>
      case el_PositiveDisaggregationPrefixes el of Some p \<Rightarrow> variant 3 (encodePrefixTIEElement p) | None \<Rightarrow>
      case el_NegativeDisaggregationPrefixes el of Some p \<Rightarrow> variant 5 (encodePrefixTIEElement p) | None \<Rightarrow>
      case el_ExternalPrefixes el of Some p \<Rightarrow> variant 6 (encodePrefixTIEElement p) | None \<Rightarrow>
      case el_PositiveExternalDisaggregationPrefixes el of
        Some p \<Rightarrow> variant 7 (encodePrefixTIEElement p) | None \<Rightarrow>
      case el_KeyValues el of Some kv \<Rightarrow> variant 9 (encodeKeyValueTIEElement kv) | None \<Rightarrow>
      Inl NoVariantSet)"

definition encodeTIEPacket :: "TIEPacket \<Rightarrow> codec_error + byte list" where
  "encodeTIEPacket p = rbind (encodeTIEElement (tie_Element p)) (\<lambda>element.
     Inr (writeFieldHeader thriftTypeStruct 1 @ encodeTIEHeader (tie_Header p) @
          writeFieldHeader thriftTypeStruct 2 @ element @
          writeFieldStop))"

definition encodePacketContent :: "PacketContent \<Rightarrow> codec_error + byte list" where
  "encodePacketContent c =
     (let variant = (\<lambda>fid bs. Inr (writeFieldHeader thriftTypeStruct fid @ bs @ writeFieldStop)) in
      case pc_LIE c of Some lie \<Rightarrow> variant 1 (encodeLIEPacket lie) | None \<Rightarrow>
      case pc_TIDE c of Some tide \<Rightarrow> variant 2 (encodeTIDEPacket tide) | None \<Rightarrow>
      case pc_TIRE c of Some tire \<Rightarrow> variant 3 (encodeTIREPacket tire) | None \<Rightarrow>
      case pc_TIE c of Some tie \<Rightarrow> rbind (encodeTIEPacket tie) (\<lambda>bs. variant 4 bs) | None \<Rightarrow>
      Inl NoVariantSet)"

definition EncodeProtocolPacket :: "ProtocolPacket \<Rightarrow> codec_error + byte list" where
  "EncodeProtocolPacket p = rbind (encodePacketContent (pp_Content p)) (\<lambda>content.
     Inr (writeFieldHeader thriftTypeStruct 1 @ encodePacketHeader (pp_Header p) @
          writeFieldHeader thriftTypeStruct 2 @ content @
          writeFieldStop))"

end
