(* ===== verification/Codec_Decode.thy ===== *)
theory Codec_Decode
  imports Thrift_Wire
begin

text \<open>
  The decoder of \<open>src/internal/encoding/codec.go\<close>. Each method is a loop over fields whose
  \<open>switch\<close> is a definition of its own: it takes the type and identifier of the field and the
  struct filled so far. As in the code, the type of a known field is not checked, a repeated
  field is decoded again (into the struct as it stands, or a new one where the code allocates
  one), and an unknown field is skipped by its type. On an error the caller discards the struct.
\<close>

section \<open>Small structs\<close>

definition PacketHeader_step :: "byte \<Rightarrow> int16 \<Rightarrow> PacketHeader \<Rightarrow> PacketHeader reader" where
  "PacketHeader_step ftype fid s bs =
     (if fid = 1 then rmap (\<lambda>v. s\<lparr>ph_MajorVersion := v\<rparr>) (readByte bs)
      else if fid = 2 then rmap (\<lambda>v. s\<lparr>ph_MinorVersion := v\<rparr>) (readI16 bs)
      else if fid = 3 then rmap (\<lambda>v. s\<lparr>ph_Sender := v\<rparr>) (readI64 bs)
      else if fid = 4 then rmap (\<lambda>v. s\<lparr>ph_Level := Some v\<rparr>) (readByte bs)
      else skip_field ftype s bs)"

lemma reader_PacketHeader_step [readers, simp]: "reader (PacketHeader_step ft fid s)"
  unfolding PacketHeader_step_def by (intro readers)

definition decodePacketHeader :: "PacketHeader \<Rightarrow> PacketHeader reader" where
  "decodePacketHeader s = decode_loop PacketHeader_step s"

lemma reader_PacketHeader [readers]: "reader (decodePacketHeader s)"
  unfolding decodePacketHeader_def by (rule decode_loop_reader) (rule readers)

definition Neighbor_step :: "byte \<Rightarrow> int16 \<Rightarrow> Neighbor \<Rightarrow> Neighbor reader" where
  "Neighbor_step ftype fid s bs =
     (if fid = 1 then rmap (\<lambda>v. s\<lparr>nb_Originator := v\<rparr>) (readI64 bs)
      else if fid = 2 then rmap (\<lambda>v. s\<lparr>nb_RemoteID := v\<rparr>) (readI32 bs)
      else skip_field ftype s bs)"

lemma reader_Neighbor_step [readers, simp]: "reader (Neighbor_step ft fid s)"
  unfolding Neighbor_step_def by (intro readers)

definition decodeNeighbor :: "Neighbor \<Rightarrow> Neighbor reader" where
  "decodeNeighbor s = decode_loop Neighbor_step s"

lemma reader_Neighbor [readers]: "reader (decodeNeighbor s)"
  unfolding decodeNeighbor_def by (rule decode_loop_reader) (rule readers)

definition NodeCapabilities_step :: "byte \<Rightarrow> int16 \<Rightarrow> NodeCapabilities \<Rightarrow> NodeCapabilities reader" where
  "NodeCapabilities_step ftype fid s bs =
     (if fid = 1 then rmap (\<lambda>v. s\<lparr>nc_ProtocolMinorVersion := v\<rparr>) (readI16 bs)
      else if fid = 2 then rmap (\<lambda>v. s\<lparr>nc_FloodReduction := Some v\<rparr>) (readBool bs)
      else if fid = 3 then rmap (\<lambda>v. s\<lparr>nc_HierarchyIndications := Some v\<rparr>) (readI32 bs)
      else skip_field ftype s bs)"

lemma reader_NodeCapabilities_step [readers, simp]: "reader (NodeCapabilities_step ft fid s)"
  unfolding NodeCapabilities_step_def by (intro readers)

definition decodeNodeCapabilities :: "NodeCapabilities \<Rightarrow> NodeCapabilities reader" where
  "decodeNodeCapabilities s = decode_loop NodeCapabilities_step s"

lemma reader_NodeCapabilities [readers]: "reader (decodeNodeCapabilities s)"
  unfolding decodeNodeCapabilities_def by (rule decode_loop_reader) (rule readers)

definition LinkCapabilities_step :: "byte \<Rightarrow> int16 \<Rightarrow> LinkCapabilities \<Rightarrow> LinkCapabilities reader" where
  "LinkCapabilities_step ftype fid s bs =
     (if fid = 1 then rmap (\<lambda>v. s\<lparr>lc_BFD := Some v\<rparr>) (readBool bs)
      else if fid = 2 then rmap (\<lambda>v. s\<lparr>lc_IPv4ForwardingCapable := Some v\<rparr>) (readBool bs)
      else skip_field ftype s bs)"

lemma reader_LinkCapabilities_step [readers, simp]: "reader (LinkCapabilities_step ft fid s)"
  unfolding LinkCapabilities_step_def by (intro readers)

definition decodeLinkCapabilities :: "LinkCapabilities \<Rightarrow> LinkCapabilities reader" where
  "decodeLinkCapabilities s = decode_loop LinkCapabilities_step s"

lemma reader_LinkCapabilities [readers]: "reader (decodeLinkCapabilities s)"
  unfolding decodeLinkCapabilities_def by (rule decode_loop_reader) (rule readers)

definition LIEPacket_step :: "byte \<Rightarrow> int16 \<Rightarrow> LIEPacket \<Rightarrow> LIEPacket reader" where
  "LIEPacket_step ftype fid s bs =
     (if fid = 1 then rmap (\<lambda>v. s\<lparr>lie_Name := v\<rparr>) (readString bs)
      else if fid = 2 then rmap (\<lambda>v. s\<lparr>lie_LocalID := v\<rparr>) (readI32 bs)
      else if fid = 3 then rmap (\<lambda>v. s\<lparr>lie_FloodPort := v\<rparr>) (readI16 bs)
      else if fid = 4 then rmap (\<lambda>v. s\<lparr>lie_LinkMTUSize := Some v\<rparr>) (readI32 bs)
      else if fid = 5 then rmap (\<lambda>v. s\<lparr>lie_LinkBandwidth := Some v\<rparr>) (readI32 bs)
      else if fid = 6 then rmap (\<lambda>v. s\<lparr>lie_Neighbor := Some v\<rparr>) (decodeNeighbor zero_Neighbor bs)
      else if fid = 7 then rmap (\<lambda>v. s\<lparr>lie_Pod := Some v\<rparr>) (readI32 bs)
      else if fid = 10 then rmap (\<lambda>v. s\<lparr>lie_NodeCapabilities := v\<rparr>) (decodeNodeCapabilities (lie_NodeCapabilities s) bs)
      else if fid = 11 then rmap (\<lambda>v. s\<lparr>lie_LinkCapabilities := Some v\<rparr>) (decodeLinkCapabilities zero_LinkCapabilities bs)
      else if fid = 12 then rmap (\<lambda>v. s\<lparr>lie_Holdtime := v\<rparr>) (readI16 bs)
      else if fid = 13 then rmap (\<lambda>v. s\<lparr>lie_Label := Some v\<rparr>) (readI32 bs)
      else if fid = 21 then rmap (\<lambda>v. s\<lparr>lie_NotAZTPOffer := Some v\<rparr>) (readBool bs)
      else if fid = 22 then rmap (\<lambda>v. s\<lparr>lie_YouAreFloodRepeater := Some v\<rparr>) (readBool bs)
      else if fid = 23 then rmap (\<lambda>v. s\<lparr>lie_YouAreSendingTooQuickly := Some v\<rparr>) (readBool bs)
      else if fid = 24 then rmap (\<lambda>v. s\<lparr>lie_InstanceName := v\<rparr>) (readString bs)
      else if fid = 35 then rmap (\<lambda>v. s\<lparr>lie_FabricID := Some v\<rparr>) (readI32 bs)
      else skip_field ftype s bs)"

lemma reader_LIEPacket_step [readers, simp]: "reader (LIEPacket_step ft fid s)"
  unfolding LIEPacket_step_def by (intro readers)

definition decodeLIEPacket :: "LIEPacket \<Rightarrow> LIEPacket reader" where
  "decodeLIEPacket s = decode_loop LIEPacket_step (s\<lparr>lie_FloodPort := DefaultTIEUDPFloodPort, lie_Holdtime := DefaultLIEHoldtime\<rparr>)"

lemma reader_LIEPacket [readers]: "reader (decodeLIEPacket s)"
  unfolding decodeLIEPacket_def by (rule decode_loop_reader) (rule readers)

definition IEEE802_1ASTimestamp_step :: "byte \<Rightarrow> int16 \<Rightarrow> IEEE802_1ASTimeStampType \<Rightarrow> IEEE802_1ASTimeStampType reader" where
  "IEEE802_1ASTimestamp_step ftype fid s bs =
     (if fid = 1 then rmap (\<lambda>v. s\<lparr>ts_ASSec := v\<rparr>) (readI64 bs)
      else if fid = 2 then rmap (\<lambda>v. s\<lparr>ts_ASNsec := Some v\<rparr>) (readI32 bs)
      else skip_field ftype s bs)"

lemma reader_IEEE802_1ASTimestamp_step [readers, simp]: "reader (IEEE802_1ASTimestamp_step ft fid s)"
  unfolding IEEE802_1ASTimestamp_step_def by (intro readers)

definition decodeIEEE802_1ASTimestamp :: "IEEE802_1ASTimeStampType \<Rightarrow> IEEE802_1ASTimeStampType reader" where
  "decodeIEEE802_1ASTimestamp s = decode_loop IEEE802_1ASTimestamp_step s"

lemma reader_IEEE802_1ASTimestamp [readers]: "reader (decodeIEEE802_1ASTimestamp s)"
  unfolding decodeIEEE802_1ASTimestamp_def by (rule decode_loop_reader) (rule readers)

section \<open>TIE headers, TIDE and TIRE packets\<close>

definition TIEID_step :: "byte \<Rightarrow> int16 \<Rightarrow> TIEID \<Rightarrow> TIEID reader" where
  "TIEID_step ftype fid s bs =
     (if fid = 1 then rmap (\<lambda>v. TIEID v (Originator s) (TIEType s) (TIENr s)) (readI32 bs)
      else if fid = 2 then rmap (\<lambda>v. TIEID (Direction s) v (TIEType s) (TIENr s)) (readI64 bs)
      else if fid = 3 then rmap (\<lambda>v. TIEID (Direction s) (Originator s) v (TIENr s)) (readI32 bs)
      else if fid = 4 then rmap (\<lambda>v. TIEID (Direction s) (Originator s) (TIEType s) v) (readI32 bs)
      else skip_field ftype s bs)"

lemma reader_TIEID_step [readers, simp]: "reader (TIEID_step ft fid s)"
  unfolding TIEID_step_def by (intro readers)

definition decodeTIEID :: "TIEID \<Rightarrow> TIEID reader" where
  "decodeTIEID s = decode_loop TIEID_step s"

lemma reader_TIEID [readers]: "reader (decodeTIEID s)"
  unfolding decodeTIEID_def by (rule decode_loop_reader) (rule readers)

definition TIEHeader_step :: "byte \<Rightarrow> int16 \<Rightarrow> TIEHeader \<Rightarrow> TIEHeader reader" where
  "TIEHeader_step ftype fid s bs =
     (if fid = 2 then rmap (\<lambda>v. s\<lparr>th_TIEID := v\<rparr>) (decodeTIEID (th_TIEID s) bs)
      else if fid = 3 then rmap (\<lambda>v. s\<lparr>th_SeqNr := v\<rparr>) (readI64 bs)
      else if fid = 10 then rmap (\<lambda>v. s\<lparr>th_OriginationTime := Some v\<rparr>) (decodeIEEE802_1ASTimestamp zero_Timestamp bs)
      else if fid = 12 then rmap (\<lambda>v. s\<lparr>th_OriginationLifetime := Some v\<rparr>) (readI32 bs)
      else skip_field ftype s bs)"

lemma reader_TIEHeader_step [readers, simp]: "reader (TIEHeader_step ft fid s)"
  unfolding TIEHeader_step_def by (intro readers)

definition decodeTIEHeader :: "TIEHeader \<Rightarrow> TIEHeader reader" where
  "decodeTIEHeader s = decode_loop TIEHeader_step s"

lemma reader_TIEHeader [readers]: "reader (decodeTIEHeader s)"
  unfolding decodeTIEHeader_def by (rule decode_loop_reader) (rule readers)

definition TIEHeaderWithLifeTime_step :: "byte \<Rightarrow> int16 \<Rightarrow> TIEHeaderWithLifeTime \<Rightarrow> TIEHeaderWithLifeTime reader" where
  "TIEHeaderWithLifeTime_step ftype fid s bs =
     (if fid = 1 then rmap (\<lambda>v. s\<lparr>hl_Header := v\<rparr>) (decodeTIEHeader (hl_Header s) bs)
      else if fid = 2 then rmap (\<lambda>v. s\<lparr>hl_RemainingLifetime := v\<rparr>) (readI32 bs)
      else skip_field ftype s bs)"

lemma reader_TIEHeaderWithLifeTime_step [readers, simp]: "reader (TIEHeaderWithLifeTime_step ft fid s)"
  unfolding TIEHeaderWithLifeTime_step_def by (intro readers)

definition decodeTIEHeaderWithLifeTime :: "TIEHeaderWithLifeTime \<Rightarrow> TIEHeaderWithLifeTime reader" where
  "decodeTIEHeaderWithLifeTime s = decode_loop TIEHeaderWithLifeTime_step s"

lemma reader_TIEHeaderWithLifeTime [readers]: "reader (decodeTIEHeaderWithLifeTime s)"
  unfolding decodeTIEHeaderWithLifeTime_def by (rule decode_loop_reader) (rule readers)

definition TIDEPacket_step :: "byte \<Rightarrow> int16 \<Rightarrow> TIDEPacket \<Rightarrow> TIDEPacket reader" where
  "TIDEPacket_step ftype fid s bs =
     (if fid = 1 then rmap (\<lambda>v. s\<lparr>tide_StartRange := v\<rparr>) (decodeTIEID (tide_StartRange s) bs)
      else if fid = 2 then rmap (\<lambda>v. s\<lparr>tide_EndRange := v\<rparr>) (decodeTIEID (tide_EndRange s) bs)
      else if fid = 3 then rmap (\<lambda>v. s\<lparr>tide_Headers := v\<rparr>) (read_list (decodeTIEHeaderWithLifeTime zero_TIEHeaderWithLifeTime) bs)
      else skip_field ftype s bs)"

lemma reader_TIDEPacket_step [readers, simp]: "reader (TIDEPacket_step ft fid s)"
  unfolding TIDEPacket_step_def by (intro readers)

definition decodeTIDEPacket :: "TIDEPacket \<Rightarrow> TIDEPacket reader" where
  "decodeTIDEPacket s = decode_loop TIDEPacket_step s"

lemma reader_TIDEPacket [readers]: "reader (decodeTIDEPacket s)"
  unfolding decodeTIDEPacket_def by (rule decode_loop_reader) (rule readers)

definition TIREPacket_step :: "byte \<Rightarrow> int16 \<Rightarrow> TIREPacket \<Rightarrow> TIREPacket reader" where
  "TIREPacket_step ftype fid s bs =
     (if fid = 1 then rmap (\<lambda>v. s\<lparr>tire_Headers := v\<rparr>) (read_list (decodeTIEHeaderWithLifeTime zero_TIEHeaderWithLifeTime) bs)
      else skip_field ftype s bs)"

lemma reader_TIREPacket_step [readers, simp]: "reader (TIREPacket_step ft fid s)"
  unfolding TIREPacket_step_def by (intro readers)

definition decodeTIREPacket :: "TIREPacket \<Rightarrow> TIREPacket reader" where
  "decodeTIREPacket s = decode_loop TIREPacket_step s"

lemma reader_TIREPacket [readers]: "reader (decodeTIREPacket s)"
  unfolding decodeTIREPacket_def by (rule decode_loop_reader) (rule readers)

section \<open>Node TIE elements\<close>

definition NodeFlags_step :: "byte \<Rightarrow> int16 \<Rightarrow> NodeFlags \<Rightarrow> NodeFlags reader" where
  "NodeFlags_step ftype fid s bs =
     (if fid = 1 then rmap (\<lambda>v. s\<lparr>nf_Overload := Some v\<rparr>) (readBool bs)
      else skip_field ftype s bs)"

lemma reader_NodeFlags_step [readers, simp]: "reader (NodeFlags_step ft fid s)"
  unfolding NodeFlags_step_def by (intro readers)

definition decodeNodeFlags :: "NodeFlags \<Rightarrow> NodeFlags reader" where
  "decodeNodeFlags s = decode_loop NodeFlags_step s"

lemma reader_NodeFlags [readers]: "reader (decodeNodeFlags s)"
  unfolding decodeNodeFlags_def by (rule decode_loop_reader) (rule readers)

definition LinkIDPair_step :: "byte \<Rightarrow> int16 \<Rightarrow> LinkIDPair \<Rightarrow> LinkIDPair reader" where
  "LinkIDPair_step ftype fid s bs =
     (if fid = 1 then rmap (\<lambda>v. s\<lparr>lp_LocalID := v\<rparr>) (readI32 bs)
      else if fid = 2 then rmap (\<lambda>v. s\<lparr>lp_RemoteID := v\<rparr>) (readI32 bs)
      else if fid = 10 then rmap (\<lambda>v. s\<lparr>lp_PlatformInterfaceIndex := Some v\<rparr>) (readI32 bs)
      else if fid = 11 then rmap (\<lambda>v. s\<lparr>lp_PlatformInterfaceName := v\<rparr>) (readString bs)
      else if fid = 12 then rmap (\<lambda>v. s\<lparr>lp_TrustedOuterSecurityKey := Some v\<rparr>) (readByte bs)
      else if fid = 13 then rmap (\<lambda>v. s\<lparr>lp_BFDUp := Some v\<rparr>) (readBool bs)
      else if fid = 14 then rmap (\<lambda>v. s\<lparr>lp_AddressFamilies := fold gs_add v []\<rparr>) (read_list readI32 bs)
      else skip_field ftype s bs)"

lemma reader_LinkIDPair_step [readers, simp]: "reader (LinkIDPair_step ft fid s)"
  unfolding LinkIDPair_step_def by (intro readers)

definition decodeLinkIDPair :: "LinkIDPair \<Rightarrow> LinkIDPair reader" where
  "decodeLinkIDPair s = decode_loop LinkIDPair_step s"

lemma reader_LinkIDPair [readers]: "reader (decodeLinkIDPair s)"
  unfolding decodeLinkIDPair_def by (rule decode_loop_reader) (rule readers)

definition NodeNeighborsTIEElement_step :: "byte \<Rightarrow> int16 \<Rightarrow> NodeNeighborsTIEElement \<Rightarrow> NodeNeighborsTIEElement reader" where
  "NodeNeighborsTIEElement_step ftype fid s bs =
     (if fid = 1 then rmap (\<lambda>v. s\<lparr>nn_Level := v\<rparr>) (readByte bs)
      else if fid = 3 then rmap (\<lambda>v. s\<lparr>nn_Cost := Some v\<rparr>) (readI32 bs)
      else if fid = 4 then rmap (\<lambda>v. s\<lparr>nn_LinkIDs := v\<rparr>) (read_list (decodeLinkIDPair zero_LinkIDPair) bs)
      else if fid = 5 then rmap (\<lambda>v. s\<lparr>nn_Bandwidth := Some v\<rparr>) (readI32 bs)
      else skip_field ftype s bs)"

lemma reader_NodeNeighborsTIEElement_step [readers, simp]: "reader (NodeNeighborsTIEElement_step ft fid s)"
  unfolding NodeNeighborsTIEElement_step_def by (intro readers)

definition decodeNodeNeighborsTIEElement :: "NodeNeighborsTIEElement \<Rightarrow> NodeNeighborsTIEElement reader" where
  "decodeNodeNeighborsTIEElement s = decode_loop NodeNeighborsTIEElement_step s"

lemma reader_NodeNeighborsTIEElement [readers]: "reader (decodeNodeNeighborsTIEElement s)"
  unfolding decodeNodeNeighborsTIEElement_def by (rule decode_loop_reader) (rule readers)

text \<open>The entries of a map go into the map that is there; a set is a new one.\<close>

definition NodeTIEElement_step :: "byte \<Rightarrow> int16 \<Rightarrow> NodeTIEElement \<Rightarrow> NodeTIEElement reader" where
  "NodeTIEElement_step ftype fid s bs =
     (if fid = 1 then rmap (\<lambda>v. s\<lparr>nt_Level := v\<rparr>) (readByte bs)
      else if fid = 2 then rmap (\<lambda>v. s\<lparr>nt_Neighbors := fold (\<lambda>(k, n). gm_put k n) v (nt_Neighbors s)\<rparr>) (read_map readI64 (decodeNodeNeighborsTIEElement zero_NodeNeighbors) bs)
      else if fid = 3 then rmap (\<lambda>v. s\<lparr>nt_Capabilities := v\<rparr>) (decodeNodeCapabilities (nt_Capabilities s) bs)
      else if fid = 4 then rmap (\<lambda>v. s\<lparr>nt_Flags := Some v\<rparr>) (decodeNodeFlags zero_NodeFlags bs)
      else if fid = 5 then rmap (\<lambda>v. s\<lparr>nt_Name := v\<rparr>) (readString bs)
      else if fid = 6 then rmap (\<lambda>v. s\<lparr>nt_Pod := Some v\<rparr>) (readI32 bs)
      else if fid = 7 then rmap (\<lambda>v. s\<lparr>nt_StartupTime := Some v\<rparr>) (readI64 bs)
      else if fid = 10 then rmap (\<lambda>v. s\<lparr>nt_MiscabledLinks := fold gs_add v []\<rparr>) (read_list readI32 bs)
      else if fid = 12 then rmap (\<lambda>v. s\<lparr>nt_SamePlaneTofs := fold gs_add v []\<rparr>) (read_list readI64 bs)
      else if fid = 20 then rmap (\<lambda>v. s\<lparr>nt_FabricID := Some v\<rparr>) (readI32 bs)
      else skip_field ftype s bs)"

lemma reader_NodeTIEElement_step [readers, simp]: "reader (NodeTIEElement_step ft fid s)"
  unfolding NodeTIEElement_step_def by (intro readers)

definition decodeNodeTIEElement :: "NodeTIEElement \<Rightarrow> NodeTIEElement reader" where
  "decodeNodeTIEElement s = decode_loop NodeTIEElement_step (s\<lparr>nt_Neighbors := []\<rparr>)"

lemma reader_NodeTIEElement [readers]: "reader (decodeNodeTIEElement s)"
  unfolding decodeNodeTIEElement_def by (rule decode_loop_reader) (rule readers)

section \<open>Prefix and key-value TIE elements\<close>

definition IPv4PrefixType_step :: "byte \<Rightarrow> int16 \<Rightarrow> IPv4PrefixType \<Rightarrow> IPv4PrefixType reader" where
  "IPv4PrefixType_step ftype fid s bs =
     (if fid = 1 then rmap (\<lambda>v. s\<lparr>p4_Address := v\<rparr>) (readI32 bs)
      else if fid = 2 then rmap (\<lambda>v. s\<lparr>p4_PrefixLen := v\<rparr>) (readByte bs)
      else skip_field ftype s bs)"

lemma reader_IPv4PrefixType_step [readers, simp]: "reader (IPv4PrefixType_step ft fid s)"
  unfolding IPv4PrefixType_step_def by (intro readers)

definition decodeIPv4PrefixType :: "IPv4PrefixType \<Rightarrow> IPv4PrefixType reader" where
  "decodeIPv4PrefixType s = decode_loop IPv4PrefixType_step s"

lemma reader_IPv4PrefixType [readers]: "reader (decodeIPv4PrefixType s)"
  unfolding decodeIPv4PrefixType_def by (rule decode_loop_reader) (rule readers)

definition IPv6PrefixType_step :: "byte \<Rightarrow> int16 \<Rightarrow> IPv6PrefixType \<Rightarrow> IPv6PrefixType reader" where
  "IPv6PrefixType_step ftype fid s bs =
     (if fid = 1 then rmap (\<lambda>v. s\<lparr>p6_Address := v\<rparr>) (readBinary bs)
      else if fid = 2 then rmap (\<lambda>v. s\<lparr>p6_PrefixLen := v\<rparr>) (readByte bs)
      else skip_field ftype s bs)"

lemma reader_IPv6PrefixType_step [readers, simp]: "reader (IPv6PrefixType_step ft fid s)"
  unfolding IPv6PrefixType_step_def by (intro readers)

definition decodeIPv6PrefixType :: "IPv6PrefixType \<Rightarrow> IPv6PrefixType reader" where
  "decodeIPv6PrefixType s = decode_loop IPv6PrefixType_step s"

lemma reader_IPv6PrefixType [readers]: "reader (decodeIPv6PrefixType s)"
  unfolding decodeIPv6PrefixType_def by (rule decode_loop_reader) (rule readers)

definition IPPrefixType_step :: "byte \<Rightarrow> int16 \<Rightarrow> IPPrefixType \<Rightarrow> IPPrefixType reader" where
  "IPPrefixType_step ftype fid s bs =
     (if fid = 1 then rmap (\<lambda>v. s\<lparr>ip_IPv4Prefix := Some v\<rparr>) (decodeIPv4PrefixType zero_IPv4Prefix bs)
      else if fid = 2 then rmap (\<lambda>v. s\<lparr>ip_IPv6Prefix := Some v\<rparr>) (decodeIPv6PrefixType zero_IPv6Prefix bs)
      else skip_field ftype s bs)"

lemma reader_IPPrefixType_step [readers, simp]: "reader (IPPrefixType_step ft fid s)"
  unfolding IPPrefixType_step_def by (intro readers)

definition decodeIPPrefixType :: "IPPrefixType \<Rightarrow> IPPrefixType reader" where
  "decodeIPPrefixType s = decode_loop IPPrefixType_step s"

lemma reader_IPPrefixType [readers]: "reader (decodeIPPrefixType s)"
  unfolding decodeIPPrefixType_def by (rule decode_loop_reader) (rule readers)

definition PrefixSequenceType_step :: "byte \<Rightarrow> int16 \<Rightarrow> PrefixSequenceType \<Rightarrow> PrefixSequenceType reader" where
  "PrefixSequenceType_step ftype fid s bs =
     (if fid = 1 then rmap (\<lambda>v. s\<lparr>ps_Timestamp := v\<rparr>) (decodeIEEE802_1ASTimestamp (ps_Timestamp s) bs)
      else if fid = 2 then rmap (\<lambda>v. s\<lparr>ps_TransactionID := Some v\<rparr>) (readByte bs)
      else skip_field ftype s bs)"

lemma reader_PrefixSequenceType_step [readers, simp]: "reader (PrefixSequenceType_step ft fid s)"
  unfolding PrefixSequenceType_step_def by (intro readers)

definition decodePrefixSequenceType :: "PrefixSequenceType \<Rightarrow> PrefixSequenceType reader" where
  "decodePrefixSequenceType s = decode_loop PrefixSequenceType_step s"

lemma reader_PrefixSequenceType [readers]: "reader (decodePrefixSequenceType s)"
  unfolding decodePrefixSequenceType_def by (rule decode_loop_reader) (rule readers)

definition PrefixAttributes_step :: "byte \<Rightarrow> int16 \<Rightarrow> PrefixAttributes \<Rightarrow> PrefixAttributes reader" where
  "PrefixAttributes_step ftype fid s bs =
     (if fid = 2 then rmap (\<lambda>v. s\<lparr>pa_Metric := v\<rparr>) (readI32 bs)
      else if fid = 3 then rmap (\<lambda>v. s\<lparr>pa_Tags := fold gs_add v []\<rparr>) (read_list readI64 bs)
      else if fid = 4 then rmap (\<lambda>v. s\<lparr>pa_MonotonicClock := Some v\<rparr>) (decodePrefixSequenceType zero_PrefixSequence bs)
      else if fid = 6 then rmap (\<lambda>v. s\<lparr>pa_Loopback := Some v\<rparr>) (readBool bs)
      else if fid = 7 then rmap (\<lambda>v. s\<lparr>pa_DirectlyAttached := Some v\<rparr>) (readBool bs)
      else if fid = 10 then rmap (\<lambda>v. s\<lparr>pa_FromLink := Some v\<rparr>) (readI32 bs)
      else if fid = 12 then rmap (\<lambda>v. s\<lparr>pa_Label := Some v\<rparr>) (readI32 bs)
      else skip_field ftype s bs)"

lemma reader_PrefixAttributes_step [readers, simp]: "reader (PrefixAttributes_step ft fid s)"
  unfolding PrefixAttributes_step_def by (intro readers)

definition decodePrefixAttributes :: "PrefixAttributes \<Rightarrow> PrefixAttributes reader" where
  "decodePrefixAttributes s = decode_loop PrefixAttributes_step (s\<lparr>pa_Metric := DefaultDistance\<rparr>)"

lemma reader_PrefixAttributes [readers]: "reader (decodePrefixAttributes s)"
  unfolding decodePrefixAttributes_def by (rule decode_loop_reader) (rule readers)

definition decodePrefixEntry :: "PrefixEntry reader" where
  "decodePrefixEntry bs =
     rmap (\<lambda>(p, a). \<lparr>pe_Prefix = p, pe_Attributes = a\<rparr>)
       (read_pair (decodeIPPrefixType zero_IPPrefix) (decodePrefixAttributes zero_PrefixAttributes) bs)"

lemma reader_PrefixEntry [readers]: "reader decodePrefixEntry"
  unfolding decodePrefixEntry_def by (intro reader_rmap reader_pair readers)

definition PrefixTIEElement_step :: "byte \<Rightarrow> int16 \<Rightarrow> PrefixTIEElement \<Rightarrow> PrefixTIEElement reader" where
  "PrefixTIEElement_step ftype fid s bs =
     (if fid = 1 then rbind (readByte bs) (\<lambda>(_, bs).
        rmap (\<lambda>v. s\<lparr>pt_Prefixes := v\<rparr>) (read_list decodePrefixEntry bs))
      else skip_field ftype s bs)"

lemma reader_PrefixTIEElement_step [readers, simp]: "reader (PrefixTIEElement_step ft fid s)"
  unfolding PrefixTIEElement_step_def by (intro readers reader_rbind)

definition decodePrefixTIEElement :: "PrefixTIEElement \<Rightarrow> PrefixTIEElement reader" where
  "decodePrefixTIEElement s = decode_loop PrefixTIEElement_step s"

lemma reader_PrefixTIEElement [readers]: "reader (decodePrefixTIEElement s)"
  unfolding decodePrefixTIEElement_def by (rule decode_loop_reader) (rule readers)

definition KeyValueTIEElementContent_step :: "byte \<Rightarrow> int16 \<Rightarrow> KeyValueTIEElementContent \<Rightarrow> KeyValueTIEElementContent reader" where
  "KeyValueTIEElementContent_step ftype fid s bs =
     (if fid = 1 then rmap (\<lambda>v. s\<lparr>kc_Targets := Some v\<rparr>) (readI64 bs)
      else if fid = 2 then rmap (\<lambda>v. s\<lparr>kc_Value := Some v\<rparr>) (readBinary bs)
      else skip_field ftype s bs)"

lemma reader_KeyValueTIEElementContent_step [readers, simp]: "reader (KeyValueTIEElementContent_step ft fid s)"
  unfolding KeyValueTIEElementContent_step_def by (intro readers)

definition decodeKeyValueTIEElementContent :: "KeyValueTIEElementContent \<Rightarrow> KeyValueTIEElementContent reader" where
  "decodeKeyValueTIEElementContent s = decode_loop KeyValueTIEElementContent_step s"

lemma reader_KeyValueTIEElementContent [readers]: "reader (decodeKeyValueTIEElementContent s)"
  unfolding decodeKeyValueTIEElementContent_def by (rule decode_loop_reader) (rule readers)

definition KeyValueTIEElement_step :: "byte \<Rightarrow> int16 \<Rightarrow> KeyValueTIEElement \<Rightarrow> KeyValueTIEElement reader" where
  "KeyValueTIEElement_step ftype fid s bs =
     (if fid = 1 then rmap (\<lambda>v. s\<lparr>kv_KeyValues := fold (\<lambda>(k, c). gm_put k c) v []\<rparr>) (read_map readI32 (decodeKeyValueTIEElementContent zero_KeyValueContent) bs)
      else skip_field ftype s bs)"

lemma reader_KeyValueTIEElement_step [readers, simp]: "reader (KeyValueTIEElement_step ft fid s)"
  unfolding KeyValueTIEElement_step_def by (intro readers)

definition decodeKeyValueTIEElement :: "KeyValueTIEElement \<Rightarrow> KeyValueTIEElement reader" where
  "decodeKeyValueTIEElement s = decode_loop KeyValueTIEElement_step s"

lemma reader_KeyValueTIEElement [readers]: "reader (decodeKeyValueTIEElement s)"
  unfolding decodeKeyValueTIEElement_def by (rule decode_loop_reader) (rule readers)

section \<open>Unions and packets\<close>

definition TIEElement_step :: "byte \<Rightarrow> int16 \<Rightarrow> TIEElement \<Rightarrow> TIEElement reader" where
  "TIEElement_step ftype fid s bs =
     (if fid = 1 then rmap (\<lambda>v. s\<lparr>el_Node := Some v\<rparr>) (decodeNodeTIEElement zero_NodeTIEElement bs)
      else if fid = 2 then rmap (\<lambda>v. s\<lparr>el_Prefixes := Some v\<rparr>) (decodePrefixTIEElement zero_PrefixTIEElement bs)
      else if fid = 3 then rmap (\<lambda>v. s\<lparr>el_PositiveDisaggregationPrefixes := Some v\<rparr>) (decodePrefixTIEElement zero_PrefixTIEElement bs)
      else if fid = 5 then rmap (\<lambda>v. s\<lparr>el_NegativeDisaggregationPrefixes := Some v\<rparr>) (decodePrefixTIEElement zero_PrefixTIEElement bs)
      else if fid = 6 then rmap (\<lambda>v. s\<lparr>el_ExternalPrefixes := Some v\<rparr>) (decodePrefixTIEElement zero_PrefixTIEElement bs)
      else if fid = 7 then rmap (\<lambda>v. s\<lparr>el_PositiveExternalDisaggregationPrefixes := Some v\<rparr>) (decodePrefixTIEElement zero_PrefixTIEElement bs)
      else if fid = 9 then rmap (\<lambda>v. s\<lparr>el_KeyValues := Some v\<rparr>) (decodeKeyValueTIEElement zero_KeyValueTIEElement bs)
      else skip_field ftype s bs)"

lemma reader_TIEElement_step [readers, simp]: "reader (TIEElement_step ft fid s)"
  unfolding TIEElement_step_def by (intro readers)

definition decodeTIEElement :: "TIEElement \<Rightarrow> TIEElement reader" where
  "decodeTIEElement s = decode_loop TIEElement_step s"

lemma reader_TIEElement [readers]: "reader (decodeTIEElement s)"
  unfolding decodeTIEElement_def by (rule decode_loop_reader) (rule readers)

definition TIEPacket_step :: "byte \<Rightarrow> int16 \<Rightarrow> TIEPacket \<Rightarrow> TIEPacket reader" where
  "TIEPacket_step ftype fid s bs =
     (if fid = 1 then rmap (\<lambda>v. s\<lparr>tie_Header := v\<rparr>) (decodeTIEHeader (tie_Header s) bs)
      else if fid = 2 then rmap (\<lambda>v. s\<lparr>tie_Element := v\<rparr>) (decodeTIEElement (tie_Element s) bs)
      else skip_field ftype s bs)"

lemma reader_TIEPacket_step [readers, simp]: "reader (TIEPacket_step ft fid s)"
  unfolding TIEPacket_step_def by (intro readers)

definition decodeTIEPacket :: "TIEPacket \<Rightarrow> TIEPacket reader" where
  "decodeTIEPacket s = decode_loop TIEPacket_step s"

lemma reader_TIEPacket [readers]: "reader (decodeTIEPacket s)"
  unfolding decodeTIEPacket_def by (rule decode_loop_reader) (rule readers)

definition PacketContent_step :: "byte \<Rightarrow> int16 \<Rightarrow> PacketContent \<Rightarrow> PacketContent reader" where
  "PacketContent_step ftype fid s bs =
     (if fid = 1 then rmap (\<lambda>v. s\<lparr>pc_LIE := Some v\<rparr>) (decodeLIEPacket zero_LIEPacket bs)
      else if fid = 2 then rmap (\<lambda>v. s\<lparr>pc_TIDE := Some v\<rparr>) (decodeTIDEPacket zero_TIDEPacket bs)
      else if fid = 3 then rmap (\<lambda>v. s\<lparr>pc_TIRE := Some v\<rparr>) (decodeTIREPacket zero_TIREPacket bs)
      else if fid = 4 then rmap (\<lambda>v. s\<lparr>pc_TIE := Some v\<rparr>) (decodeTIEPacket zero_TIEPacket bs)
      else skip_field ftype s bs)"

lemma reader_PacketContent_step [readers, simp]: "reader (PacketContent_step ft fid s)"
  unfolding PacketContent_step_def by (intro readers)

definition decodePacketContent :: "PacketContent \<Rightarrow> PacketContent reader" where
  "decodePacketContent s = decode_loop PacketContent_step s"

lemma reader_PacketContent [readers]: "reader (decodePacketContent s)"
  unfolding decodePacketContent_def by (rule decode_loop_reader) (rule readers)

definition ProtocolPacket_step :: "byte \<Rightarrow> int16 \<Rightarrow> ProtocolPacket \<Rightarrow> ProtocolPacket reader" where
  "ProtocolPacket_step ftype fid s bs =
     (if fid = 1 then rmap (\<lambda>v. s\<lparr>pp_Header := v\<rparr>) (decodePacketHeader (pp_Header s) bs)
      else if fid = 2 then rmap (\<lambda>v. s\<lparr>pp_Content := v\<rparr>) (decodePacketContent (pp_Content s) bs)
      else skip_field ftype s bs)"

lemma reader_ProtocolPacket_step [readers, simp]: "reader (ProtocolPacket_step ft fid s)"
  unfolding ProtocolPacket_step_def by (intro readers)

definition DecodeProtocolPacket :: "ProtocolPacket reader" where
  "DecodeProtocolPacket = decode_loop ProtocolPacket_step zero_ProtocolPacket"

lemma reader_ProtocolPacket: "reader DecodeProtocolPacket"
  unfolding DecodeProtocolPacket_def by (rule decode_loop_reader) (rule readers)

end
