(* ===== verification/Codec_Roundtrip.thy ===== *)
theory Codec_Roundtrip
  imports Codec_Encode Codec_Decode
begin

text \<open>
  Decoding what was encoded, struct by struct up to \<open>ProtocolPacket\<close>, with any bytes after it.
  The \<open>wf_\<close> predicates bound the lengths the decoder accepts, demand that sets and maps have no
  duplicates and that unions have one variant; \<open>canon\<close> orders the neighbors of a Node TIE by key,
  which is the order in which they are written and read back.
\<close>

lemmas field_defs = opt_field_def str_field_def set_field_def

section \<open>Small structs\<close>

lemma PacketHeader_fields [simp]:
  "ph_Level s = None \<Longrightarrow>
     decode_loop PacketHeader_step s (opt_field 3 4 writeByte v4 @ rest) =
     decode_loop PacketHeader_step (s\<lparr>ph_Level := v4\<rparr>) rest"
  by (cases s; simp add: field_defs PacketHeader_step_def fold_gs_add_distinct split: option.split)+

lemma PacketHeader_back [simp]: "decodePacketHeader zero_PacketHeader (encodePacketHeader x @ rest) = Inr (x, rest)"
  by (cases x) (simp add: decodePacketHeader_def encodePacketHeader_def PacketHeader_step_def zero_PacketHeader_def)

lemma Neighbor_back [simp]: "decodeNeighbor zero_Neighbor (encodeNeighbor x @ rest) = Inr (x, rest)"
  by (cases x) (simp add: decodeNeighbor_def encodeNeighbor_def Neighbor_step_def zero_Neighbor_def)

lemma NodeCapabilities_fields [simp]:
  "nc_FloodReduction s = None \<Longrightarrow>
     decode_loop NodeCapabilities_step s (opt_field 2 2 writeBool v2 @ rest) =
     decode_loop NodeCapabilities_step (s\<lparr>nc_FloodReduction := v2\<rparr>) rest"
  "nc_HierarchyIndications s = None \<Longrightarrow>
     decode_loop NodeCapabilities_step s (opt_field 8 3 writeI32 v3 @ rest) =
     decode_loop NodeCapabilities_step (s\<lparr>nc_HierarchyIndications := v3\<rparr>) rest"
  by (cases s; simp add: field_defs NodeCapabilities_step_def fold_gs_add_distinct split: option.split)+

lemma NodeCapabilities_back [simp]: "decodeNodeCapabilities zero_NodeCapabilities (encodeNodeCapabilities x @ rest) = Inr (x, rest)"
  by (cases x) (simp add: decodeNodeCapabilities_def encodeNodeCapabilities_def NodeCapabilities_step_def zero_NodeCapabilities_def)

lemma LinkCapabilities_fields [simp]:
  "lc_BFD s = None \<Longrightarrow>
     decode_loop LinkCapabilities_step s (opt_field 2 1 writeBool v1 @ rest) =
     decode_loop LinkCapabilities_step (s\<lparr>lc_BFD := v1\<rparr>) rest"
  "lc_IPv4ForwardingCapable s = None \<Longrightarrow>
     decode_loop LinkCapabilities_step s (opt_field 2 2 writeBool v2 @ rest) =
     decode_loop LinkCapabilities_step (s\<lparr>lc_IPv4ForwardingCapable := v2\<rparr>) rest"
  by (cases s; simp add: field_defs LinkCapabilities_step_def fold_gs_add_distinct split: option.split)+

lemma LinkCapabilities_back [simp]: "decodeLinkCapabilities zero_LinkCapabilities (encodeLinkCapabilities x @ rest) = Inr (x, rest)"
  by (cases x) (simp add: decodeLinkCapabilities_def encodeLinkCapabilities_def LinkCapabilities_step_def zero_LinkCapabilities_def)

definition wf_LIEPacket :: "LIEPacket \<Rightarrow> bool" where
  "wf_LIEPacket p \<longleftrightarrow> length (lie_Name p) \<le> 1048576 \<and> length (lie_InstanceName p) \<le> 1048576"

lemma LIEPacket_fields1 [simp]:
  "lie_Name s = [] \<Longrightarrow> length v1 \<le> 1048576 \<Longrightarrow>
     decode_loop LIEPacket_step s (str_field 1 v1 @ rest) =
     decode_loop LIEPacket_step (s\<lparr>lie_Name := v1\<rparr>) rest"
  "lie_LinkMTUSize s = None \<Longrightarrow>
     decode_loop LIEPacket_step s (opt_field 8 4 writeI32 v4 @ rest) =
     decode_loop LIEPacket_step (s\<lparr>lie_LinkMTUSize := v4\<rparr>) rest"
  "lie_LinkBandwidth s = None \<Longrightarrow>
     decode_loop LIEPacket_step s (opt_field 8 5 writeI32 v5 @ rest) =
     decode_loop LIEPacket_step (s\<lparr>lie_LinkBandwidth := v5\<rparr>) rest"
  "lie_Neighbor s = None \<Longrightarrow>
     decode_loop LIEPacket_step s (opt_field 12 6 encodeNeighbor v6 @ rest) =
     decode_loop LIEPacket_step (s\<lparr>lie_Neighbor := v6\<rparr>) rest"
  "lie_Pod s = None \<Longrightarrow>
     decode_loop LIEPacket_step s (opt_field 8 7 writeI32 v7 @ rest) =
     decode_loop LIEPacket_step (s\<lparr>lie_Pod := v7\<rparr>) rest"
  by (cases s; simp add: field_defs LIEPacket_step_def fold_gs_add_distinct split: option.split)+

lemma LIEPacket_fields2 [simp]:
  "lie_LinkCapabilities s = None \<Longrightarrow>
     decode_loop LIEPacket_step s (opt_field 12 11 encodeLinkCapabilities v11 @ rest) =
     decode_loop LIEPacket_step (s\<lparr>lie_LinkCapabilities := v11\<rparr>) rest"
  "lie_Label s = None \<Longrightarrow>
     decode_loop LIEPacket_step s (opt_field 8 13 writeI32 v13 @ rest) =
     decode_loop LIEPacket_step (s\<lparr>lie_Label := v13\<rparr>) rest"
  "lie_NotAZTPOffer s = None \<Longrightarrow>
     decode_loop LIEPacket_step s (opt_field 2 21 writeBool v21 @ rest) =
     decode_loop LIEPacket_step (s\<lparr>lie_NotAZTPOffer := v21\<rparr>) rest"
  "lie_YouAreFloodRepeater s = None \<Longrightarrow>
     decode_loop LIEPacket_step s (opt_field 2 22 writeBool v22 @ rest) =
     decode_loop LIEPacket_step (s\<lparr>lie_YouAreFloodRepeater := v22\<rparr>) rest"
  "lie_YouAreSendingTooQuickly s = None \<Longrightarrow>
     decode_loop LIEPacket_step s (opt_field 2 23 writeBool v23 @ rest) =
     decode_loop LIEPacket_step (s\<lparr>lie_YouAreSendingTooQuickly := v23\<rparr>) rest"
  "lie_InstanceName s = [] \<Longrightarrow> length v24 \<le> 1048576 \<Longrightarrow>
     decode_loop LIEPacket_step s (str_field 24 v24 @ rest) =
     decode_loop LIEPacket_step (s\<lparr>lie_InstanceName := v24\<rparr>) rest"
  "lie_FabricID s = None \<Longrightarrow>
     decode_loop LIEPacket_step s (opt_field 8 35 writeI32 v35 @ rest) =
     decode_loop LIEPacket_step (s\<lparr>lie_FabricID := v35\<rparr>) rest"
  by (cases s; simp add: field_defs LIEPacket_step_def fold_gs_add_distinct split: option.split)+

lemma LIEPacket_back [simp]: "wf_LIEPacket x \<Longrightarrow> decodeLIEPacket zero_LIEPacket (encodeLIEPacket x @ rest) = Inr (x, rest)"
  by (cases x) (simp add: decodeLIEPacket_def encodeLIEPacket_def LIEPacket_step_def zero_LIEPacket_def wf_LIEPacket_def)

lemma IEEE802_1ASTimestamp_fields [simp]:
  "ts_ASNsec s = None \<Longrightarrow>
     decode_loop IEEE802_1ASTimestamp_step s (opt_field 8 2 writeI32 v2 @ rest) =
     decode_loop IEEE802_1ASTimestamp_step (s\<lparr>ts_ASNsec := v2\<rparr>) rest"
  by (cases s; simp add: field_defs IEEE802_1ASTimestamp_step_def fold_gs_add_distinct split: option.split)+

lemma IEEE802_1ASTimestamp_back [simp]: "decodeIEEE802_1ASTimestamp zero_Timestamp (encodeIEEE802_1ASTimestamp x @ rest) = Inr (x, rest)"
  by (cases x) (simp add: decodeIEEE802_1ASTimestamp_def encodeIEEE802_1ASTimestamp_def IEEE802_1ASTimestamp_step_def zero_Timestamp_def)

section \<open>TIE headers, TIDE and TIRE packets\<close>

lemma TIEID_back [simp]: "decodeTIEID zero_TIEID (encodeTIEID x @ rest) = Inr (x, rest)"
  by (cases x) (simp add: decodeTIEID_def encodeTIEID_def TIEID_step_def zero_TIEID_def)

lemma TIEHeader_fields [simp]:
  "th_OriginationTime s = None \<Longrightarrow>
     decode_loop TIEHeader_step s (opt_field 12 10 encodeIEEE802_1ASTimestamp v10 @ rest) =
     decode_loop TIEHeader_step (s\<lparr>th_OriginationTime := v10\<rparr>) rest"
  "th_OriginationLifetime s = None \<Longrightarrow>
     decode_loop TIEHeader_step s (opt_field 8 12 writeI32 v12 @ rest) =
     decode_loop TIEHeader_step (s\<lparr>th_OriginationLifetime := v12\<rparr>) rest"
  by (cases s; simp add: field_defs TIEHeader_step_def fold_gs_add_distinct split: option.split)+

lemma TIEHeader_back [simp]: "decodeTIEHeader zero_TIEHeader (encodeTIEHeader x @ rest) = Inr (x, rest)"
  by (cases x) (simp add: decodeTIEHeader_def encodeTIEHeader_def TIEHeader_step_def zero_TIEHeader_def)

lemma TIEHeaderWithLifeTime_back [simp]: "decodeTIEHeaderWithLifeTime zero_TIEHeaderWithLifeTime (encodeTIEHeaderWithLifeTime x @ rest) = Inr (x, rest)"
  by (cases x) (simp add: decodeTIEHeaderWithLifeTime_def encodeTIEHeaderWithLifeTime_def TIEHeaderWithLifeTime_step_def zero_TIEHeaderWithLifeTime_def)

lemma TIEHeaderWithLifeTimeInline_back [simp]:
  "decodeTIEHeaderWithLifeTime zero_TIEHeaderWithLifeTime (encodeTIEHeaderWithLifeTimeInline x @ rest) = Inr (x, rest)"
  using TIEHeaderWithLifeTime_back [of x rest]
  by (simp add: encodeTIEHeaderWithLifeTime_def encodeTIEHeaderWithLifeTimeInline_def)

lemma headers_back [simp]:
  "length hs \<le> 10000 \<Longrightarrow>
     read_list (decodeTIEHeaderWithLifeTime zero_TIEHeaderWithLifeTime)
       (writeList et encodeTIEHeaderWithLifeTimeInline hs @ rest) = Inr (hs, rest)"
  using read_list_back [of hs _ encodeTIEHeaderWithLifeTimeInline "\<lambda>x. x"] by simp

definition wf_TIDEPacket :: "TIDEPacket \<Rightarrow> bool" where
  "wf_TIDEPacket p \<longleftrightarrow> length (tide_Headers p) \<le> 10000"

definition wf_TIREPacket :: "TIREPacket \<Rightarrow> bool" where
  "wf_TIREPacket p \<longleftrightarrow> length (tire_Headers p) \<le> 10000"

lemma TIDEPacket_back [simp]: "wf_TIDEPacket x \<Longrightarrow> decodeTIDEPacket zero_TIDEPacket (encodeTIDEPacket x @ rest) = Inr (x, rest)"
  by (cases x) (simp add: decodeTIDEPacket_def encodeTIDEPacket_def TIDEPacket_step_def zero_TIDEPacket_def wf_TIDEPacket_def)

lemma TIREPacket_back [simp]: "wf_TIREPacket x \<Longrightarrow> decodeTIREPacket zero_TIREPacket (encodeTIREPacket x @ rest) = Inr (x, rest)"
  by (cases x) (simp add: decodeTIREPacket_def encodeTIREPacket_def TIREPacket_step_def zero_TIREPacket_def wf_TIREPacket_def)

section \<open>Node TIE elements\<close>

lemma NodeFlags_fields [simp]:
  "nf_Overload s = None \<Longrightarrow>
     decode_loop NodeFlags_step s (opt_field 2 1 writeBool v1 @ rest) =
     decode_loop NodeFlags_step (s\<lparr>nf_Overload := v1\<rparr>) rest"
  by (cases s; simp add: field_defs NodeFlags_step_def fold_gs_add_distinct split: option.split)+

lemma NodeFlags_back [simp]: "decodeNodeFlags zero_NodeFlags (encodeNodeFlags x @ rest) = Inr (x, rest)"
  by (cases x) (simp add: decodeNodeFlags_def encodeNodeFlags_def NodeFlags_step_def zero_NodeFlags_def)

definition wf_LinkIDPair :: "LinkIDPair \<Rightarrow> bool" where
  "wf_LinkIDPair p \<longleftrightarrow> length (lp_PlatformInterfaceName p) \<le> 1048576 \<and>
     length (lp_AddressFamilies p) \<le> 10000 \<and> distinct (lp_AddressFamilies p)"

lemma LinkIDPair_fields [simp]:
  "lp_PlatformInterfaceIndex s = None \<Longrightarrow>
     decode_loop LinkIDPair_step s (opt_field 8 10 writeI32 v10 @ rest) =
     decode_loop LinkIDPair_step (s\<lparr>lp_PlatformInterfaceIndex := v10\<rparr>) rest"
  "lp_PlatformInterfaceName s = [] \<Longrightarrow> length v11 \<le> 1048576 \<Longrightarrow>
     decode_loop LinkIDPair_step s (str_field 11 v11 @ rest) =
     decode_loop LinkIDPair_step (s\<lparr>lp_PlatformInterfaceName := v11\<rparr>) rest"
  "lp_TrustedOuterSecurityKey s = None \<Longrightarrow>
     decode_loop LinkIDPair_step s (opt_field 3 12 writeByte v12 @ rest) =
     decode_loop LinkIDPair_step (s\<lparr>lp_TrustedOuterSecurityKey := v12\<rparr>) rest"
  "lp_BFDUp s = None \<Longrightarrow>
     decode_loop LinkIDPair_step s (opt_field 2 13 writeBool v13 @ rest) =
     decode_loop LinkIDPair_step (s\<lparr>lp_BFDUp := v13\<rparr>) rest"
  "lp_AddressFamilies s = [] \<Longrightarrow> length v14 \<le> 10000 \<Longrightarrow> distinct v14 \<Longrightarrow>
     decode_loop LinkIDPair_step s (set_field 14 8 writeI32 v14 @ rest) =
     decode_loop LinkIDPair_step (s\<lparr>lp_AddressFamilies := v14\<rparr>) rest"
  by (cases s; simp add: field_defs LinkIDPair_step_def fold_gs_add_distinct split: option.split)+

lemma LinkIDPair_back [simp]: "wf_LinkIDPair x \<Longrightarrow> decodeLinkIDPair zero_LinkIDPair (encodeLinkIDPair x @ rest) = Inr (x, rest)"
  by (cases x) (simp add: decodeLinkIDPair_def encodeLinkIDPair_def LinkIDPair_step_def zero_LinkIDPair_def wf_LinkIDPair_def)

definition wf_NodeNeighbors :: "NodeNeighborsTIEElement \<Rightarrow> bool" where
  "wf_NodeNeighbors n \<longleftrightarrow> length (nn_LinkIDs n) \<le> 10000 \<and> list_all wf_LinkIDPair (nn_LinkIDs n)"

lemma link_ids_back [simp]:
  "length ls \<le> 10000 \<Longrightarrow> list_all wf_LinkIDPair ls \<Longrightarrow>
     read_list (decodeLinkIDPair zero_LinkIDPair) (writeList et encodeLinkIDPair ls @ rest) = Inr (ls, rest)"
  using read_list_back [of ls "decodeLinkIDPair zero_LinkIDPair" encodeLinkIDPair "\<lambda>x. x"]
  by (simp add: list_all_iff)

lemma NodeNeighbors_links [simp]:
  "nn_LinkIDs s = [] \<Longrightarrow> length ls \<le> 10000 \<Longrightarrow> list_all wf_LinkIDPair ls \<Longrightarrow>
     decode_loop NodeNeighborsTIEElement_step s (set_field 4 12 encodeLinkIDPair ls @ rest) =
     decode_loop NodeNeighborsTIEElement_step (s\<lparr>nn_LinkIDs := ls\<rparr>) rest"
  by (cases s) (simp add: field_defs NodeNeighborsTIEElement_step_def)

lemma NodeNeighborsTIEElement_fields [simp]:
  "nn_Cost s = None \<Longrightarrow>
     decode_loop NodeNeighborsTIEElement_step s (opt_field 8 3 writeI32 v3 @ rest) =
     decode_loop NodeNeighborsTIEElement_step (s\<lparr>nn_Cost := v3\<rparr>) rest"
  "nn_Bandwidth s = None \<Longrightarrow>
     decode_loop NodeNeighborsTIEElement_step s (opt_field 8 5 writeI32 v5 @ rest) =
     decode_loop NodeNeighborsTIEElement_step (s\<lparr>nn_Bandwidth := v5\<rparr>) rest"
  by (cases s; simp add: field_defs NodeNeighborsTIEElement_step_def fold_gs_add_distinct split: option.split)+

lemma NodeNeighborsTIEElement_back [simp]: "wf_NodeNeighbors x \<Longrightarrow> decodeNodeNeighborsTIEElement zero_NodeNeighbors (encodeNodeNeighborsTIEElement x @ rest) = Inr (x, rest)"
  by (cases x) (simp add: decodeNodeNeighborsTIEElement_def encodeNodeNeighborsTIEElement_def NodeNeighborsTIEElement_step_def zero_NodeNeighbors_def wf_NodeNeighbors_def)

lemma fold_gm_put_distinct:
  "distinct (map fst (m @ xs)) \<Longrightarrow> fold (\<lambda>(k, v). gm_put k v) xs m = m @ xs"
proof (induction xs arbitrary: m)
  case (Cons x xs)
  have "gm_put k v m = m @ [(k, v)]" if "k \<notin> set (map fst m)" for k and v
    using that unfolding gm_put_def by (induction m) auto
  with Cons show ?case by (cases x) auto
qed simp

lemma sorted_entries_keys: "map fst (sorted_entries m) = sort_key sint (gm_keys m)"
  by (simp add: sorted_entries_def comp_def)

lemma sorted_entries_props:
  assumes "gm_wf m"
  shows "distinct (map fst (sorted_entries m))" and "length (sorted_entries m) = length m"
    and "set (sorted_entries m) = set m" and "gm_get (sorted_entries m) k = gm_get m k"
proof -
  show d: "distinct (map fst (sorted_entries m))"
    using assms by (simp add: sorted_entries_keys gm.keys_distinct)
  show "length (sorted_entries m) = length m"
    by (simp add: sorted_entries_def gm_keys_def)
  show s: "set (sorted_entries m) = set m"
    using assms by (force simp: sorted_entries_def gm_keys_def gm_get_in [symmetric])
  show "gm_get (sorted_entries m) k = gm_get m k"
    using d s assms by (simp add: gm_get_def gm_wf_def) (metis map_of_inject_set)
qed

definition wf_NodeTIEElement :: "NodeTIEElement \<Rightarrow> bool" where
  "wf_NodeTIEElement n \<longleftrightarrow> gm_wf (nt_Neighbors n) \<and> length (nt_Neighbors n) \<le> 10000 \<and>
     list_all (\<lambda>(_, v). wf_NodeNeighbors v) (nt_Neighbors n) \<and> length (nt_Name n) \<le> 1048576 \<and>
     length (nt_MiscabledLinks n) \<le> 10000 \<and> distinct (nt_MiscabledLinks n) \<and>
     length (nt_SamePlaneTofs n) \<le> 10000 \<and> distinct (nt_SamePlaneTofs n)"

definition canon_NodeTIEElement :: "NodeTIEElement \<Rightarrow> NodeTIEElement" where
  "canon_NodeTIEElement n = n\<lparr>nt_Neighbors := sorted_entries (nt_Neighbors n)\<rparr>"

lemma neighbors_back [simp]:
  assumes "length es \<le> 10000" and "list_all (\<lambda>(_, v). wf_NodeNeighbors v) es"
  shows "read_map readI64 (decodeNodeNeighborsTIEElement zero_NodeNeighbors)
      (writeByte kt @ writeList vt (\<lambda>(k, v). writeI64 k @ encodeNodeNeighborsTIEElement v) es @ rest) =
    Inr (es, rest)"
proof -
  have "read_pair readI64 (decodeNodeNeighborsTIEElement zero_NodeNeighbors)
      ((case e of (k, v) \<Rightarrow> writeI64 k @ encodeNodeNeighborsTIEElement v) @ r) = Inr (e, r)"
    if "e \<in> set es" for e r
  proof (cases e)
    case (Pair k v)
    with that assms(2) have "wf_NodeNeighbors v" by (auto simp: list_all_iff)
    with Pair show ?thesis by (simp add: read_pair_back)
  qed
  with read_map_back [of es readI64 "decodeNodeNeighborsTIEElement zero_NodeNeighbors" _ "\<lambda>x. x"] assms(1)
  show ?thesis by simp
qed

lemma NodeTIEElement_fields [simp]:
  "nt_Flags s = None \<Longrightarrow>
     decode_loop NodeTIEElement_step s (opt_field 12 4 encodeNodeFlags v4 @ rest) =
     decode_loop NodeTIEElement_step (s\<lparr>nt_Flags := v4\<rparr>) rest"
  "nt_Name s = [] \<Longrightarrow> length v5 \<le> 1048576 \<Longrightarrow>
     decode_loop NodeTIEElement_step s (str_field 5 v5 @ rest) =
     decode_loop NodeTIEElement_step (s\<lparr>nt_Name := v5\<rparr>) rest"
  "nt_Pod s = None \<Longrightarrow>
     decode_loop NodeTIEElement_step s (opt_field 8 6 writeI32 v6 @ rest) =
     decode_loop NodeTIEElement_step (s\<lparr>nt_Pod := v6\<rparr>) rest"
  "nt_StartupTime s = None \<Longrightarrow>
     decode_loop NodeTIEElement_step s (opt_field 10 7 writeI64 v7 @ rest) =
     decode_loop NodeTIEElement_step (s\<lparr>nt_StartupTime := v7\<rparr>) rest"
  "nt_MiscabledLinks s = [] \<Longrightarrow> length v10 \<le> 10000 \<Longrightarrow> distinct v10 \<Longrightarrow>
     decode_loop NodeTIEElement_step s (set_field 10 8 writeI32 v10 @ rest) =
     decode_loop NodeTIEElement_step (s\<lparr>nt_MiscabledLinks := v10\<rparr>) rest"
  "nt_SamePlaneTofs s = [] \<Longrightarrow> length v12 \<le> 10000 \<Longrightarrow> distinct v12 \<Longrightarrow>
     decode_loop NodeTIEElement_step s (set_field 12 10 writeI64 v12 @ rest) =
     decode_loop NodeTIEElement_step (s\<lparr>nt_SamePlaneTofs := v12\<rparr>) rest"
  "nt_FabricID s = None \<Longrightarrow>
     decode_loop NodeTIEElement_step s (opt_field 8 20 writeI32 v20 @ rest) =
     decode_loop NodeTIEElement_step (s\<lparr>nt_FabricID := v20\<rparr>) rest"
  by (cases s; simp add: field_defs NodeTIEElement_step_def fold_gs_add_distinct split: option.split)+

lemma NodeTIEElement_back [simp]:
  assumes "wf_NodeTIEElement x"
  shows "decodeNodeTIEElement zero_NodeTIEElement (encodeNodeTIEElement x @ rest) = Inr (canon_NodeTIEElement x, rest)"
proof -
  have wf: "gm_wf (nt_Neighbors x)" using assms by (simp add: wf_NodeTIEElement_def)
  note es = sorted_entries_props [OF wf]
  have "list_all (\<lambda>(_, v). wf_NodeNeighbors v) (sorted_entries (nt_Neighbors x))"
    using assms es(3) by (simp add: wf_NodeTIEElement_def list_all_iff)
  moreover have "fold (\<lambda>(k, n). gm_put k n) (sorted_entries (nt_Neighbors x)) [] = sorted_entries (nt_Neighbors x)"
    using fold_gm_put_distinct [of "[]" "sorted_entries (nt_Neighbors x)"] es(1) by simp
  ultimately show ?thesis
    using assms es(2)
    by (cases x) (simp add: decodeNodeTIEElement_def encodeNodeTIEElement_def NodeTIEElement_step_def
        zero_NodeTIEElement_def wf_NodeTIEElement_def canon_NodeTIEElement_def)
qed

section \<open>Prefix and key-value TIE elements\<close>

lemma IPv4PrefixType_back [simp]: "decodeIPv4PrefixType zero_IPv4Prefix (encodeIPv4PrefixType x @ rest) = Inr (x, rest)"
  by (cases x) (simp add: decodeIPv4PrefixType_def encodeIPv4PrefixType_def IPv4PrefixType_step_def zero_IPv4Prefix_def)

definition wf_IPPrefixType :: "IPPrefixType \<Rightarrow> bool" where
  "wf_IPPrefixType p \<longleftrightarrow> (ip_IPv4Prefix p = None \<or> ip_IPv6Prefix p = None) \<and>
     (case ip_IPv6Prefix p of None \<Rightarrow> True | Some p6 \<Rightarrow> length (p6_Address p6) \<le> 1048576)"

lemma IPv6PrefixType_back [simp]:
  "length (p6_Address x) \<le> 1048576 \<Longrightarrow> decodeIPv6PrefixType zero_IPv6Prefix (encodeIPv6PrefixType x @ rest) = Inr (x, rest)"
  by (cases x) (simp add: decodeIPv6PrefixType_def encodeIPv6PrefixType_def IPv6PrefixType_step_def zero_IPv6Prefix_def)

lemma IPPrefixType_back [simp]:
  "wf_IPPrefixType x \<Longrightarrow> decodeIPPrefixType zero_IPPrefix (encodeIPPrefixType x @ rest) = Inr (x, rest)"
  by (cases x) (auto simp: decodeIPPrefixType_def encodeIPPrefixType_def IPPrefixType_step_def
      zero_IPPrefix_def wf_IPPrefixType_def split: option.splits)

lemma PrefixSequenceType_fields [simp]:
  "ps_TransactionID s = None \<Longrightarrow>
     decode_loop PrefixSequenceType_step s (opt_field 3 2 writeByte v2 @ rest) =
     decode_loop PrefixSequenceType_step (s\<lparr>ps_TransactionID := v2\<rparr>) rest"
  by (cases s; simp add: field_defs PrefixSequenceType_step_def fold_gs_add_distinct split: option.split)+

lemma PrefixSequenceType_back [simp]: "decodePrefixSequenceType zero_PrefixSequence (encodePrefixSequenceType x @ rest) = Inr (x, rest)"
  by (cases x) (simp add: decodePrefixSequenceType_def encodePrefixSequenceType_def PrefixSequenceType_step_def zero_PrefixSequence_def)

definition wf_PrefixAttributes :: "PrefixAttributes \<Rightarrow> bool" where
  "wf_PrefixAttributes a \<longleftrightarrow> length (pa_Tags a) \<le> 10000 \<and> distinct (pa_Tags a)"

lemma PrefixAttributes_fields [simp]:
  "pa_Tags s = [] \<Longrightarrow> length v3 \<le> 10000 \<Longrightarrow> distinct v3 \<Longrightarrow>
     decode_loop PrefixAttributes_step s (set_field 3 10 writeI64 v3 @ rest) =
     decode_loop PrefixAttributes_step (s\<lparr>pa_Tags := v3\<rparr>) rest"
  "pa_MonotonicClock s = None \<Longrightarrow>
     decode_loop PrefixAttributes_step s (opt_field 12 4 encodePrefixSequenceType v4 @ rest) =
     decode_loop PrefixAttributes_step (s\<lparr>pa_MonotonicClock := v4\<rparr>) rest"
  "pa_Loopback s = None \<Longrightarrow>
     decode_loop PrefixAttributes_step s (opt_field 2 6 writeBool v6 @ rest) =
     decode_loop PrefixAttributes_step (s\<lparr>pa_Loopback := v6\<rparr>) rest"
  "pa_DirectlyAttached s = None \<Longrightarrow>
     decode_loop PrefixAttributes_step s (opt_field 2 7 writeBool v7 @ rest) =
     decode_loop PrefixAttributes_step (s\<lparr>pa_DirectlyAttached := v7\<rparr>) rest"
  "pa_FromLink s = None \<Longrightarrow>
     decode_loop PrefixAttributes_step s (opt_field 8 10 writeI32 v10 @ rest) =
     decode_loop PrefixAttributes_step (s\<lparr>pa_FromLink := v10\<rparr>) rest"
  "pa_Label s = None \<Longrightarrow>
     decode_loop PrefixAttributes_step s (opt_field 8 12 writeI32 v12 @ rest) =
     decode_loop PrefixAttributes_step (s\<lparr>pa_Label := v12\<rparr>) rest"
  by (cases s; simp add: field_defs PrefixAttributes_step_def fold_gs_add_distinct split: option.split)+

lemma PrefixAttributes_back [simp]: "wf_PrefixAttributes x \<Longrightarrow> decodePrefixAttributes zero_PrefixAttributes (encodePrefixAttributes x @ rest) = Inr (x, rest)"
  by (cases x) (simp add: decodePrefixAttributes_def encodePrefixAttributes_def PrefixAttributes_step_def zero_PrefixAttributes_def wf_PrefixAttributes_def)

definition wf_PrefixTIEElement :: "PrefixTIEElement \<Rightarrow> bool" where
  "wf_PrefixTIEElement p \<longleftrightarrow> length (pt_Prefixes p) \<le> 10000 \<and>
     list_all (\<lambda>e. wf_IPPrefixType (pe_Prefix e) \<and> wf_PrefixAttributes (pe_Attributes e)) (pt_Prefixes p)"

lemma prefix_entries_back [simp]:
  assumes "wf_PrefixTIEElement x"
  shows "read_list decodePrefixEntry (writeList et
      (\<lambda>e. encodeIPPrefixType (pe_Prefix e) @ encodePrefixAttributes (pe_Attributes e)) (pt_Prefixes x) @ rest) =
    Inr (pt_Prefixes x, rest)"
proof -
  have "decodePrefixEntry ((encodeIPPrefixType (pe_Prefix e) @ encodePrefixAttributes (pe_Attributes e)) @ r) =
      Inr (e, r)" if "e \<in> set (pt_Prefixes x)" for e r
    using that assms
    by (simp add: decodePrefixEntry_def wf_PrefixTIEElement_def list_all_iff read_pair_back)
  with read_list_back [of "pt_Prefixes x" decodePrefixEntry _ "\<lambda>x. x"] assms
  show ?thesis by (simp add: wf_PrefixTIEElement_def)
qed

lemma PrefixTIEElement_back [simp]: "wf_PrefixTIEElement x \<Longrightarrow> decodePrefixTIEElement zero_PrefixTIEElement (encodePrefixTIEElement x @ rest) = Inr (x, rest)"
  by (cases x) (simp add: decodePrefixTIEElement_def encodePrefixTIEElement_def PrefixTIEElement_step_def zero_PrefixTIEElement_def prefix_entries_back [of "\<lparr>pt_Prefixes = _\<rparr>", simplified])

definition wf_KeyValueContent :: "KeyValueTIEElementContent \<Rightarrow> bool" where
  "wf_KeyValueContent c \<longleftrightarrow> (case kc_Value c of None \<Rightarrow> True | Some v \<Rightarrow> length v \<le> 1048576)"

lemma KeyValueContent_value [simp]:
  "kc_Value s = None \<Longrightarrow> (case w of None \<Rightarrow> True | Some v \<Rightarrow> length v \<le> 1048576) \<Longrightarrow>
     decode_loop KeyValueTIEElementContent_step s (opt_field 11 2 writeBinary w @ rest) =
     decode_loop KeyValueTIEElementContent_step (s\<lparr>kc_Value := w\<rparr>) rest"
  by (cases s) (simp add: field_defs KeyValueTIEElementContent_step_def split: option.splits)

lemma KeyValueTIEElementContent_fields [simp]:
  "kc_Targets s = None \<Longrightarrow>
     decode_loop KeyValueTIEElementContent_step s (opt_field 10 1 writeI64 v1 @ rest) =
     decode_loop KeyValueTIEElementContent_step (s\<lparr>kc_Targets := v1\<rparr>) rest"
  by (cases s; simp add: field_defs KeyValueTIEElementContent_step_def fold_gs_add_distinct split: option.split)+

lemma KeyValueTIEElementContent_back [simp]: "wf_KeyValueContent x \<Longrightarrow> decodeKeyValueTIEElementContent zero_KeyValueContent (encodeKeyValueTIEElementContent x @ rest) = Inr (x, rest)"
  by (cases x) (simp add: decodeKeyValueTIEElementContent_def encodeKeyValueTIEElementContent_def KeyValueTIEElementContent_step_def zero_KeyValueContent_def wf_KeyValueContent_def)

definition wf_KeyValueTIEElement :: "KeyValueTIEElement \<Rightarrow> bool" where
  "wf_KeyValueTIEElement kv \<longleftrightarrow> gm_wf (kv_KeyValues kv) \<and> length (kv_KeyValues kv) \<le> 10000 \<and>
     list_all (\<lambda>(_, v). wf_KeyValueContent v) (kv_KeyValues kv)"

lemma key_values_back [simp]:
  assumes "length es \<le> 10000" and "list_all (\<lambda>(_, v). wf_KeyValueContent v) es"
  shows "read_map readI32 (decodeKeyValueTIEElementContent zero_KeyValueContent)
      (writeByte kt @ writeList vt (\<lambda>(k, v). writeI32 k @ encodeKeyValueTIEElementContent v) es @ rest) =
    Inr (es, rest)"
proof -
  have "read_pair readI32 (decodeKeyValueTIEElementContent zero_KeyValueContent)
      ((case e of (k, v) \<Rightarrow> writeI32 k @ encodeKeyValueTIEElementContent v) @ r) = Inr (e, r)"
    if "e \<in> set es" for e r
  proof (cases e)
    case (Pair k v)
    with that assms(2) have "wf_KeyValueContent v" by (auto simp: list_all_iff)
    with Pair show ?thesis by (simp add: read_pair_back)
  qed
  with read_map_back [of es readI32 "decodeKeyValueTIEElementContent zero_KeyValueContent" _ "\<lambda>x. x"] assms(1)
  show ?thesis by simp
qed

lemma KeyValueTIEElement_back [simp]:
  assumes "wf_KeyValueTIEElement x"
  shows "decodeKeyValueTIEElement zero_KeyValueTIEElement (encodeKeyValueTIEElement x @ rest) = Inr (x, rest)"
  using assms fold_gm_put_distinct [of "[]" "kv_KeyValues x"]
  by (cases x) (simp add: decodeKeyValueTIEElement_def encodeKeyValueTIEElement_def KeyValueTIEElement_step_def
      zero_KeyValueTIEElement_def wf_KeyValueTIEElement_def gm_wf_def)

section \<open>Unions and packets\<close>

text \<open>A well-formed union has exactly one variant set.\<close>

definition wf_TIEElement :: "TIEElement \<Rightarrow> bool" where
  "wf_TIEElement el \<longleftrightarrow>
     (case el_Node el of Some n \<Rightarrow> el = zero_TIEElement\<lparr>el_Node := Some n\<rparr> \<and> wf_NodeTIEElement n | None \<Rightarrow>
      case el_Prefixes el of
        Some p \<Rightarrow> el = zero_TIEElement\<lparr>el_Prefixes := Some p\<rparr> \<and> wf_PrefixTIEElement p | None \<Rightarrow>
      case el_PositiveDisaggregationPrefixes el of
        Some p \<Rightarrow> el = zero_TIEElement\<lparr>el_PositiveDisaggregationPrefixes := Some p\<rparr> \<and> wf_PrefixTIEElement p | None \<Rightarrow>
      case el_NegativeDisaggregationPrefixes el of
        Some p \<Rightarrow> el = zero_TIEElement\<lparr>el_NegativeDisaggregationPrefixes := Some p\<rparr> \<and> wf_PrefixTIEElement p | None \<Rightarrow>
      case el_ExternalPrefixes el of
        Some p \<Rightarrow> el = zero_TIEElement\<lparr>el_ExternalPrefixes := Some p\<rparr> \<and> wf_PrefixTIEElement p | None \<Rightarrow>
      case el_PositiveExternalDisaggregationPrefixes el of
        Some p \<Rightarrow> el = zero_TIEElement\<lparr>el_PositiveExternalDisaggregationPrefixes := Some p\<rparr> \<and> wf_PrefixTIEElement p | None \<Rightarrow>
      case el_KeyValues el of
        Some kv \<Rightarrow> el = zero_TIEElement\<lparr>el_KeyValues := Some kv\<rparr> \<and> wf_KeyValueTIEElement kv | None \<Rightarrow> False)"

definition canon_TIEElement :: "TIEElement \<Rightarrow> TIEElement" where
  "canon_TIEElement el = el\<lparr>el_Node := map_option canon_NodeTIEElement (el_Node el)\<rparr>"

lemma TIEElement_back:
  assumes "wf_TIEElement el"
  obtains bs where "encodeTIEElement el = Inr bs"
    and "\<And>rest. decodeTIEElement zero_TIEElement (bs @ rest) = Inr (canon_TIEElement el, rest)"
proof -
  have "\<exists>bs. encodeTIEElement el = Inr bs \<and>
      (\<forall>rest. decodeTIEElement zero_TIEElement (bs @ rest) = Inr (canon_TIEElement el, rest))"
    using assms
    by (cases el)
      (auto simp: wf_TIEElement_def encodeTIEElement_def Let_def decodeTIEElement_def TIEElement_step_def
        zero_TIEElement_def canon_TIEElement_def split: option.splits)
  with that show thesis by blast
qed

definition wf_ProtocolPacket :: "ProtocolPacket \<Rightarrow> bool" where
  "wf_ProtocolPacket p \<longleftrightarrow> (let c = pp_Content p in
      case pc_LIE c of Some lie \<Rightarrow> c = zero_PacketContent\<lparr>pc_LIE := Some lie\<rparr> \<and> wf_LIEPacket lie | None \<Rightarrow>
      case pc_TIDE c of Some tide \<Rightarrow> c = zero_PacketContent\<lparr>pc_TIDE := Some tide\<rparr> \<and> wf_TIDEPacket tide | None \<Rightarrow>
      case pc_TIRE c of Some tire \<Rightarrow> c = zero_PacketContent\<lparr>pc_TIRE := Some tire\<rparr> \<and> wf_TIREPacket tire | None \<Rightarrow>
      case pc_TIE c of Some tie \<Rightarrow> c = zero_PacketContent\<lparr>pc_TIE := Some tie\<rparr> \<and> wf_TIEElement (tie_Element tie)
      | None \<Rightarrow> False)"

definition canon_TIEPacket :: "TIEPacket \<Rightarrow> TIEPacket" where
  "canon_TIEPacket tie = tie\<lparr>tie_Element := canon_TIEElement (tie_Element tie)\<rparr>"

definition canon_ProtocolPacket :: "ProtocolPacket \<Rightarrow> ProtocolPacket" where
  "canon_ProtocolPacket p = p\<lparr>pp_Content := (pp_Content p)\<lparr>pc_TIE :=
     map_option canon_TIEPacket (pc_TIE (pp_Content p))\<rparr>\<rparr>"

lemma TIEPacket_back:
  assumes "wf_TIEElement (tie_Element x)"
  obtains bs where "encodeTIEPacket x = Inr bs"
    and "\<And>rest. decodeTIEPacket zero_TIEPacket (bs @ rest) = Inr (canon_TIEPacket x, rest)"
proof -
  obtain bs where bs: "encodeTIEElement (tie_Element x) = Inr bs"
    "\<And>rest. decodeTIEElement zero_TIEElement (bs @ rest) = Inr (canon_TIEElement (tie_Element x), rest)"
    using TIEElement_back [OF assms] by blast
  show thesis
    by (rule that, simp add: encodeTIEPacket_def bs(1), cases x)
      (use bs in \<open>simp add: decodeTIEPacket_def TIEPacket_step_def zero_TIEPacket_def canon_TIEPacket_def\<close>)
qed

lemma ProtocolPacket_back:
  assumes "wf_ProtocolPacket p"
  obtains bs where "EncodeProtocolPacket p = Inr bs"
    and "\<And>rest. DecodeProtocolPacket (bs @ rest) = Inr (canon_ProtocolPacket p, rest)"
proof -
  have "\<exists>cs. encodePacketContent (pp_Content p) = Inr cs \<and>
      (\<forall>rest. decodePacketContent zero_PacketContent (cs @ rest) = Inr (pp_Content (canon_ProtocolPacket p), rest))"
  proof (cases "pc_TIE (pp_Content p)")
    case None
    with assms show ?thesis
      by (cases "pp_Content p")
        (auto simp: wf_ProtocolPacket_def Let_def encodePacketContent_def decodePacketContent_def
          PacketContent_step_def zero_PacketContent_def canon_ProtocolPacket_def split: option.splits)
  next
    case (Some tie)
    with assms have c: "pp_Content p = zero_PacketContent\<lparr>pc_TIE := Some tie\<rparr>" "wf_TIEElement (tie_Element tie)"
      by (auto simp: wf_ProtocolPacket_def Let_def zero_PacketContent_def split: option.splits)
    obtain bs where "encodeTIEPacket tie = Inr bs"
      "\<And>rest. decodeTIEPacket zero_TIEPacket (bs @ rest) = Inr (canon_TIEPacket tie, rest)"
      using TIEPacket_back [OF c(2)] by blast
    with c(1) show ?thesis
      by (simp add: encodePacketContent_def Let_def decodePacketContent_def PacketContent_step_def
          zero_PacketContent_def canon_ProtocolPacket_def)
  qed
  then obtain cs where cs: "encodePacketContent (pp_Content p) = Inr cs"
    "\<And>rest. decodePacketContent zero_PacketContent (cs @ rest) = Inr (pp_Content (canon_ProtocolPacket p), rest)"
    by blast
  show thesis
    by (rule that, simp add: EncodeProtocolPacket_def cs(1), cases p)
      (use cs in \<open>simp add: DecodeProtocolPacket_def ProtocolPacket_step_def zero_ProtocolPacket_def
        canon_ProtocolPacket_def\<close>)
qed

end
