(* ===== verification/Codec_Skip.thy ===== *)
theory Codec_Skip
  imports Codec_Roundtrip
begin

text \<open>
  \<open>skip\<close> over encoded values: for every struct the encoder writes, the type bytes on the wire
  describe what follows, so that a receiver that does not know a field passes over exactly its
  value. (The decoder does not look at the type bytes of known fields, so this does not follow
  from the round trip.) And the properties of the codec as a whole.
\<close>

section \<open>Skipping the parts\<close>

text \<open>\<open>skip\<close> and its loops without their checks.\<close>

lemma skip_less: "skip ft bs = Inr (u, bs') \<Longrightarrow> length bs' < length bs"
  using skip_shrinks(1) [of bs ft] by (simp add: shrinks_def)

lemma skip_prims [simp]:
  "skip 2 (writeBool b @ rest) = Inr ((), rest)"
  "skip 3 (writeByte y @ rest) = Inr ((), rest)"
  "skip 6 (writeI16 h @ rest) = Inr ((), rest)"
  "skip 8 (writeI32 i @ rest) = Inr ((), rest)"
  "skip 10 (writeI64 l @ rest) = Inr ((), rest)"
  "length v \<le> 1048576 \<Longrightarrow> skip 11 (writeBinary v @ rest) = Inr ((), rest)"
  by (simp_all add: skip.simps writeBool_def)

lemma skip_string [simp]: "length s \<le> 1048576 \<Longrightarrow> skip 11 (writeString s @ rest) = Inr ((), rest)"
  using skip_prims(6) [of "string_bytes s" rest] by (simp add: writeString_def writeBinary_def)

lemma skip_struct [simp]: "skip 12 bs = skip_fields bs"
  by (simp add: skip.simps)

lemma skip_fields_stop [simp]: "skip_fields (writeFieldStop @ rest) = Inr ((), rest)"
  by (simp add: skip_fields.simps)

lemma skip_fields_field:
  assumes "ft \<noteq> 0" and "skip ft bs = Inr ((), bs')"
  shows "skip_fields (writeFieldHeader ft fid @ bs) = skip_fields bs'"
  using assms skip_less [OF assms(2)]
  by (subst skip_fields.simps) (simp add: writeFieldHeader_def writeByte_def writeI16_def readFieldHeader_def
      readByte_def readI16_def readFull_def)

lemma skip_elems_back:
  assumes "\<And>x r. x \<in> set xs \<Longrightarrow> skip et (enc x @ r) = Inr ((), r)"
  shows "skip_elems et (length xs) (concat (map enc xs) @ rest) = Inr ((), rest)"
  using assms
proof (induction xs)
  case (Cons x xs)
  have s: "skip et (enc x @ concat (map enc xs) @ rest) = Inr ((), concat (map enc xs) @ rest)"
    using Cons.prems by simp
  with Cons skip_less [OF s] show ?case by simp
qed simp

lemma skip_entries_back:
  assumes "\<And>x r. x \<in> set xs \<Longrightarrow> skip kt (ka x @ r) = Inr ((), r)"
    and "\<And>x r. x \<in> set xs \<Longrightarrow> skip vt (va x @ r) = Inr ((), r)"
  shows "skip_entries kt vt (length xs) (concat (map (\<lambda>x. ka x @ va x) xs) @ rest) = Inr ((), rest)"
  using assms
proof (induction xs)
  case (Cons x xs)
  let ?r = "concat (map (\<lambda>x. ka x @ va x) xs) @ rest"
  have s: "skip kt (ka x @ va x @ ?r) = Inr ((), va x @ ?r)" "skip vt (va x @ ?r) = Inr ((), ?r)"
    using Cons.prems by simp_all
  with Cons skip_less [OF s(1)] skip_less [OF s(2)] show ?case by simp
qed simp

lemma skip_list_back:
  assumes "\<And>x r. x \<in> set xs \<Longrightarrow> skip et (enc x @ r) = Inr ((), r)" and "length xs \<le> 10000"
  shows "skip 14 (writeList et enc xs @ rest) = Inr ((), rest)"
    and "skip 15 (writeList et enc xs @ rest) = Inr ((), rest)"
  using assms skip_elems_back [of xs et enc rest]
  by (simp_all add: skip.simps [of 14] skip.simps [of 15] writeList_def sint_of_nat32
      writeI32_def [THEN arg_cong, of length] writeByte_def [THEN arg_cong, of length])

lemma skip_map_back:
  assumes "\<And>x r. x \<in> set xs \<Longrightarrow> skip kt (ka x @ r) = Inr ((), r)"
    and "\<And>x r. x \<in> set xs \<Longrightarrow> skip vt (va x @ r) = Inr ((), r)" and "length xs \<le> 10000"
  shows "skip 13 (writeByte kt @ writeList vt (\<lambda>x. ka x @ va x) xs @ rest) = Inr ((), rest)"
  using assms skip_entries_back [of xs kt ka vt va rest]
  by (simp add: skip.simps [of 13] writeList_def sint_of_nat32
      writeI32_def [THEN arg_cong, of length] writeByte_def [THEN arg_cong, of length])

text \<open>The fields of a struct, mandatory and optional.\<close>

lemma skip_field_mand [simp]:
  "skip_fields (writeFieldHeader 2 fid @ writeBool b @ rest) = skip_fields rest"
  "skip_fields (writeFieldHeader 3 fid @ writeByte y @ rest) = skip_fields rest"
  "skip_fields (writeFieldHeader 6 fid @ writeI16 h @ rest) = skip_fields rest"
  "skip_fields (writeFieldHeader 8 fid @ writeI32 i @ rest) = skip_fields rest"
  "skip_fields (writeFieldHeader 10 fid @ writeI64 l @ rest) = skip_fields rest"
  "length v \<le> 1048576 \<Longrightarrow> skip_fields (writeFieldHeader 11 fid @ writeBinary v @ rest) = skip_fields rest"
  "length s \<le> 1048576 \<Longrightarrow> skip_fields (writeFieldHeader 11 fid @ writeString s @ rest) = skip_fields rest"
  by (simp_all add: skip_fields_field)

lemma skip_field_str [simp]:
  "length s \<le> 1048576 \<Longrightarrow> skip_fields (str_field fid s @ rest) = skip_fields rest"
  by (simp add: str_field_def)

lemma skip_field_opt [simp]:
  "skip_fields (opt_field 2 fid writeBool ob @ rest) = skip_fields rest"
  "skip_fields (opt_field 3 fid writeByte oy @ rest) = skip_fields rest"
  "skip_fields (opt_field 8 fid writeI32 oi @ rest) = skip_fields rest"
  "skip_fields (opt_field 10 fid writeI64 ol @ rest) = skip_fields rest"
  by (simp_all add: opt_field_def split: option.split)

lemma skip_field_set [simp]:
  "length ws \<le> 10000 \<Longrightarrow> skip_fields (set_field fid 8 writeI32 ws @ rest) = skip_fields rest"
  "length ls \<le> 10000 \<Longrightarrow> skip_fields (set_field fid 10 writeI64 ls @ rest) = skip_fields rest"
  by (simp_all add: set_field_def skip_fields_field skip_list_back)

section \<open>Skipping the structs\<close>

lemma skip_PacketHeader [simp]:
  "skip_fields (encodePacketHeader x @ rest) = Inr ((), rest)"
  "skip_fields (writeFieldHeader 12 fid @ encodePacketHeader x @ rest) = skip_fields rest"
  by (simp_all add: skip_fields_field encodePacketHeader_def)

lemma skip_Neighbor [simp]:
  "skip_fields (encodeNeighbor x @ rest) = Inr ((), rest)"
  "skip_fields (writeFieldHeader 12 fid @ encodeNeighbor x @ rest) = skip_fields rest"
  by (simp_all add: skip_fields_field encodeNeighbor_def)

lemma skip_opt_Neighbor [simp]:
  "skip_fields (opt_field 12 fid encodeNeighbor ox @ rest) = skip_fields rest"
  by (simp add: opt_field_def split: option.splits)

lemma skip_NodeCapabilities [simp]:
  "skip_fields (encodeNodeCapabilities x @ rest) = Inr ((), rest)"
  "skip_fields (writeFieldHeader 12 fid @ encodeNodeCapabilities x @ rest) = skip_fields rest"
  by (simp_all add: skip_fields_field encodeNodeCapabilities_def)

lemma skip_LinkCapabilities [simp]:
  "skip_fields (encodeLinkCapabilities x @ rest) = Inr ((), rest)"
  "skip_fields (writeFieldHeader 12 fid @ encodeLinkCapabilities x @ rest) = skip_fields rest"
  by (simp_all add: skip_fields_field encodeLinkCapabilities_def)

lemma skip_opt_LinkCapabilities [simp]:
  "skip_fields (opt_field 12 fid encodeLinkCapabilities ox @ rest) = skip_fields rest"
  by (simp add: opt_field_def split: option.splits)

lemma skip_LIEPacket [simp]:
  "wf_LIEPacket x \<Longrightarrow> skip_fields (encodeLIEPacket x @ rest) = Inr ((), rest)"
  "wf_LIEPacket x \<Longrightarrow> skip_fields (writeFieldHeader 12 fid @ encodeLIEPacket x @ rest) = skip_fields rest"
  by (simp_all add: skip_fields_field encodeLIEPacket_def wf_LIEPacket_def)

lemma skip_IEEE802_1ASTimestamp [simp]:
  "skip_fields (encodeIEEE802_1ASTimestamp x @ rest) = Inr ((), rest)"
  "skip_fields (writeFieldHeader 12 fid @ encodeIEEE802_1ASTimestamp x @ rest) = skip_fields rest"
  by (simp_all add: skip_fields_field encodeIEEE802_1ASTimestamp_def)

lemma skip_opt_IEEE802_1ASTimestamp [simp]:
  "skip_fields (opt_field 12 fid encodeIEEE802_1ASTimestamp ox @ rest) = skip_fields rest"
  by (simp add: opt_field_def split: option.splits)

lemma skip_TIEID [simp]:
  "skip_fields (encodeTIEID x @ rest) = Inr ((), rest)"
  "skip_fields (writeFieldHeader 12 fid @ encodeTIEID x @ rest) = skip_fields rest"
  by (simp_all add: skip_fields_field encodeTIEID_def)

lemma skip_TIEHeader [simp]:
  "skip_fields (encodeTIEHeader x @ rest) = Inr ((), rest)"
  "skip_fields (writeFieldHeader 12 fid @ encodeTIEHeader x @ rest) = skip_fields rest"
  by (simp_all add: skip_fields_field encodeTIEHeader_def)

lemma skip_TIEHeaderWithLifeTimeInline [simp]:
  "skip_fields (encodeTIEHeaderWithLifeTimeInline x @ rest) = Inr ((), rest)"
  "skip_fields (writeFieldHeader 12 fid @ encodeTIEHeaderWithLifeTimeInline x @ rest) = skip_fields rest"
  by (simp_all add: skip_fields_field encodeTIEHeaderWithLifeTimeInline_def)

lemma skip_TIDEPacket [simp]:
  "wf_TIDEPacket x \<Longrightarrow> skip_fields (encodeTIDEPacket x @ rest) = Inr ((), rest)"
  "wf_TIDEPacket x \<Longrightarrow> skip_fields (writeFieldHeader 12 fid @ encodeTIDEPacket x @ rest) = skip_fields rest"
  by (simp_all add: skip_fields_field encodeTIDEPacket_def wf_TIDEPacket_def skip_list_back)

lemma skip_TIREPacket [simp]:
  "wf_TIREPacket x \<Longrightarrow> skip_fields (encodeTIREPacket x @ rest) = Inr ((), rest)"
  "wf_TIREPacket x \<Longrightarrow> skip_fields (writeFieldHeader 12 fid @ encodeTIREPacket x @ rest) = skip_fields rest"
  by (simp_all add: skip_fields_field encodeTIREPacket_def wf_TIREPacket_def skip_list_back)

lemma skip_NodeFlags [simp]:
  "skip_fields (encodeNodeFlags x @ rest) = Inr ((), rest)"
  "skip_fields (writeFieldHeader 12 fid @ encodeNodeFlags x @ rest) = skip_fields rest"
  by (simp_all add: skip_fields_field encodeNodeFlags_def)

lemma skip_opt_NodeFlags [simp]:
  "skip_fields (opt_field 12 fid encodeNodeFlags ox @ rest) = skip_fields rest"
  by (simp add: opt_field_def split: option.splits)

lemma skip_LinkIDPair [simp]:
  "wf_LinkIDPair x \<Longrightarrow> skip_fields (encodeLinkIDPair x @ rest) = Inr ((), rest)"
  "wf_LinkIDPair x \<Longrightarrow> skip_fields (writeFieldHeader 12 fid @ encodeLinkIDPair x @ rest) = skip_fields rest"
  by (simp_all add: skip_fields_field encodeLinkIDPair_def wf_LinkIDPair_def)

lemma skip_link_ids [simp]:
  "length ls \<le> 10000 \<Longrightarrow> list_all wf_LinkIDPair ls \<Longrightarrow>
     skip_fields (set_field fid 12 encodeLinkIDPair ls @ rest) = skip_fields rest"
  by (simp add: set_field_def skip_fields_field skip_list_back list_all_iff)

lemma skip_NodeNeighborsTIEElement [simp]:
  "wf_NodeNeighbors x \<Longrightarrow> skip_fields (encodeNodeNeighborsTIEElement x @ rest) = Inr ((), rest)"
  "wf_NodeNeighbors x \<Longrightarrow> skip_fields (writeFieldHeader 12 fid @ encodeNodeNeighborsTIEElement x @ rest) = skip_fields rest"
  by (simp_all add: skip_fields_field encodeNodeNeighborsTIEElement_def wf_NodeNeighbors_def)

lemma skip_neighbors [simp]:
  assumes "wf_NodeTIEElement n"
  shows "skip_fields (writeFieldHeader 13 fid @ writeByte 10 @ writeList 12
      (\<lambda>(k, v). writeI64 k @ encodeNodeNeighborsTIEElement v) (sorted_entries (nt_Neighbors n)) @ rest) =
    skip_fields rest"
proof (rule skip_fields_field)
  have wf: "gm_wf (nt_Neighbors n)" using assms by (simp add: wf_NodeTIEElement_def)
  note es = sorted_entries_props [OF wf]
  have v: "wf_NodeNeighbors (snd x)" if "x \<in> set (sorted_entries (nt_Neighbors n))" for x
    using that es(3) assms by (fastforce simp: wf_NodeTIEElement_def list_all_iff)
  have "skip 13 (writeByte 10 @ writeList 12 (\<lambda>x. writeI64 (fst x) @ encodeNodeNeighborsTIEElement (snd x))
      (sorted_entries (nt_Neighbors n)) @ rest) = Inr ((), rest)"
    using assms es(2) v by (intro skip_map_back) (auto simp: wf_NodeTIEElement_def)
  then show "skip 13 (writeByte 10 @ writeList 12 (\<lambda>(k, v). writeI64 k @ encodeNodeNeighborsTIEElement v)
      (sorted_entries (nt_Neighbors n)) @ rest) = Inr ((), rest)"
    by (simp add: case_prod_unfold)
qed simp

lemma skip_NodeTIEElement [simp]:
  assumes "wf_NodeTIEElement n"
  shows "skip_fields (encodeNodeTIEElement n @ rest) = Inr ((), rest)"
    and "skip_fields (writeFieldHeader 12 fid @ encodeNodeTIEElement n @ rest) = skip_fields rest"
proof -
  show s: "skip_fields (encodeNodeTIEElement n @ rest) = Inr ((), rest)" for rest
    using assms unfolding encodeNodeTIEElement_def by (simp add: skip_neighbors) (simp add: wf_NodeTIEElement_def)
  show "skip_fields (writeFieldHeader 12 fid @ encodeNodeTIEElement n @ rest) = skip_fields rest"
    by (rule skip_fields_field) (simp_all add: s)
qed

lemma skip_IPv4PrefixType [simp]:
  "skip_fields (encodeIPv4PrefixType x @ rest) = Inr ((), rest)"
  "skip_fields (writeFieldHeader 12 fid @ encodeIPv4PrefixType x @ rest) = skip_fields rest"
  by (simp_all add: skip_fields_field encodeIPv4PrefixType_def)

lemma skip_IPv6PrefixType [simp]:
  "length (p6_Address x) \<le> 1048576 \<Longrightarrow>
     skip_fields (writeFieldHeader 12 fid @ encodeIPv6PrefixType x @ rest) = skip_fields rest"
  by (simp add: skip_fields_field encodeIPv6PrefixType_def)

lemma skip_IPPrefixType [simp]: "wf_IPPrefixType x \<Longrightarrow> skip_fields (encodeIPPrefixType x @ rest) = Inr ((), rest)"
  by (auto simp: encodeIPPrefixType_def wf_IPPrefixType_def split: option.splits)

lemma skip_PrefixSequenceType [simp]:
  "skip_fields (encodePrefixSequenceType x @ rest) = Inr ((), rest)"
  "skip_fields (writeFieldHeader 12 fid @ encodePrefixSequenceType x @ rest) = skip_fields rest"
  by (simp_all add: skip_fields_field encodePrefixSequenceType_def)

lemma skip_opt_PrefixSequenceType [simp]:
  "skip_fields (opt_field 12 fid encodePrefixSequenceType ox @ rest) = skip_fields rest"
  by (simp add: opt_field_def split: option.splits)

lemma skip_PrefixAttributes [simp]:
  "wf_PrefixAttributes x \<Longrightarrow> skip_fields (encodePrefixAttributes x @ rest) = Inr ((), rest)"
  by (simp add: encodePrefixAttributes_def wf_PrefixAttributes_def)

lemma skip_PrefixTIEElement [simp]:
  assumes "wf_PrefixTIEElement p"
  shows "skip_fields (writeFieldHeader 12 fid @ encodePrefixTIEElement p @ rest) = skip_fields rest"
proof (rule skip_fields_field)
  have "skip 13 (writeByte 12 @ writeList 12
      (\<lambda>e. encodeIPPrefixType (pe_Prefix e) @ encodePrefixAttributes (pe_Attributes e)) (pt_Prefixes p) @ r) =
      Inr ((), r)" for r
    using assms by (intro skip_map_back) (auto simp: wf_PrefixTIEElement_def list_all_iff)
  then show "skip 12 (encodePrefixTIEElement p @ rest) = Inr ((), rest)"
    by (simp add: encodePrefixTIEElement_def skip_fields_field)
qed simp

lemma skip_KeyValueContent [simp]:
  "wf_KeyValueContent x \<Longrightarrow> skip_fields (encodeKeyValueTIEElementContent x @ rest) = Inr ((), rest)"
  by (auto simp: encodeKeyValueTIEElementContent_def wf_KeyValueContent_def opt_field_def split: option.splits)

lemma skip_KeyValueTIEElement [simp]:
  assumes "wf_KeyValueTIEElement kv"
  shows "skip_fields (writeFieldHeader 12 fid @ encodeKeyValueTIEElement kv @ rest) = skip_fields rest"
proof (rule skip_fields_field)
  have "skip 13 (writeByte 8 @ writeList 12
      (\<lambda>x. writeI32 (fst x) @ encodeKeyValueTIEElementContent (snd x)) (kv_KeyValues kv) @ r) = Inr ((), r)" for r
    using assms by (intro skip_map_back) (auto simp: wf_KeyValueTIEElement_def list_all_iff case_prod_beta)
  then show "skip 12 (encodeKeyValueTIEElement kv @ rest) = Inr ((), rest)"
    by (simp add: encodeKeyValueTIEElement_def skip_fields_field case_prod_unfold)
qed simp

lemma skip_TIEElement:
  assumes "wf_TIEElement el" and "encodeTIEElement el = Inr bs"
  shows "skip_fields (bs @ rest) = Inr ((), rest)"
  using assms by (auto simp: wf_TIEElement_def encodeTIEElement_def Let_def split: option.splits)

lemma skip_ProtocolPacket:
  assumes "wf_ProtocolPacket p" and "EncodeProtocolPacket p = Inr bs"
  shows "skip thriftTypeStruct (bs @ rest) = Inr ((), rest)"
proof -
  obtain cs where cs: "encodePacketContent (pp_Content p) = Inr cs"
    and bs: "bs = writeFieldHeader 12 1 @ encodePacketHeader (pp_Header p) @ writeFieldHeader 12 2 @ cs @ writeFieldStop"
    using assms(2) by (auto simp: EncodeProtocolPacket_def rbind_eq_Inr)
  have content: "skip_fields (cs @ r) = Inr ((), r)" for r
  proof (cases "pc_TIE (pp_Content p)")
    case None
    with assms(1) cs show ?thesis
      by (auto simp: wf_ProtocolPacket_def Let_def encodePacketContent_def split: option.splits)
  next
    case (Some tie)
    with assms(1) cs show ?thesis
      by (auto simp: wf_ProtocolPacket_def Let_def encodePacketContent_def encodeTIEPacket_def rbind_eq_Inr
          zero_PacketContent_def skip_fields_field skip_TIEElement split: option.splits)
  qed
  then show ?thesis by (simp add: bs skip_fields_field)
qed

section \<open>The codec\<close>

text \<open>
  C5 \<^bold>\<open>Round trip.\<close> Every well-formed packet is encoded, and decoding its bytes, whatever follows
  them, gives the packet back (with the neighbors of a Node TIE in key order) and leaves exactly
  what follows.
\<close>

theorem codec_roundtrip:
  assumes "wf_ProtocolPacket p"
  shows "\<exists>bs. EncodeProtocolPacket p = Inr bs \<and>
    (\<forall>rest. DecodeProtocolPacket (bs @ rest) = Inr (canon_ProtocolPacket p, rest))"
  using ProtocolPacket_back [OF assms] by blast

definition ex_tie_packet :: ProtocolPacket where
  "ex_tie_packet =
     \<lparr>pp_Header = \<lparr>ph_MajorVersion = 8, ph_MinorVersion = 0, ph_Sender = 11, ph_Level = Some 1\<rparr>,
      pp_Content = zero_PacketContent\<lparr>pc_TIE := Some
        \<lparr>tie_Header = zero_TIEHeader\<lparr>th_TIEID := TIEID 1 11 2 1, th_SeqNr := 7,
            th_OriginationLifetime := Some 604800\<rparr>,
         tie_Element = zero_TIEElement\<lparr>el_Node := Some (zero_NodeTIEElement
           \<lparr>nt_Level := 1, nt_Name := ''spine'',
            nt_Neighbors := [(5, zero_NodeNeighbors\<lparr>nn_LinkIDs := [zero_LinkIDPair]\<rparr>),
                             (3, zero_NodeNeighbors\<lparr>nn_Cost := Some 1\<rparr>)]\<rparr>)\<rparr>\<rparr>\<rparr>\<rparr>"

lemma wf_ex_tie_packet: "wf_ProtocolPacket ex_tie_packet"
  by (simp add: ex_tie_packet_def wf_ProtocolPacket_def wf_TIEElement_def wf_NodeTIEElement_def
      wf_NodeNeighbors_def wf_LinkIDPair_def zero_defs gm_wf_def)

theorem codec_roundtrip_witness:
  "\<exists>bs. EncodeProtocolPacket ex_tie_packet = Inr bs \<and>
     DecodeProtocolPacket (bs @ [1, 2]) = Inr (canon_ProtocolPacket ex_tie_packet, [1, 2])"
  using codec_roundtrip [OF wf_ex_tie_packet] by blast

text \<open>
  C25 \<^bold>\<open>The decoder returns on every input.\<close> Whatever the bytes, the decoder comes to an end: it
  returns an error of the code, or a packet and strictly less input than it was given; none of
  the loops over fields and elements, at any depth of nesting, runs without consuming input.
\<close>

theorem decode_returns:
  "case DecodeProtocolPacket bs of Inl e \<Rightarrow> e \<noteq> Stuck | Inr (p, rest) \<Rightarrow> length rest < length bs"
proof (cases "DecodeProtocolPacket bs")
  case (Inl e)
  with reader.not_stuck [OF reader_ProtocolPacket, of bs] show ?thesis by simp
next
  case (Inr r)
  obtain p rest where r: "r = (p, rest)" by (metis prod.exhaust)
  obtain ft fid b1 where h: "readFieldHeader bs = Inr ((ft, fid), b1)"
    using Inr unfolding DecodeProtocolPacket_def
    by (subst (asm) decode_loop_step) (auto simp: rbind_eq_Inr)
  have "length rest \<le> length b1"
  proof (cases "ft = 0")
    case True
    with Inr r h show ?thesis
      unfolding DecodeProtocolPacket_def by (subst (asm) decode_loop_step) auto
  next
    case False
    then obtain s b2 where s: "ProtocolPacket_step ft fid zero_ProtocolPacket b1 = Inr (s, b2)"
      "decode_loop ProtocolPacket_step s b2 = Inr (p, rest)"
      using Inr r h unfolding DecodeProtocolPacket_def
      by (subst (asm) decode_loop_step) (auto simp: rbind_eq_Inr)
    have "length rest \<le> length b2"
      by (rule reader.shrink [OF decode_loop_reader s(2)]) simp
    also have "\<dots> \<le> length b1" by (rule reader.shrink [OF reader_ProtocolPacket_step s(1)])
    finally show ?thesis .
  qed
  with Inr r readFieldHeader_length [OF h] show ?thesis by simp
qed

text \<open>
  \<^bold>\<open>The wire types are right.\<close> A Thrift receiver that knows none of the fields of RIFT can still
  pass over an encoded packet: \<open>skip\<close>, which follows only the type bytes on the wire, consumes
  exactly the bytes of a well-formed packet.
\<close>

theorem skip_encoded:
  assumes "wf_ProtocolPacket p" and "EncodeProtocolPacket p = Inr bs"
  shows "skip thriftTypeStruct (bs @ rest) = Inr ((), rest)"
  by (rule skip_ProtocolPacket [OF assms])

theorem skip_encoded_witness:
  "\<exists>bs. EncodeProtocolPacket ex_tie_packet = Inr bs \<and> skip thriftTypeStruct (bs @ [9]) = Inr ((), [9])"
  using ProtocolPacket_back [OF wf_ex_tie_packet] skip_encoded [OF wf_ex_tie_packet] by metis

text \<open>
  \<^bold>\<open>Unknown fields do not matter.\<close> A packet preceded by fields of any other identifier, each with
  a value that \<open>skip\<close> can pass over, is decoded as if they were not there.
\<close>

theorem unknown_field_skipped:
  assumes "fid \<noteq> 1" and "fid \<noteq> 2" and "ft \<noteq> thriftTypeStop" and "skip ft bs = Inr ((), bs')"
  shows "DecodeProtocolPacket (writeFieldHeader ft fid @ bs) = DecodeProtocolPacket bs'"
  using assms by (simp add: DecodeProtocolPacket_def ProtocolPacket_step_def skip_field_def)

theorem unknown_field_skipped_witness:
  "DecodeProtocolPacket (writeFieldHeader thriftTypeI32 7 @ writeI32 99 @ [0]) = DecodeProtocolPacket [0]"
  by (rule unknown_field_skipped) simp_all

text \<open>
  \<^bold>\<open>Node TIEs are encoded deterministically.\<close> Two Node TIE elements that differ only in the order
  in which Go's map iterates over the neighbors have the same bytes.
\<close>

theorem encode_neighbors_deterministic:
  assumes "gm_wf (nt_Neighbors n)" and "gm_wf m" and "\<forall>k. gm_get m k = gm_get (nt_Neighbors n) k"
  shows "encodeNodeTIEElement (n\<lparr>nt_Neighbors := m\<rparr>) = encodeNodeTIEElement n"
proof -
  have d: "distinct (gm_keys m)" "distinct (gm_keys (nt_Neighbors n))"
    using assms(1,2) gm.keys_distinct by blast+
  have s: "set (gm_keys m) = set (gm_keys (nt_Neighbors n))"
    using assms(3) by (auto simp: gm.keys_get)
  have "sort_key sint (gm_keys m) = sort_key sint (gm_keys (nt_Neighbors n))"
  proof (rule map_sorted_distinct_set_unique [where f = sint])
    show "inj_on sint (set (sort_key sint (gm_keys m)) \<union> set (sort_key sint (gm_keys (nt_Neighbors n))))"
      by (auto simp: inj_on_def sint_eq_iff)
  qed (use d s in \<open>simp_all add: distinct_map inj_on_def sint_eq_iff\<close>)
  then have "sorted_entries m = sorted_entries (nt_Neighbors n)"
    using assms(3) by (simp add: sorted_entries_def)
  then show ?thesis by (simp add: encodeNodeTIEElement_def)
qed

theorem encode_neighbors_deterministic_witness:
  "encodeNodeTIEElement (zero_NodeTIEElement\<lparr>nt_Neighbors := [(1, zero_NodeNeighbors), (2, zero_NodeNeighbors)]\<rparr>) =
   encodeNodeTIEElement (zero_NodeTIEElement\<lparr>nt_Neighbors := [(2, zero_NodeNeighbors), (1, zero_NodeNeighbors)]\<rparr>)"
  using encode_neighbors_deterministic
    [of "zero_NodeTIEElement\<lparr>nt_Neighbors := [(2, zero_NodeNeighbors), (1, zero_NodeNeighbors)]\<rparr>"
        "[(1, zero_NodeNeighbors), (2, zero_NodeNeighbors)]"]
  by (simp add: gm_wf_def gm_get_def)

end
