(* ===== verification/Envelope.thy ===== *)
theory Envelope
  imports Codec_Skip
begin

text \<open>
  The security envelope, \<open>src/internal/encoding/envelope.go\<close>, and the functions of
  \<open>src/internal/transport/udp.go\<close> that put a packet into a datagram and take it out again.
\<close>

section \<open>The envelope\<close>

abbreviation (input) RIFTMagic :: "16 word" where "RIFTMagic \<equiv> 0xA1F7"

record TIEOriginSecurityEnvelopeHeader =
  to_TIEOriginKeyID :: TIESecurityKeyID
  to_FingerprintLength :: "16 word"
  to_Fingerprint :: "byte list"

record SecurityEnvelope =
  se_PacketNumber :: PacketNumberType
  se_OuterKeyID :: OuterSecurityKeyID
  se_NonceLocal :: NonceType
  se_NonceRemote :: NonceType
  se_RemainingLifetime :: LifeTimeInSecType
  se_TIEOrigin :: "TIEOriginSecurityEnvelopeHeader option"
  se_Payload :: "byte list"

definition zero_SecurityEnvelope :: SecurityEnvelope where
  "zero_SecurityEnvelope = \<lparr>se_PacketNumber = 0, se_OuterKeyID = 0, se_NonceLocal = 0,
     se_NonceRemote = 0, se_RemainingLifetime = 0, se_TIEOrigin = None, se_Payload = []\<rparr>"

definition origin_bytes :: "TIEOriginSecurityEnvelopeHeader option \<Rightarrow> byte list" where
  "origin_bytes origin =
     (case origin of
        None \<Rightarrow> []
      | Some h \<Rightarrow> writeI32 (to_TIEOriginKeyID h) @ writeI16 (to_FingerprintLength h) @
          (if to_FingerprintLength h > 0 then to_Fingerprint h else []))"

definition EncodeEnvelope :: "SecurityEnvelope \<Rightarrow> byte list" where
  "EncodeEnvelope env =
     writeI16 RIFTMagic @
     writeI16 (se_PacketNumber env) @
     writeByte ProtocolMajorVersion @
     writeByte (se_OuterKeyID env) @
     writeI16 0 @
     writeI16 (se_NonceLocal env) @
     writeI16 (se_NonceRemote env) @
     writeI32 (se_RemainingLifetime env) @
     origin_bytes (se_TIEOrigin env) @
     se_Payload env"

definition DecodeEnvelope :: "byte list \<Rightarrow> codec_error + SecurityEnvelope" where
  "DecodeEnvelope r =
     rbind (readI16 r) (\<lambda>(magic, r).
     if magic \<noteq> RIFTMagic then Inl (BadMagic magic) else
     rbind (readI16 r) (\<lambda>(packetNumber, r).
     rbind (readByte r) (\<lambda>(_, r).
     rbind (readByte r) (\<lambda>(outerKeyID, r).
     rbind (readI16 r) (\<lambda>(fpLen, r).
     rbind (if fpLen > 0 then rmap (\<lambda>_. ()) (readFull (unat fpLen) r) else Inr ((), r)) (\<lambda>(_, r).
     rbind (readI16 r) (\<lambda>(nonceLocal, r).
     rbind (readI16 r) (\<lambda>(nonceRemote, r).
     rbind (readI32 r) (\<lambda>(remainingLifetime, r).
     Inr \<lparr>se_PacketNumber = packetNumber, se_OuterKeyID = outerKeyID, se_NonceLocal = nonceLocal,
          se_NonceRemote = nonceRemote, se_RemainingLifetime = remainingLifetime,
          se_TIEOrigin = None, se_Payload = r\<rparr>)))))))))"

section \<open>Datagrams\<close>

definition encodePacket :: "ProtocolPacket \<Rightarrow> codec_error + byte list" where
  "encodePacket pkt = rbind (EncodeProtocolPacket pkt) (\<lambda>payload.
     Inr (EncodeEnvelope (zero_SecurityEnvelope\<lparr>se_Payload := payload\<rparr>)))"

definition encodeFloodPacket :: "ProtocolPacket \<Rightarrow> LifeTimeInSecType \<Rightarrow> codec_error + byte list" where
  "encodeFloodPacket pkt remainingLifetime = rbind (EncodeProtocolPacket pkt) (\<lambda>payload.
     Inr (EncodeEnvelope (zero_SecurityEnvelope
       \<lparr>se_RemainingLifetime := remainingLifetime, se_Payload := payload\<rparr>)))"

definition decodePacket :: "byte list \<Rightarrow> codec_error + ProtocolPacket" where
  "decodePacket data = rbind (DecodeEnvelope data) (\<lambda>env.
     rbind (DecodeProtocolPacket (se_Payload env)) (\<lambda>(pkt, _). Inr pkt))"

section \<open>Properties\<close>

lemma DecodeEnvelope_back:
  "DecodeEnvelope (EncodeEnvelope env) =
     Inr (env\<lparr>se_TIEOrigin := None, se_Payload := origin_bytes (se_TIEOrigin env) @ se_Payload env\<rparr>)"
  by (cases env) (simp add: DecodeEnvelope_def EncodeEnvelope_def)

text \<open>
  \<^bold>\<open>The envelope round trip.\<close> Decoding an encoded envelope gives back every field of it, except
  that the bytes of a TIE origin header are not parsed: they come out at the front of the
  payload. Without such a header (the only case the transport produces) it is the identity.
\<close>

theorem envelope_roundtrip:
  "DecodeEnvelope (EncodeEnvelope env) =
     Inr (env\<lparr>se_TIEOrigin := None, se_Payload := origin_bytes (se_TIEOrigin env) @ se_Payload env\<rparr>) \<and>
   origin_bytes None = []"
  by (simp add: DecodeEnvelope_back origin_bytes_def)

text \<open>
  C26 \<^bold>\<open>Datagrams carry packets.\<close> A well-formed packet is put into a datagram by \<open>encodePacket\<close> and
  by \<open>encodeFloodPacket\<close> with any remaining lifetime, and \<open>decodePacket\<close> gives the packet back
  from either. The remaining lifetime does not reach the receiver: both results are the same.
\<close>

theorem datagram_roundtrip:
  assumes "wf_ProtocolPacket pkt"
  shows "\<exists>d1 d2. encodePacket pkt = Inr d1 \<and> encodeFloodPacket pkt lt = Inr d2 \<and>
    decodePacket d1 = Inr (canon_ProtocolPacket pkt) \<and> decodePacket d2 = Inr (canon_ProtocolPacket pkt)"
proof -
  obtain bs where bs: "EncodeProtocolPacket pkt = Inr bs"
    "\<And>rest. DecodeProtocolPacket (bs @ rest) = Inr (canon_ProtocolPacket pkt, rest)"
    using ProtocolPacket_back [OF assms] by blast
  from bs(2) [of "[]"] have "DecodeProtocolPacket bs = Inr (canon_ProtocolPacket pkt, [])" by simp
  with bs(1) show ?thesis
    by (simp add: encodePacket_def encodeFloodPacket_def decodePacket_def DecodeEnvelope_back
        zero_SecurityEnvelope_def origin_bytes_def)
qed

theorem datagram_roundtrip_witness:
  "\<exists>d. encodeFloodPacket ex_tie_packet 300 = Inr d \<and> decodePacket d = Inr (canon_ProtocolPacket ex_tie_packet)"
  using datagram_roundtrip [OF wf_ex_tie_packet] by blast

text \<open>
  \<^bold>\<open>Foreign datagrams are refused.\<close> A datagram of at least two bytes that does not begin with the
  RIFT magic is rejected with that error, and decoding never fails to return.
\<close>

theorem decodePacket_magic:
  assumes "\<not> (\<exists>rest. data = 0xA1 # 0xF7 # rest)"
  shows "\<exists>e. decodePacket data = Inl e \<and> e \<noteq> Stuck \<and> (length data \<ge> 2 \<longrightarrow> (\<exists>m. e = BadMagic m \<and> m \<noteq> RIFTMagic))"
proof (cases "length data \<ge> 2")
  case False
  then show ?thesis
    by (auto simp: decodePacket_def DecodeEnvelope_def readI16_def readFull_def)
next
  case True
  then obtain a b rest where d: "data = a # b # rest"
    by (metis One_nat_def Suc_1 Suc_le_length_iff)
  have m: "readI16 data = Inr (word_of_int (uint a * 256 + uint b), rest)"
    by (simp add: d readI16_def readFull_def be_word_def)
  have "a = 0xA1 \<and> b = 0xF7" if "(word_of_int (uint a * 256 + uint b) :: 16 word) = 0xA1F7"
  proof -
    have lt: "uint a < 256" "uint b < 256" using uint_lt2p [of a] uint_lt2p [of b] by simp_all
    have "uint (word_of_int (uint a * 256 + uint b) :: 16 word) = 41463"
      unfolding that by simp
    then have "(uint a * 256 + uint b) mod 65536 = 41463"
      unfolding uint_word_of_int by simp
    moreover have ge: "0 \<le> uint a" "0 \<le> uint b" by simp_all
    ultimately have "uint a * 256 + uint b = 41463"
      using lt by (subst (asm) mod_pos_pos_trivial) linarith+
    moreover from this have "uint a = 161" using lt ge by linarith
    ultimately have "uint a = 161" "uint b = 247" by linarith+
    then show ?thesis by (metis word_of_int_uint word_of_int_numeral)
  qed
  with assms d m show ?thesis by (auto simp: decodePacket_def DecodeEnvelope_def)
qed

theorem decodePacket_magic_witness: "\<exists>m. decodePacket [0, 1, 2] = Inl (BadMagic m)"
  using decodePacket_magic [of "[0, 1, 2]"] by auto

end
