(* ===== verification/Go_Text.thy ===== *)
theory Go_Text
  imports Rift_Prelude
begin

text \<open>
  The text functions of the Go library that the program's prefix keys are made with: the verb
  \<open>%d\<close> of \<open>fmt\<close>, and \<open>netip.ParsePrefix\<close> on IPv4 prefixes.
\<close>

section \<open>Decimal numbers\<close>

definition digit :: "nat \<Rightarrow> char" where
  "digit d = char_of (48 + d)"

definition is_digit :: "char \<Rightarrow> bool" where
  "is_digit c \<longleftrightarrow> 48 \<le> (of_char c :: nat) \<and> (of_char c :: nat) \<le> 57"

definition digit_val :: "char \<Rightarrow> nat" where
  "digit_val c = of_char c - 48"

fun dec :: "nat \<Rightarrow> string" where
  "dec n = (if n < 10 then [digit n] else dec (n div 10) @ [digit (n mod 10)])"

declare dec.simps [simp del]

text \<open>\<open>fmt.Sprintf("%d", i)\<close>\<close>

definition fmt_d :: "int \<Rightarrow> string" where
  "fmt_d i = (if i < 0 then CHR ''-'' # dec (nat (- i)) else dec (nat i))"

definition dec_val :: "string \<Rightarrow> nat" where
  "dec_val s = fold (\<lambda>c n. n * 10 + digit_val c) s 0"

lemma digit_props [simp]:
  "d < 10 \<Longrightarrow> is_digit (digit d)" "d < 10 \<Longrightarrow> digit_val (digit d) = d"
  "d < 10 \<Longrightarrow> digit d = CHR ''0'' \<longleftrightarrow> d = 0"
proof -
  assume d: "d < 10"
  then have c: "(of_char (digit d) :: nat) = 48 + d" by (simp add: digit_def)
  then show "is_digit (digit d)" "digit_val (digit d) = d" using d by (simp_all add: is_digit_def digit_val_def)
  have "digit d = CHR ''0'' \<longleftrightarrow> (of_char (digit d) :: nat) = of_char (CHR ''0'')"
    by (simp only: of_char_eq_iff)
  also have "(of_char (CHR ''0'') :: nat) = 48" by simp
  finally show "digit d = CHR ''0'' \<longleftrightarrow> d = 0" using c by simp
qed

lemma dec_digits: "\<forall>c \<in> set (dec n). is_digit c"
  by (induction n rule: dec.induct) (subst dec.simps, simp)

lemma dec_val_dec [simp]: "dec_val (dec n) = n"
  by (induction n rule: dec.induct) (subst dec.simps, simp add: dec_val_def)

lemma dec_nonempty [simp]: "dec n \<noteq> []"
  by (subst dec.simps) simp

lemma hd_dec: "hd (dec n) = CHR ''0'' \<longleftrightarrow> n = 0"
proof (induction n rule: dec.induct)
  case (1 n)
  have "n div 10 = 0 \<longleftrightarrow> n < 10" by auto
  with 1 show ?case by (subst dec.simps) auto
qed

lemma dec_leading: "1 < length (dec n) \<Longrightarrow> hd (dec n) \<noteq> CHR ''0''"
  by (cases "n = 0") (auto simp: hd_dec dec.simps [of 0])

lemma dec_inj: "dec m = dec n \<longleftrightarrow> m = n"
  by (metis dec_val_dec)

section \<open>Prefixes\<close>

fun split_at :: "char \<Rightarrow> string \<Rightarrow> string list" where
  "split_at c [] = [[]]"
| "split_at c (x # xs) = (if x = c then [] # split_at c xs
     else case split_at c xs of [] \<Rightarrow> [[x]] | p # ps \<Rightarrow> (x # p) # ps)"

lemma split_at_nonempty: "split_at c s \<noteq> []"
  by (cases s) (auto split: list.split)

lemma split_at_append: "c \<notin> set p \<Longrightarrow> split_at c (p @ c # s) = p # split_at c s"
  by (induction p) auto

lemma split_at_last: "c \<notin> set p \<Longrightarrow> split_at c p = [p]"
  by (induction p) auto

text \<open>
  A decimal field without sign and leading zero, not above \<open>m\<close>: an octet of an IPv4 address
  (\<open>m = 255\<close>) or the length of a prefix.
\<close>

definition dec_field :: "nat \<Rightarrow> string \<Rightarrow> nat option" where
  "dec_field m s =
     (if s = [] \<or> (\<exists>c \<in> set s. \<not> is_digit c) \<or> 1 < length s \<and> hd s = CHR ''0'' \<or> m < dec_val s
      then None else Some (dec_val s))"

lemma dec_field_dec [simp]: "n \<le> m \<Longrightarrow> dec_field m (dec n) = Some n"
  using dec_digits [of n] dec_leading [of n] by (auto simp: dec_field_def)

text \<open>\<open>netip.ParseAddr\<close> on the text of an IPv4 address: its four bytes.\<close>

definition ParseAddr4 :: "string \<Rightarrow> byte list option" where
  "ParseAddr4 s =
     (let fields = map (dec_field 255) (split_at CHR ''.'' s)
      in if length fields = 4 \<and> None \<notin> set fields then Some (map (\<lambda>f. of_nat (the f)) fields) else None)"

text \<open>
  \<open>netip.ParsePrefix\<close>: \<open>None\<close> if it returns an error or a prefix whose address is not IPv4
  (the callers treat the two alike), else the bytes and the length.
\<close>

definition ParsePrefix4 :: "string \<Rightarrow> (byte list \<times> nat) option" where
  "ParsePrefix4 s =
     (let r = rev s; bits = rev (takeWhile (\<lambda>c. c \<noteq> CHR ''/'') r); rest = dropWhile (\<lambda>c. c \<noteq> CHR ''/'') r
      in if rest = [] then None
         else case (ParseAddr4 (rev (tl rest)), dec_field 32 bits) of
             (Some raw, Some n) \<Rightarrow> Some (raw, n)
           | _ \<Rightarrow> None)"

lemma not_digit: "\<not> is_digit CHR ''.''" "\<not> is_digit CHR ''/''" "\<not> is_digit CHR ''-''"
  by (simp_all add: is_digit_def)

lemma dec_no: "\<not> is_digit c \<Longrightarrow> c \<notin> set (dec n)"
  using dec_digits by blast

definition addr_text :: "byte \<Rightarrow> byte \<Rightarrow> byte \<Rightarrow> byte \<Rightarrow> string" where
  "addr_text a b c d = fmt_d (uint a) @ ''.'' @ fmt_d (uint b) @ ''.'' @ fmt_d (uint c) @ ''.'' @ fmt_d (uint d)"

lemma fmt_byte: "fmt_d (uint a) = dec (unat a)" for a :: byte
  by (simp add: fmt_d_def)

lemma ParseAddr4_text: "ParseAddr4 (addr_text a b c d) = Some [a, b, c, d]"
proof -
  have le: "unat x \<le> 255" for x :: byte using unsigned_less [of x, where ?'a = nat] by simp
  have "split_at CHR ''.'' (addr_text a b c d) = [dec (unat a), dec (unat b), dec (unat c), dec (unat d)]"
    by (simp add: addr_text_def fmt_byte split_at_append split_at_last dec_no not_digit)
  then show ?thesis
    by (simp add: ParseAddr4_def le)
qed

lemma while_until:
  "c \<notin> set xs \<Longrightarrow> takeWhile (\<lambda>x. x \<noteq> c) (xs @ c # ys) = xs \<and> dropWhile (\<lambda>x. x \<noteq> c) (xs @ c # ys) = c # ys"
  by (induction xs) auto

lemma ParsePrefix4_text:
  "ParsePrefix4 (addr_text a b c d @ CHR ''/'' # fmt_d i) = (if 0 \<le> i \<and> i \<le> 32 then Some ([a, b, c, d], nat i) else None)"
proof -
  have no: "CHR ''/'' \<notin> set (fmt_d i)" by (simp add: fmt_d_def dec_no not_digit)
  have tw: "takeWhile (\<lambda>c. c \<noteq> CHR ''/'') (rev (fmt_d i) @ CHR ''/'' # rev (addr_text a b c d)) = rev (fmt_d i)"
    and dw: "dropWhile (\<lambda>c. c \<noteq> CHR ''/'') (rev (fmt_d i) @ CHR ''/'' # rev (addr_text a b c d)) =
      CHR ''/'' # rev (addr_text a b c d)"
    using while_until [of "CHR ''/''" "rev (fmt_d i)"] no by simp_all
  have "dec_field 32 (fmt_d i) = (if 0 \<le> i \<and> i \<le> 32 then Some (nat i) else None)"
    by (auto simp: fmt_d_def dec_field_def not_digit dec_digits dec_leading dest: dec_leading)
  then show ?thesis
    by (simp add: ParsePrefix4_def Let_def tw dw ParseAddr4_text)
qed

lemma addr_text_inj:
  "addr_text a b c d @ CHR ''/'' # fmt_d i = addr_text a' b' c' d' @ CHR ''/'' # fmt_d i' \<Longrightarrow> 0 \<le> i \<Longrightarrow> i \<le> 32 \<Longrightarrow>
   a = a' \<and> b = b' \<and> c = c' \<and> d = d' \<and> i = i'"
  using ParsePrefix4_text [of a b c d i] ParsePrefix4_text [of a' b' c' d' i']
  by (auto split: if_splits)

end
