(* ===== verification/Ndk_Routes.thy ===== *)
theory Ndk_Routes
  imports Go_Text Rift_Types
begin

text \<open>
  The route client, \<open>src/internal/ndk/routes.go\<close>: what it asks of the SR Linux NDK service and how it
  reports the answers. The service is not part of the repository: it is the parameter \<open>call\<close>, which
  takes a request and a state of the service to an answer and a new state. A panic is the result \<open>None\<close>.

  The prefixes the program passes are texts of IPv4 prefixes (\<open>PrefixToString\<close>); on the text of an IPv6
  prefix, which it never passes, the code would panic where the model returns an error.
\<close>

section \<open>Requests and answers\<close>

record IpAddrPrefLen =
  ipp_IpAddr :: "byte list"
  ipp_PrefixLength :: nat

record NdkRoute =
  ro_NetworkInstanceName :: string
  ro_IpPrefix :: IpAddrPrefLen
  ro_NexthopGroupName :: string
  ro_Preference :: int
  ro_Metric :: "32 word"

datatype ndk_request =
    SyncStart
  | SyncEnd
  | NextHopGroupAddOrUpdate string string "byte list list"
  | NextHopGroupDelete "(string \<times> string) list"
  | RouteAddOrUpdate "NdkRoute list"
  | RouteDelete "(string \<times> IpAddrPrefLen) list"

datatype ndk_reply = RpcError | StatusFailure | StatusSuccess

datatype ndk_error = ErrRpc | ErrStatus | ErrParsePrefix string

record RouteEntry =
  re_Prefix :: string
  re_NHGName :: string
  re_Metric :: "32 word"

abbreviation (input) routePreference :: int where "routePreference \<equiv> 250"

section \<open>Conversions\<close>

text \<open>\<open>netip.Addr.As4\<close>, which panics on the zero address and on IPv6 addresses that are not IPv4-mapped.\<close>

definition bytes4 :: "'a::len word \<Rightarrow> byte list" where
  "bytes4 w = map (\<lambda>n. ucast (drop_bit n w)) [24, 16, 8, 0]"

definition As4 :: "Addr \<Rightarrow> byte list option" where
  "As4 a =
     (case a of
        ZeroAddr \<Rightarrow> None
      | Addr4 w \<Rightarrow> Some (bytes4 w)
      | Addr6 w \<Rightarrow> if drop_bit 32 w = 0xFFFF then Some (bytes4 w) else None)"

definition prefixToNDK :: "string \<Rightarrow> ndk_error + IpAddrPrefLen" where
  "prefixToNDK cidr =
     (case ParsePrefix4 cidr of
        None \<Rightarrow> Inl (ErrParsePrefix cidr)
      | Some (ipBytes, bits) \<Rightarrow> Inr \<lparr>ipp_IpAddr = ipBytes, ipp_PrefixLength = bits\<rparr>)"

definition addrToNDK :: "Addr \<Rightarrow> byte list option" where
  "addrToNDK addr = As4 addr"

section \<open>Calls\<close>

type_synonym 's ndk = "ndk_request \<Rightarrow> 's \<Rightarrow> ndk_reply \<times> 's"

text \<open>Sending a request and turning the answer into an error, as every function does.\<close>

definition rpc :: "'s ndk \<Rightarrow> ndk_request \<Rightarrow> 's \<Rightarrow> ndk_error option \<times> 's" where
  "rpc call req s =
     (let (resp, s) = call req s
      in (case resp of RpcError \<Rightarrow> Some ErrRpc | StatusFailure \<Rightarrow> Some ErrStatus | StatusSuccess \<Rightarrow> None, s))"

definition RouteSyncStart :: "'s ndk \<Rightarrow> 's \<Rightarrow> ndk_error option \<times> 's" where
  "RouteSyncStart call s = rpc call SyncStart s"

definition RouteSyncEnd :: "'s ndk \<Rightarrow> 's \<Rightarrow> ndk_error option \<times> 's" where
  "RouteSyncEnd call s = rpc call SyncEnd s"

definition AddOrUpdateNextHopGroup ::
  "'s ndk \<Rightarrow> string \<Rightarrow> string \<Rightarrow> Addr list \<Rightarrow> 's \<Rightarrow> (ndk_error option \<times> 's) option" where
  "AddOrUpdateNextHopGroup call name netInst nexthops s =
     (if None \<in> set (map addrToNDK nexthops) then None
      else Some (rpc call (NextHopGroupAddOrUpdate name netInst (map (the \<circ> addrToNDK) nexthops)) s))"

definition DeleteNextHopGroups :: "'s ndk \<Rightarrow> string \<Rightarrow> string list \<Rightarrow> 's \<Rightarrow> ndk_error option \<times> 's" where
  "DeleteNextHopGroups call netInst names s =
     (if names = [] then (None, s)
      else rpc call (NextHopGroupDelete (map (\<lambda>name. (name, netInst)) names)) s)"

text \<open>Converting the prefixes of a request: the first that does not parse ends the function.\<close>

fun route_infos :: "string \<Rightarrow> RouteEntry list \<Rightarrow> ndk_error + NdkRoute list" where
  "route_infos netInst [] = Inr []"
| "route_infos netInst (r # rs) =
     rbind (prefixToNDK (re_Prefix r)) (\<lambda>pfx.
     rbind (route_infos netInst rs) (\<lambda>infos.
     Inr (\<lparr>ro_NetworkInstanceName = netInst, ro_IpPrefix = pfx, ro_NexthopGroupName = re_NHGName r,
       ro_Preference = routePreference, ro_Metric = re_Metric r\<rparr> # infos)))"

definition AddOrUpdateRoutes :: "'s ndk \<Rightarrow> string \<Rightarrow> RouteEntry list \<Rightarrow> 's \<Rightarrow> ndk_error option \<times> 's" where
  "AddOrUpdateRoutes call netInst routes s =
     (if routes = [] then (None, s)
      else case route_infos netInst routes of
          Inl err \<Rightarrow> (Some err, s)
        | Inr infos \<Rightarrow> rpc call (RouteAddOrUpdate infos) s)"

fun route_keys :: "string \<Rightarrow> string list \<Rightarrow> ndk_error + (string \<times> IpAddrPrefLen) list" where
  "route_keys netInst [] = Inr []"
| "route_keys netInst (cidr # cidrs) =
     rbind (prefixToNDK cidr) (\<lambda>pfx.
     rbind (route_keys netInst cidrs) (\<lambda>keys. Inr ((netInst, pfx) # keys)))"

definition DeleteRoutes :: "'s ndk \<Rightarrow> string \<Rightarrow> string list \<Rightarrow> 's \<Rightarrow> ndk_error option \<times> 's" where
  "DeleteRoutes call netInst prefixes s =
     (if prefixes = [] then (None, s)
      else case route_keys netInst prefixes of
          Inl err \<Rightarrow> (Some err, s)
        | Inr keys \<Rightarrow> rpc call (RouteDelete keys) s)"

section \<open>When the prefixes parse\<close>

definition ndk_prefix :: "string \<Rightarrow> IpAddrPrefLen" where
  "ndk_prefix cidr =
     (case ParsePrefix4 cidr of
        None \<Rightarrow> \<lparr>ipp_IpAddr = [], ipp_PrefixLength = 0\<rparr>
      | Some (ipBytes, bits) \<Rightarrow> \<lparr>ipp_IpAddr = ipBytes, ipp_PrefixLength = bits\<rparr>)"

definition parses :: "string \<Rightarrow> bool" where
  "parses cidr \<longleftrightarrow> ParsePrefix4 cidr \<noteq> None"

lemma prefixToNDK_eq: "prefixToNDK cidr = (if parses cidr then Inr (ndk_prefix cidr) else Inl (ErrParsePrefix cidr))"
  by (simp add: prefixToNDK_def parses_def ndk_prefix_def split: option.split prod.split)

definition ndk_route :: "string \<Rightarrow> RouteEntry \<Rightarrow> NdkRoute" where
  "ndk_route netInst r = \<lparr>ro_NetworkInstanceName = netInst, ro_IpPrefix = ndk_prefix (re_Prefix r),
     ro_NexthopGroupName = re_NHGName r, ro_Preference = routePreference, ro_Metric = re_Metric r\<rparr>"

lemma route_infos_ok: "\<forall>r \<in> set rs. parses (re_Prefix r) \<Longrightarrow> route_infos netInst rs = Inr (map (ndk_route netInst) rs)"
  by (induction rs) (simp_all add: prefixToNDK_eq ndk_route_def)

lemma route_infos_error: "\<exists>r \<in> set rs. \<not> parses (re_Prefix r) \<Longrightarrow> \<exists>e. route_infos netInst rs = Inl e"
  by (induction rs) (auto simp: prefixToNDK_eq rbind_eq_Inl)

lemma route_keys_ok: "\<forall>c \<in> set cs. parses c \<Longrightarrow> route_keys netInst cs = Inr (map (\<lambda>c. (netInst, ndk_prefix c)) cs)"
  by (induction cs) (simp_all add: prefixToNDK_eq)

lemma AddOrUpdateRoutes_ok:
  "\<forall>r \<in> set rs. parses (re_Prefix r) \<Longrightarrow>
   AddOrUpdateRoutes call netInst rs s =
     (if rs = [] then (None, s) else rpc call (RouteAddOrUpdate (map (ndk_route netInst) rs)) s)"
  by (simp add: AddOrUpdateRoutes_def route_infos_ok)

lemma AddOrUpdateRoutes_error:
  "\<exists>r \<in> set rs. \<not> parses (re_Prefix r) \<Longrightarrow> \<exists>e. AddOrUpdateRoutes call netInst rs s = (Some e, s)"
  using route_infos_error [of rs netInst] by (auto simp: AddOrUpdateRoutes_def)

lemma DeleteRoutes_ok:
  "\<forall>c \<in> set cs. parses c \<Longrightarrow>
   DeleteRoutes call netInst cs s =
     (if cs = [] then (None, s) else rpc call (RouteDelete (map (\<lambda>c. (netInst, ndk_prefix c)) cs)) s)"
  by (simp add: DeleteRoutes_def route_keys_ok)

end
