(* ===== verification/Transport.thy ===== *)
theory Transport
  imports Envelope Ndk_Routes
begin

unbundle bit_operations_syntax

text \<open>
  The interface transport, \<open>src/internal/transport/udp.go\<close>: names of interfaces, the sockets an interface
  has, and what passes through them. What the Linux kernel answers when interfaces are looked up or a
  socket is made is the parameter \<open>lx\<close>; a datagram sent is the destination and its bytes.
\<close>

section \<open>Names and sockets\<close>

text \<open>\<open>strings.Replace(s, old, new, 1)\<close>\<close>

fun Replace1 :: "string \<Rightarrow> string \<Rightarrow> string \<Rightarrow> string" where
  "Replace1 old new [] = (if old = [] then new else [])"
| "Replace1 old new (c # s) =
     (if take (length old) (c # s) = old then new @ drop (length old) (c # s) else c # Replace1 old new s)"

definition LinuxInterfaceNames :: "string \<Rightarrow> string \<times> string" where
  "LinuxInterfaceNames srlName =
     (let s = srlName; s = Replace1 ''ethernet-'' ''e'' s; s = Replace1 ''/'' ''-'' s in (s, s @ ''.0''))"

text \<open>
  The kernel: the texts of the addresses of an interface and the interfaces there are, with whether each is a
  loopback, \<open>None\<close> for an error; the index of an interface; and whether the multicast sockets and the
  flood socket can be created.
\<close>

record linux =
  lx_addrs :: "string \<Rightarrow> string list option"
  lx_interfaces :: "(string \<times> bool) list option"
  lx_ifindex :: "string \<Rightarrow> int option"
  lx_recv :: "string \<Rightarrow> bool"
  lx_send :: "Addr \<Rightarrow> string \<Rightarrow> bool"
  lx_flood :: "Addr \<Rightarrow> string \<Rightarrow> bool"

text \<open>The bytes of a number, most significant first, as \<open>netip.Addr\<close> reads them.\<close>

definition word_of_bytes :: "byte list \<Rightarrow> 'a::len word" where
  "word_of_bytes bs = fold (\<lambda>b w. push_bit 8 w OR ucast b) bs 0"

text \<open>The loops over the addresses of an interface: the first IPv4 prefix that \<open>wanted\<close> accepts.\<close>

fun first_prefix :: "(byte list \<Rightarrow> bool) \<Rightarrow> string list \<Rightarrow> (Addr \<times> nat) option" where
  "first_prefix wanted [] = None"
| "first_prefix wanted (a # addrs) =
     (case ParsePrefix4 a of
        None \<Rightarrow> first_prefix wanted addrs
      | Some (raw, bits) \<Rightarrow> if wanted raw then Some (Addr4 (word_of_bytes raw), bits) else first_prefix wanted addrs)"

definition DiscoverInterfacePrefix :: "linux \<Rightarrow> string \<Rightarrow> (Addr \<times> nat) option" where
  "DiscoverInterfacePrefix lx ifName = Option.bind (lx_addrs lx ifName) (first_prefix (\<lambda>_. True))"

definition DiscoverInterfaceAddr :: "linux \<Rightarrow> string \<Rightarrow> Addr option" where
  "DiscoverInterfaceAddr lx ifName = map_option fst (Option.bind (lx_addrs lx ifName) (first_prefix (\<lambda>_. True)))"

definition DiscoverAllPrefixes :: "linux \<Rightarrow> (string, Addr \<times> nat) gomap option" where
  "DiscoverAllPrefixes lx =
     map_option
       (\<lambda>ifaces. fold (\<lambda>(name, loopback) result.
          if loopback then result
          else if name = ''gateway'' \<or> name = ''mgmt0.0'' then result
          else case lx_addrs lx name of
              None \<Rightarrow> result
            | Some addrs \<Rightarrow>
                (case first_prefix (\<lambda>raw. hd raw \<noteq> 127) addrs of
                   None \<Rightarrow> result
                 | Some prefix \<Rightarrow> gm_put name prefix result)) ifaces [])
       (lx_interfaces lx)"

record InterfaceTransport =
  tr_ifName :: string
  tr_parent :: string
  tr_sub :: string
  tr_localAddr :: Addr
  tr_linkID :: LinkIDType
  tr_floodConn :: bool

definition transport_New :: "linux \<Rightarrow> string \<Rightarrow> Addr \<Rightarrow> InterfaceTransport option" where
  "transport_New lx srlName localAddr =
     (let (parent, sub) = LinuxInterfaceNames srlName
      in case lx_ifindex lx sub of
           None \<Rightarrow> None
         | Some linkID \<Rightarrow>
             if \<not> lx_recv lx parent then None
             else if \<not> lx_send lx localAddr sub then None
             else Some \<lparr>tr_ifName = srlName, tr_parent = parent, tr_sub = sub, tr_localAddr = localAddr,
               tr_linkID = word_of_int linkID, tr_floodConn = False\<rparr>)"

definition OpenFloodSocket :: "linux \<Rightarrow> InterfaceTransport \<Rightarrow> InterfaceTransport option" where
  "OpenFloodSocket lx t =
     (if tr_floodConn t then Some t
      else if \<not> lx_flood lx (tr_localAddr t) (tr_sub t) then None
      else Some (t\<lparr>tr_floodConn := True\<rparr>))"

definition CloseFloodSocket :: "InterfaceTransport \<Rightarrow> InterfaceTransport" where
  "CloseFloodSocket t = (if tr_floodConn t then t\<lparr>tr_floodConn := False\<rparr> else t)"

section \<open>Sending and receiving\<close>

text \<open>\<open>net.ParseIP(riftMcastAddr)\<close> is the IPv4-mapped address of sixteen bytes.\<close>

abbreviation (input) riftMcastAddr :: "byte list" where
  "riftMcastAddr \<equiv> replicate 10 0 @ [0xFF, 0xFF, 224, 0, 0, 121]"
abbreviation (input) riftLIEPort :: int where "riftLIEPort \<equiv> 914"
abbreviation (input) recvBufSize :: nat where "recvBufSize \<equiv> 9000"

text \<open>A sent datagram: the bytes of the destination address, the port and the data.\<close>

type_synonym datagram = "byte list \<times> int \<times> byte list"

datatype send_error = SocketClosed | EncodeError codec_error

definition SendLIE :: "ProtocolPacket \<Rightarrow> send_error + datagram" where
  "SendLIE pkt =
     (case encodePacket pkt of
        Inl e \<Rightarrow> Inl (EncodeError e)
      | Inr data \<Rightarrow> Inr (riftMcastAddr, riftLIEPort, data))"

text \<open>\<open>netip.Addr.AsSlice\<close>\<close>

definition AsSlice :: "Addr \<Rightarrow> byte list" where
  "AsSlice a =
     (case a of
        ZeroAddr \<Rightarrow> []
      | Addr4 w \<Rightarrow> bytes4 w
      | Addr6 w \<Rightarrow> map (\<lambda>n. ucast (drop_bit (8 * n) w)) (rev [0..<16]))"

definition SendFlood ::
  "ProtocolPacket \<Rightarrow> Addr \<Rightarrow> int \<Rightarrow> LifeTimeInSecType \<Rightarrow> InterfaceTransport \<Rightarrow> send_error + datagram" where
  "SendFlood pkt destAddr destPort remainingLifetime t =
     (if \<not> tr_floodConn t then Inl SocketClosed
      else case encodeFloodPacket pkt remainingLifetime of
          Inl e \<Rightarrow> Inl (EncodeError e)
        | Inr data \<Rightarrow> Inr (AsSlice destAddr, destPort, data))"

text \<open>
  \<open>extractAddr\<close> on the address of a UDP packet: \<open>netip.AddrFromSlice\<close>, then \<open>Unmap\<close>, which makes an IPv4
  address of an IPv4-mapped one.
\<close>

definition Unmap :: "Addr \<Rightarrow> Addr" where
  "Unmap a = (case a of Addr6 w \<Rightarrow> if drop_bit 32 w = 0xFFFF then Addr4 (ucast w) else a | _ \<Rightarrow> a)"

definition extractAddr :: "byte list \<Rightarrow> Addr option" where
  "extractAddr ip =
     (if length ip = 4 then Some (Unmap (Addr4 (word_of_bytes ip)))
      else if length ip = 16 then Some (Unmap (Addr6 (word_of_bytes ip)))
      else None)"

record ReceivedPacket =
  rp_Packet :: ProtocolPacket
  rp_SrcAddr :: Addr
  rp_IfName :: string

text \<open>
  A turn of \<open>RecvLoop\<close> and of \<open>FloodRecvLoop\<close> on a datagram from \<open>ip\<close>: what is longer than the buffer is cut
  off, own packets, datagrams that do not decode and, on the multicast socket, packets that are no LIEs are
  dropped.
\<close>

definition RecvLoop :: "InterfaceTransport \<Rightarrow> byte list \<Rightarrow> byte list \<Rightarrow> ReceivedPacket option" where
  "RecvLoop t ip data =
     (case extractAddr ip of
        None \<Rightarrow> None
      | Some srcAddr \<Rightarrow>
          if srcAddr = tr_localAddr t then None
          else (case decodePacket (take recvBufSize data) of
              Inl _ \<Rightarrow> None
            | Inr pkt \<Rightarrow>
                if pc_LIE (pp_Content pkt) = None then None
                else Some \<lparr>rp_Packet = pkt, rp_SrcAddr = srcAddr, rp_IfName = tr_ifName t\<rparr>))"

definition FloodRecvLoop :: "InterfaceTransport \<Rightarrow> byte list \<Rightarrow> byte list \<Rightarrow> ReceivedPacket option" where
  "FloodRecvLoop t ip data =
     (if \<not> tr_floodConn t then None
      else case extractAddr ip of
        None \<Rightarrow> None
      | Some srcAddr \<Rightarrow>
          if srcAddr = tr_localAddr t then None
          else (case decodePacket (take recvBufSize data) of
              Inl _ \<Rightarrow> None
            | Inr pkt \<Rightarrow> Some \<lparr>rp_Packet = pkt, rp_SrcAddr = srcAddr, rp_IfName = tr_ifName t\<rparr>))"

end
