(* ===== verification/Transport_Sockets.thy ===== *)
theory Transport_Sockets
  imports Transport
begin

text \<open>
  How the transport makes its sockets, \<open>src/internal/transport/udp.go\<close>: each function enters a network
  namespace, makes and configures a socket there, and comes back. The kernel is the parameter \<open>sys\<close>, which
  answers a system call and changes a state of its own; a call that fails is \<open>None\<close>. A result is the
  call that failed or the value.

  The properties rest on the documented behaviour of these calls on the file descriptors of the process and
  the namespace of the thread, \<open>sys_documented\<close>; any call may fail at any time.
\<close>

section \<open>System calls\<close>

datatype sockopt =
    SO_REUSEADDR
  | SO_REUSEPORT
  | SO_BINDTODEVICE string
  | IP_ADD_MEMBERSHIP "byte list" int
  | IP_MULTICAST_IF "byte list" int
  | IP_MULTICAST_TTL int
  | IP_MULTICAST_LOOP int

datatype syscall =
    OpenFile string
  | CloseFd int
  | Setns int
  | InterfaceByName string
  | SocketUDP
  | Setsockopt int sockopt
  | Bind int "byte list" int
  | FilePacketConn int

type_synonym 'k kernel = "syscall \<Rightarrow> 'k \<Rightarrow> int option \<times> 'k"

abbreviation (input) self_ns :: string where "self_ns \<equiv> ''/proc/self/ns/net''"
abbreviation (input) srbase_ns :: string where "srbase_ns \<equiv> ''/var/run/netns/srbase''"
abbreviation (input) default_ns :: string where "default_ns \<equiv> ''/var/run/netns/srbase-default''"
abbreviation (input) riftFloodPort :: int where "riftFloodPort \<equiv> 915"

definition close :: "'k kernel \<Rightarrow> int \<Rightarrow> 'k \<Rightarrow> 'k" where
  "close sys fd k = snd (sys (CloseFd fd) k)"

text \<open>A call whose failure ends the function.\<close>

definition try_call :: "'k kernel \<Rightarrow> syscall \<Rightarrow> 'k \<Rightarrow> (syscall + int) \<times> 'k" where
  "try_call sys c k = (let (r, k) = sys c k in (case r of None \<Rightarrow> Inl c | Some v \<Rightarrow> Inr v, k))"

section \<open>Namespaces\<close>

text \<open>
  The beginning of every function: the current namespace and the one at \<open>nsPath\<close> are opened, the thread
  switches to it, \<open>body\<close> runs, and the deferred calls switch back and close the two files.
\<close>

definition in_netns ::
  "'k kernel \<Rightarrow> string \<Rightarrow> ('k \<Rightarrow> (syscall + 'a) \<times> 'k) \<Rightarrow> 'k \<Rightarrow> (syscall + 'a) \<times> 'k" where
  "in_netns sys nsPath body k =
     (case try_call sys (OpenFile self_ns) k of
        (Inl err, k) \<Rightarrow> (Inl err, k)
      | (Inr origNS, k) \<Rightarrow>
          (case try_call sys (OpenFile nsPath) k of
             (Inl err, k) \<Rightarrow> (Inl err, close sys origNS k)
           | (Inr targetNS, k) \<Rightarrow>
               (case try_call sys (Setns targetNS) k of
                  (Inl err, k) \<Rightarrow> (Inl err, close sys origNS (close sys targetNS k))
                | (Inr _, k) \<Rightarrow>
                    (let (r, k) = body k;
                         k = snd (sys (Setns origNS) k)
                     in (r, close sys origNS (close sys targetNS k))))))"

definition getIfIndexInNS :: "'k kernel \<Rightarrow> string \<Rightarrow> string \<Rightarrow> 'k \<Rightarrow> (syscall + int) \<times> 'k" where
  "getIfIndexInNS sys ifName nsPath = in_netns sys nsPath (try_call sys (InterfaceByName ifName))"

section \<open>Sockets\<close>

text \<open>Options and addresses are set one after the other; a failure closes the socket.\<close>

fun configure :: "'k kernel \<Rightarrow> int \<Rightarrow> syscall list \<Rightarrow> 'k \<Rightarrow> (syscall + int) \<times> 'k" where
  "configure sys fd [] k = (Inr fd, k)"
| "configure sys fd (c # cs) k =
     (case try_call sys c k of
        (Inl err, k) \<Rightarrow> (Inl err, close sys fd k)
      | (Inr _, k) \<Rightarrow> configure sys fd cs k)"

text \<open>\<open>os.NewFile\<close>, \<open>net.FilePacketConn\<close>, which duplicates the descriptor, and \<open>f.Close\<close>.\<close>

definition wrap_conn :: "'k kernel \<Rightarrow> int \<Rightarrow> 'k \<Rightarrow> (syscall + int) \<times> 'k" where
  "wrap_conn sys fd k = (let (conn, k) = try_call sys (FilePacketConn fd) k in (conn, close sys fd k))"

definition open_socket :: "'k kernel \<Rightarrow> (int \<Rightarrow> syscall list) \<Rightarrow> 'k \<Rightarrow> (syscall + int) \<times> 'k" where
  "open_socket sys options k =
     (case try_call sys SocketUDP k of
        (Inl err, k) \<Rightarrow> (Inl err, k)
      | (Inr fd, k) \<Rightarrow>
          (case configure sys fd (options fd) k of
             (Inl err, k) \<Rightarrow> (Inl err, k)
           | (Inr fd, k) \<Rightarrow> wrap_conn sys fd k))"

definition createMcastRecvSocket :: "'k kernel \<Rightarrow> string \<Rightarrow> 'k \<Rightarrow> (syscall + int) \<times> 'k" where
  "createMcastRecvSocket sys parentIf =
     in_netns sys srbase_ns (\<lambda>k.
       case try_call sys (InterfaceByName parentIf) k of
         (Inl err, k) \<Rightarrow> (Inl err, k)
       | (Inr ifIndex, k) \<Rightarrow>
           open_socket sys (\<lambda>fd.
             [Setsockopt fd SO_REUSEADDR, Setsockopt fd SO_REUSEPORT, Setsockopt fd (SO_BINDTODEVICE parentIf),
              Bind fd [0, 0, 0, 0] riftLIEPort, Setsockopt fd (IP_ADD_MEMBERSHIP [224, 0, 0, 121] ifIndex)]) k)"

definition createMcastSendSocket :: "'k kernel \<Rightarrow> byte list \<Rightarrow> string \<Rightarrow> 'k \<Rightarrow> (syscall + int) \<times> 'k" where
  "createMcastSendSocket sys addr4 subIf =
     in_netns sys default_ns (\<lambda>k.
       case try_call sys (InterfaceByName subIf) k of
         (Inl err, k) \<Rightarrow> (Inl err, k)
       | (Inr ifIndex, k) \<Rightarrow>
           open_socket sys (\<lambda>fd.
             [Setsockopt fd SO_REUSEADDR, Bind fd addr4 0, Setsockopt fd (IP_MULTICAST_IF addr4 ifIndex),
              Setsockopt fd (IP_MULTICAST_TTL 1), Setsockopt fd (IP_MULTICAST_LOOP 0)]) k)"

definition createUnicastSocket :: "'k kernel \<Rightarrow> byte list \<Rightarrow> string \<Rightarrow> 'k \<Rightarrow> (syscall + int) \<times> 'k" where
  "createUnicastSocket sys addr4 subIf =
     in_netns sys default_ns
       (open_socket sys (\<lambda>fd.
          [Setsockopt fd SO_REUSEADDR, Setsockopt fd SO_REUSEPORT, Setsockopt fd (SO_BINDTODEVICE subIf),
           Bind fd addr4 riftFloodPort]))"

text \<open>The sockets of a transport: those of \<open>New\<close>, and the flood socket while it is open.\<close>

record conns =
  co_recvConn :: int
  co_sendConn :: int
  co_floodConn :: "int option"

definition New_conns :: "'k kernel \<Rightarrow> string \<Rightarrow> byte list \<Rightarrow> 'k \<Rightarrow> (syscall + int \<times> conns) \<times> 'k" where
  "New_conns sys srlName addr4 k =
     (let (parent, sub) = LinuxInterfaceNames srlName
      in case getIfIndexInNS sys sub default_ns k of
           (Inl err, k) \<Rightarrow> (Inl err, k)
         | (Inr linkID, k) \<Rightarrow>
             (case createMcastRecvSocket sys parent k of
                (Inl err, k) \<Rightarrow> (Inl err, k)
              | (Inr recvConn, k) \<Rightarrow>
                  (case createMcastSendSocket sys addr4 sub k of
                     (Inl err, k) \<Rightarrow> (Inl err, close sys recvConn k)
                   | (Inr sendConn, k) \<Rightarrow>
                       (Inr (linkID, \<lparr>co_recvConn = recvConn, co_sendConn = sendConn, co_floodConn = None\<rparr>), k))))"

definition OpenFlood_conns :: "'k kernel \<Rightarrow> byte list \<Rightarrow> string \<Rightarrow> conns \<Rightarrow> 'k \<Rightarrow> (syscall + conns) \<times> 'k" where
  "OpenFlood_conns sys addr4 sub c k =
     (if co_floodConn c \<noteq> None then (Inr c, k)
      else case createUnicastSocket sys addr4 sub k of
          (Inl err, k) \<Rightarrow> (Inl err, k)
        | (Inr conn, k) \<Rightarrow> (Inr (c\<lparr>co_floodConn := Some conn\<rparr>), k))"

definition CloseFlood_conns :: "'k kernel \<Rightarrow> conns \<Rightarrow> 'k \<Rightarrow> conns \<times> 'k" where
  "CloseFlood_conns sys c k =
     (case co_floodConn c of None \<Rightarrow> (c, k) | Some conn \<Rightarrow> (c\<lparr>co_floodConn := None\<rparr>, close sys conn k))"

definition Close_conns :: "'k kernel \<Rightarrow> conns \<Rightarrow> 'k \<Rightarrow> 'k" where
  "Close_conns sys c k =
     (let k = close sys (co_recvConn c) k; k = close sys (co_sendConn c) k
      in case co_floodConn c of None \<Rightarrow> k | Some conn \<Rightarrow> close sys conn k)"

section \<open>What the calls do\<close>

text \<open>The process as the kernel sees it: the open descriptors, and the namespace of the thread.\<close>

datatype fd_object = NsFile nat | Socket nat

record process =
  pr_fds :: "int \<rightharpoonup> fd_object"
  pr_ns :: nat

text \<open>The namespace a path names when it is opened.\<close>

definition opened_ns :: "(string \<Rightarrow> nat) \<Rightarrow> string \<Rightarrow> process \<Rightarrow> nat" where
  "opened_ns paths path p = (if path = self_ns then pr_ns p else paths path)"

definition sys_documented :: "(string \<Rightarrow> nat) \<Rightarrow> 'k kernel \<Rightarrow> ('k \<Rightarrow> process) \<Rightarrow> bool" where
  "sys_documented paths sys view \<longleftrightarrow>
     (\<forall>c k r k'. sys c k = (r, k') \<longrightarrow>
        (case (c, r) of
           (CloseFd fd, _) \<Rightarrow> view k' = (view k)\<lparr>pr_fds := (pr_fds (view k))(fd := None)\<rparr>
         | (_, None) \<Rightarrow> view k' = view k
         | (OpenFile path, Some fd) \<Rightarrow> pr_fds (view k) fd = None \<and>
             view k' = (view k)\<lparr>pr_fds := (pr_fds (view k))(fd \<mapsto> NsFile (opened_ns paths path (view k)))\<rparr>
         | (SocketUDP, Some fd) \<Rightarrow> pr_fds (view k) fd = None \<and>
             view k' = (view k)\<lparr>pr_fds := (pr_fds (view k))(fd \<mapsto> Socket (pr_ns (view k)))\<rparr>
         | (FilePacketConn fd, Some conn) \<Rightarrow> pr_fds (view k) conn = None \<and>
             view k' = (view k)\<lparr>pr_fds := (pr_fds (view k))(conn := pr_fds (view k) fd)\<rparr>
         | (Setns fd, Some _) \<Rightarrow> (\<exists>n. pr_fds (view k) fd = Some (NsFile n) \<and> view k' = (view k)\<lparr>pr_ns := n\<rparr>)
         | _ \<Rightarrow> view k' = view k))"

text \<open>Switching back to the namespace \<open>n\<close> does not fail.\<close>

definition returns_to :: "'k kernel \<Rightarrow> ('k \<Rightarrow> process) \<Rightarrow> nat \<Rightarrow> bool" where
  "returns_to sys view n \<longleftrightarrow> (\<forall>k fd. pr_fds (view k) fd = Some (NsFile n) \<longrightarrow> fst (sys (Setns fd) k) \<noteq> None)"

text \<open>
  What a function leaves behind: the descriptors there were, and, if it succeeds, those its result holds, which
  are sockets of the namespace \<open>ns\<close>; and the namespace it was called in.
\<close>

definition leaves :: "('a \<Rightarrow> int list) \<Rightarrow> nat \<Rightarrow> bool \<Rightarrow> process \<Rightarrow> (syscall + 'a) \<Rightarrow> process \<Rightarrow> bool" where
  "leaves held ns back p r p' \<longleftrightarrow>
     (case r of
        Inl _ \<Rightarrow> pr_fds p' = pr_fds p
      | Inr v \<Rightarrow> distinct (held v) \<and> (\<forall>fd \<in> set (held v). pr_fds p fd = None) \<and>
          pr_fds p' = (\<lambda>fd. if fd \<in> set (held v) then Some (Socket ns) else pr_fds p fd)) \<and>
     (back \<longrightarrow> pr_ns p' = pr_ns p)"

lemma close_view: "sys_documented paths sys view \<Longrightarrow> view (close sys fd k) = (view k)\<lparr>pr_fds := (pr_fds (view k))(fd := None)\<rparr>"
  unfolding close_def sys_documented_def by (cases "sys (CloseFd fd) k") fastforce

lemma sys_fails:
  assumes "sys_documented paths sys view" and "sys c k = (None, k')" and "\<And>fd. c \<noteq> CloseFd fd"
  shows "view k' = view k"
proof -
  have "case (c, None :: int option) of
           (CloseFd fd, _) \<Rightarrow> view k' = (view k)\<lparr>pr_fds := (pr_fds (view k))(fd := None)\<rparr>
         | _ \<Rightarrow> view k' = view k"
    using assms(1,2) unfolding sys_documented_def by (cases c) fastforce+
  with assms(3) show ?thesis by (cases c) auto
qed

lemma sys_ok:
  assumes "sys_documented paths sys view" and "sys c k = (Some v, k')"
  shows "c = OpenFile path \<Longrightarrow> pr_fds (view k) v = None \<and>
      view k' = (view k)\<lparr>pr_fds := (pr_fds (view k))(v \<mapsto> NsFile (opened_ns paths path (view k)))\<rparr>"
    and "c = SocketUDP \<Longrightarrow> pr_fds (view k) v = None \<and>
      view k' = (view k)\<lparr>pr_fds := (pr_fds (view k))(v \<mapsto> Socket (pr_ns (view k)))\<rparr>"
    and "c = FilePacketConn fd \<Longrightarrow> pr_fds (view k) v = None \<and> view k' = (view k)\<lparr>pr_fds := (pr_fds (view k))(v := pr_fds (view k) fd)\<rparr>"
    and "c = Setns fd \<Longrightarrow> \<exists>n. pr_fds (view k) fd = Some (NsFile n) \<and> view k' = (view k)\<lparr>pr_ns := n\<rparr>"
    and "c \<in> range InterfaceByName \<union> {Setsockopt fd opt | fd opt. True} \<union> {Bind fd a p | fd a p. True} \<Longrightarrow> view k' = view k"
  using assms unfolding sys_documented_def by fastforce+

text \<open>Calls that change nothing.\<close>

definition quiet :: "syscall \<Rightarrow> bool" where
  "quiet c \<longleftrightarrow> c \<in> range InterfaceByName \<union> {Setsockopt fd opt | fd opt. True} \<union> {Bind fd a p | fd a p. True}"

lemma quiet_simps [simp]: "quiet (InterfaceByName n)" "quiet (Setsockopt fd opt)" "quiet (Bind fd a p)"
  by (auto simp: quiet_def)

lemma try_callE:
  assumes "try_call sys c k = (r, k')"
  obtains (fails) "r = Inl c" and "sys c k = (None, k')" | (succeeds) v where "r = Inr v" and "sys c k = (Some v, k')"
  using assms by (auto simp: try_call_def Let_def split: prod.splits option.splits)

lemma try_quiet:
  assumes "sys_documented paths sys view" and "quiet c" and "try_call sys c k = (r, k')"
  shows "view k' = view k"
  using assms(3)
proof (cases rule: try_callE)
  case fails
  with assms(2) show ?thesis by (intro sys_fails [OF assms(1), of c k]) (auto simp: quiet_def)
next
  case (succeeds v)
  with assms(2) sys_ok(5) [OF assms(1), of c k v k'] show ?thesis by (simp add: quiet_def)
qed

lemma configure_view:
  assumes "sys_documented paths sys view" and "\<forall>c \<in> set cs. quiet c" and "configure sys fd cs k = (r, k')"
  shows "case r of Inl _ \<Rightarrow> view k' = (view k)\<lparr>pr_fds := (pr_fds (view k))(fd := None)\<rparr> | Inr v \<Rightarrow> v = fd \<and> view k' = view k"
  using assms(2,3)
proof (induction cs arbitrary: k)
  case (Cons c cs)
  obtain r1 k1 where t: "try_call sys c k = (r1, k1)" by (cases "try_call sys c k")
  have v: "view k1 = view k" using try_quiet [OF assms(1) _ t] Cons.prems(1) by simp
  show ?case
  proof (cases r1)
    case (Inl err)
    with Cons.prems t show ?thesis by (auto simp: close_view [OF assms(1)] v)
  next
    case (Inr x)
    with Cons.prems t have "configure sys fd cs k1 = (r, k')" by simp
    from Cons.IH [OF _ this] Cons.prems(1) show ?thesis by (cases r) (simp_all add: v)
  qed
qed auto

text \<open>A socket is made in the namespace of the thread, or nothing is left.\<close>

lemma open_socket_view:
  assumes doc: "sys_documented paths sys view" and "\<And>fd. \<forall>c \<in> set (options fd). quiet c"
    and "open_socket sys options k = (r, k')"
  shows "pr_ns (view k') = pr_ns (view k) \<and>
    (case r of Inl _ \<Rightarrow> pr_fds (view k') = pr_fds (view k)
     | Inr conn \<Rightarrow> pr_fds (view k) conn = None \<and> pr_fds (view k') = (pr_fds (view k))(conn \<mapsto> Socket (pr_ns (view k))))"
proof -
  obtain r1 k1 where t: "try_call sys SocketUDP k = (r1, k1)" by (cases "try_call sys SocketUDP k")
  then show ?thesis
  proof (cases rule: try_callE)
    case fails
    with assms(3) t sys_fails [OF doc fails(2)] show ?thesis by (auto simp: open_socket_def)
  next
    case (succeeds fd)
    note sock = sys_ok(2) [OF doc succeeds(2) refl]
    obtain r2 k2 where c: "configure sys fd (options fd) k1 = (r2, k2)" by (cases "configure sys fd (options fd) k1")
    note conf = configure_view [OF doc assms(2) c]
    show ?thesis
    proof (cases r2)
      case (Inl err)
      then have "r = Inl err" "k' = k2" using assms(3) t succeeds c by (auto simp: open_socket_def)
      moreover have "(pr_fds (view k))(fd := None) = pr_fds (view k)" using sock by (simp add: fun_upd_idem)
      ultimately show ?thesis using conf Inl sock by simp
    next
      case (Inr fd')
      with conf have fd: "fd' = fd" "view k2 = view k1" by simp_all
      obtain r3 k3 where w: "try_call sys (FilePacketConn fd) k2 = (r3, k3)" by (cases "try_call sys (FilePacketConn fd) k2")
      then have r: "r = r3" "k' = close sys fd k3" using assms(3) t succeeds c Inr fd by (auto simp: open_socket_def wrap_conn_def)
      from w show ?thesis
      proof (cases rule: try_callE)
        case fails
        have "(pr_fds (view k))(fd := None) = pr_fds (view k)" using sock by (simp add: fun_upd_idem)
        with fails r fd sock sys_fails [OF doc fails(2)] show ?thesis by (simp add: close_view [OF doc])
      next
        case (succeeds conn)
        note pc = sys_ok(3) [OF doc succeeds(2) refl]
        have "conn \<noteq> fd" "pr_fds (view k) conn = None" using pc fd sock by (auto split: if_splits)
        then have "((pr_fds (view k))(fd \<mapsto> Socket (pr_ns (view k)), conn \<mapsto> Socket (pr_ns (view k))))(fd := None) =
            (pr_fds (view k))(conn \<mapsto> Socket (pr_ns (view k)))"
          using sock by (auto simp: fun_eq_iff)
        with succeeds r fd sock pc \<open>pr_fds (view k) conn = None\<close> show ?thesis by (simp add: close_view [OF doc])
      qed
    qed
  qed
qed

section \<open>Coming back\<close>

text \<open>What the body of a function may do: make the sockets its result holds, in the namespace of the thread.\<close>

definition body_ok :: "('k \<Rightarrow> process) \<Rightarrow> ('a \<Rightarrow> int list) \<Rightarrow> ('k \<Rightarrow> (syscall + 'a) \<times> 'k) \<Rightarrow> bool" where
  "body_ok view held body \<longleftrightarrow>
     (\<forall>k r k'. body k = (r, k') \<longrightarrow> pr_ns (view k') = pr_ns (view k) \<and>
        leaves held (pr_ns (view k)) True (view k) r (view k'))"

lemma try_body:
  assumes "sys_documented paths sys view" and "quiet c"
  shows "body_ok view (\<lambda>_. []) (try_call sys c)"
  using try_quiet [OF assms] by (auto simp: body_ok_def leaves_def split: sum.split)

lemma open_socket_body:
  assumes "sys_documented paths sys view" and "\<And>fd. \<forall>c \<in> set (options fd). quiet c"
  shows "body_ok view (\<lambda>conn. [conn]) (open_socket sys options)"
  unfolding body_ok_def
proof (intro allI impI)
  fix k r k' assume "open_socket sys options k = (r, k')"
  from open_socket_view [OF assms this]
  show "pr_ns (view k') = pr_ns (view k) \<and> leaves (\<lambda>conn. [conn]) (pr_ns (view k)) True (view k) r (view k')"
    by (cases r) (auto simp: leaves_def)
qed

lemma lookup_then_body:
  assumes "sys_documented paths sys view" and "quiet c" and "\<And>v. body_ok view held (body v)"
  shows "body_ok view held (\<lambda>k. case try_call sys c k of (Inl err, k) \<Rightarrow> (Inl err, k) | (Inr v, k) \<Rightarrow> body v k)"
  unfolding body_ok_def
proof (intro allI impI)
  fix k r k'
  assume run: "(case try_call sys c k of (Inl err, k) \<Rightarrow> (Inl err, k) | (Inr v, k) \<Rightarrow> body v k) = (r, k')"
  obtain r1 k1 where t: "try_call sys c k = (r1, k1)" by (cases "try_call sys c k")
  have v: "view k1 = view k" using try_quiet [OF assms(1,2) t] .
  show "pr_ns (view k') = pr_ns (view k) \<and> leaves held (pr_ns (view k)) True (view k) r (view k')"
  proof (cases r1)
    case (Inl err)
    with run t v show ?thesis by (auto simp: leaves_def)
  next
    case (Inr x)
    with run t have "body x k1 = (r, k')" by simp
    with assms(3) [of x] show ?thesis unfolding body_ok_def v [symmetric] by blast
  qed
qed

lemma in_netns_leaves:
  assumes doc: "sys_documented paths sys view" and body: "body_ok view held body" and path: "nsPath \<noteq> self_ns"
    and run: "in_netns sys nsPath body k = (r, k')"
  shows "leaves held (paths nsPath) (returns_to sys view (pr_ns (view k))) (view k) r (view k')"
proof -
  obtain r1 k1 where t1: "try_call sys (OpenFile self_ns) k = (r1, k1)" by (cases "try_call sys (OpenFile self_ns) k")
  then show ?thesis
  proof (cases rule: try_callE)
    case fails
    with run t1 sys_fails [OF doc fails(2)] show ?thesis by (auto simp: in_netns_def leaves_def)
  next
    case (succeeds orig)
    note o = sys_ok(1) [OF doc succeeds(2) refl]
    obtain r2 k2 where t2: "try_call sys (OpenFile nsPath) k1 = (r2, k2)" by (cases "try_call sys (OpenFile nsPath) k1")
    then show ?thesis
    proof (cases rule: try_callE)
      case fails
      then have v: "view k2 = view k1" using sys_fails [OF doc fails(2)] by simp
      have "r = Inl (OpenFile nsPath)" "k' = close sys orig k2" using run t1 t2 succeeds fails by (auto simp: in_netns_def)
      with o show ?thesis by (simp add: leaves_def close_view [OF doc] v fun_upd_idem)
    next
      case (succeeds target)
      note tg = sys_ok(1) [OF doc succeeds(2) refl]
      have ne: "target \<noteq> orig" using tg o by (auto split: if_splits)
      obtain r3 k3 where t3: "try_call sys (Setns target) k2 = (r3, k3)" by (cases "try_call sys (Setns target) k2")
      note r12 = \<open>r1 = Inr orig\<close> \<open>r2 = Inr target\<close>
      have clean: "(pr_fds (view k))(target := None, orig := None) = pr_fds (view k)"
        using o tg ne by (auto simp: fun_eq_iff)
      from t3 show ?thesis
      proof (cases rule: try_callE)
        case fails
        then have v: "view k3 = view k2" using sys_fails [OF doc fails(2)] by simp
        have "r = Inl (Setns target)" "k' = close sys orig (close sys target k3)"
          using run t1 t2 t3 r12 fails by (auto simp: in_netns_def)
        with o tg show ?thesis by (simp add: leaves_def close_view [OF doc] v clean)
      next
        case (succeeds z)
        have ns: "pr_ns (view k3) = paths nsPath" "pr_fds (view k3) = pr_fds (view k2)"
          using sys_ok(4) [OF doc succeeds(2) refl] tg o path by (auto simp: opened_ns_def)
        obtain rb k4 where b: "body k3 = (rb, k4)" by (cases "body k3")
        define k5 where "k5 = snd (sys (Setns orig) k4)"
        have r: "r = rb" "k' = close sys orig (close sys target k5)"
          using run t1 t2 t3 r12 succeeds b by (auto simp: in_netns_def k5_def Let_def)
        have lv: "leaves held (paths nsPath) True (view k3) rb (view k4)" using body b unfolding body_ok_def ns(1) [symmetric] by blast
        have fds2: "pr_fds (view k2) = (pr_fds (view k))(orig \<mapsto> NsFile (pr_ns (view k)), target \<mapsto> NsFile (paths nsPath))"
          using o tg path by (simp add: opened_ns_def)
        have o4: "pr_fds (view k4) orig = Some (NsFile (pr_ns (view k)))"
          using lv ns(2) fds2 ne by (auto simp: leaves_def split: sum.splits)
        have fds5: "pr_fds (view k5) = pr_fds (view k4)"
          and ns5: "returns_to sys view (pr_ns (view k)) \<Longrightarrow> pr_ns (view k5) = pr_ns (view k)"
        proof -
          obtain r5 where s5: "sys (Setns orig) k4 = (r5, k5)" by (cases "sys (Setns orig) k4") (simp add: k5_def)
          show "pr_fds (view k5) = pr_fds (view k4)"
            using sys_fails [OF doc, of "Setns orig" k4 k5] sys_ok(4) [OF doc, of "Setns orig" k4 _ k5 orig] s5 by (cases r5) auto
          show "pr_ns (view k5) = pr_ns (view k)" if "returns_to sys view (pr_ns (view k))"
          proof -
            have "r5 \<noteq> None" using that o4 s5 unfolding returns_to_def by (metis fst_conv)
            with o4 s5 sys_ok(4) [OF doc, of "Setns orig" k4 _ k5 orig] show ?thesis by auto
          qed
        qed
        have fds': "pr_fds (view k') = (pr_fds (view k4))(target := None, orig := None)"
          by (simp add: r close_view [OF doc] fds5)
        have "case rb of Inl _ \<Rightarrow> pr_fds (view k') = pr_fds (view k)
          | Inr v \<Rightarrow> distinct (held v) \<and> (\<forall>fd \<in> set (held v). pr_fds (view k) fd = None) \<and>
              pr_fds (view k') = (\<lambda>fd. if fd \<in> set (held v) then Some (Socket (paths nsPath)) else pr_fds (view k) fd)"
        proof (cases rb)
          case (Inl err)
          then have "pr_fds (view k4) = pr_fds (view k2)" using lv ns(2) by (simp add: leaves_def)
          with Inl show ?thesis by (simp add: fds' fds2 clean)
        next
          case (Inr v)
          then have h: "distinct (held v)" "\<forall>fd \<in> set (held v). pr_fds (view k2) fd = None"
            "pr_fds (view k4) = (\<lambda>fd. if fd \<in> set (held v) then Some (Socket (paths nsPath)) else pr_fds (view k2) fd)"
            using lv unfolding leaves_def Inr ns(2) by simp_all
          moreover have "pr_fds (view k2) target \<noteq> None" "pr_fds (view k2) orig \<noteq> None" using fds2 ne by simp_all
          ultimately have "target \<notin> set (held v)" "orig \<notin> set (held v)" by metis+
          with h o tg ne show ?thesis
            unfolding Inr fds' h(3) fds2 by (auto simp: fun_eq_iff split: if_splits)
        qed
        then show ?thesis
          using ns5 by (simp add: leaves_def r(1)) (simp add: r(2) close_view [OF doc])
      qed
    qed
  qed
qed

lemma ns_paths: "srbase_ns \<noteq> self_ns" "default_ns \<noteq> self_ns"
  by simp_all

lemma create_leaves:
  assumes doc: "sys_documented paths sys view"
  shows "createMcastRecvSocket sys parentIf k = (r, k') \<Longrightarrow>
      leaves (\<lambda>conn. [conn]) (paths srbase_ns) (returns_to sys view (pr_ns (view k))) (view k) r (view k')"
    and "createMcastSendSocket sys addr4 subIf k = (r, k') \<Longrightarrow>
      leaves (\<lambda>conn. [conn]) (paths default_ns) (returns_to sys view (pr_ns (view k))) (view k) r (view k')"
    and "createUnicastSocket sys addr4 subIf k = (r, k') \<Longrightarrow>
      leaves (\<lambda>conn. [conn]) (paths default_ns) (returns_to sys view (pr_ns (view k))) (view k) r (view k')"
    and "getIfIndexInNS sys ifName default_ns k = (r2, k') \<Longrightarrow>
      leaves (\<lambda>_. []) (paths default_ns) (returns_to sys view (pr_ns (view k))) (view k) r2 (view k')"
  unfolding createMcastRecvSocket_def createMcastSendSocket_def createUnicastSocket_def getIfIndexInNS_def
  by (erule in_netns_leaves [OF doc _ _, rotated 2];
      (rule lookup_then_body [OF doc] open_socket_body [OF doc] try_body [OF doc] | simp)+)+

section \<open>The life of a transport\<close>

text \<open>The descriptors a transport holds, on top of those there were before.\<close>

definition holds :: "(string \<Rightarrow> nat) \<Rightarrow> (int \<rightharpoonup> fd_object) \<Rightarrow> conns \<Rightarrow> (int \<rightharpoonup> fd_object) \<Rightarrow> bool" where
  "holds paths fds0 c fds \<longleftrightarrow>
     fds0 (co_recvConn c) = None \<and> fds0 (co_sendConn c) = None \<and> co_recvConn c \<noteq> co_sendConn c \<and>
     (case co_floodConn c of
        None \<Rightarrow> fds = fds0(co_recvConn c \<mapsto> Socket (paths srbase_ns), co_sendConn c \<mapsto> Socket (paths default_ns))
      | Some conn \<Rightarrow> fds0 conn = None \<and> conn \<noteq> co_recvConn c \<and> conn \<noteq> co_sendConn c \<and>
          fds = fds0(co_recvConn c \<mapsto> Socket (paths srbase_ns), co_sendConn c \<mapsto> Socket (paths default_ns),
                     conn \<mapsto> Socket (paths default_ns)))"

lemma leaves_one:
  assumes "leaves (\<lambda>conn. [conn]) ns back p r p'"
  shows "case r of Inl _ \<Rightarrow> pr_fds p' = pr_fds p | Inr conn \<Rightarrow> pr_fds p conn = None \<and> pr_fds p' = (pr_fds p)(conn \<mapsto> Socket ns)"
    and "back \<Longrightarrow> pr_ns p' = pr_ns p"
  using assms by (auto simp: leaves_def fun_eq_iff split: sum.splits)

lemma leaves_none:
  assumes "leaves (\<lambda>_. []) ns back p r p'"
  shows "pr_fds p' = pr_fds p" and "back \<Longrightarrow> pr_ns p' = pr_ns p"
  using assms by (auto simp: leaves_def split: sum.splits)

lemma New_conns_holds:
  assumes doc: "sys_documented paths sys view" and run: "New_conns sys srlName addr4 k = (r, k')"
  shows "case r of Inl _ \<Rightarrow> pr_fds (view k') = pr_fds (view k)
    | Inr (linkID, c) \<Rightarrow> holds paths (pr_fds (view k)) c (pr_fds (view k')) \<and> co_floodConn c = None"
    and "returns_to sys view (pr_ns (view k)) \<Longrightarrow> pr_ns (view k') = pr_ns (view k)"
proof -
  obtain parent sub where n: "LinuxInterfaceNames srlName = (parent, sub)" by (cases "LinuxInterfaceNames srlName")
  obtain r1 k1 where 1: "getIfIndexInNS sys sub default_ns k = (r1, k1)" by (cases "getIfIndexInNS sys sub default_ns k")
  obtain r2 k2 where 2: "createMcastRecvSocket sys parent k1 = (r2, k2)" by (cases "createMcastRecvSocket sys parent k1")
  obtain r3 k3 where 3: "createMcastSendSocket sys addr4 sub k2 = (r3, k3)" by (cases "createMcastSendSocket sys addr4 sub k2")
  note l1 = leaves_none [OF create_leaves(4) [OF doc 1]]
  note l2 = leaves_one [OF create_leaves(1) [OF doc 2]]
  note l3 = leaves_one [OF create_leaves(2) [OF doc 3]]
  note ends = run [unfolded New_conns_def n Let_def prod.case 1]
  show "case r of Inl _ \<Rightarrow> pr_fds (view k') = pr_fds (view k)
    | Inr (linkID, c) \<Rightarrow> holds paths (pr_fds (view k)) c (pr_fds (view k')) \<and> co_floodConn c = None"
    using ends 2 3 l1(1) l2(1) l3(1)
    by (cases r1; cases r2; cases r3) (auto simp: close_view [OF doc] holds_def fun_upd_idem split: if_splits)
  show "pr_ns (view k') = pr_ns (view k)" if ret: "returns_to sys view (pr_ns (view k))"
  proof -
    have ns1: "pr_ns (view k1) = pr_ns (view k)" using l1(2) ret by simp
    have ns2: "pr_ns (view k2) = pr_ns (view k)" using l2(2) ret ns1 by simp
    have ns3: "pr_ns (view k3) = pr_ns (view k)" using l3(2) ret ns2 by simp
    show ?thesis
      using ends 2 3 ns1 ns2 ns3 by (cases r1; cases r2; cases r3) (auto simp: close_view [OF doc])
  qed
qed

datatype flood_op = FloodOpen | FloodClose

fun run_op :: "'k kernel \<Rightarrow> byte list \<Rightarrow> string \<Rightarrow> flood_op \<Rightarrow> conns \<times> 'k \<Rightarrow> conns \<times> 'k" where
  "run_op sys addr4 sub FloodOpen (c, k) =
     (case OpenFlood_conns sys addr4 sub c k of (Inl _, k) \<Rightarrow> (c, k) | (Inr c, k) \<Rightarrow> (c, k))"
| "run_op sys addr4 sub FloodClose (c, k) = CloseFlood_conns sys c k"

lemma run_op_holds:
  assumes doc: "sys_documented paths sys view" and "holds paths fds0 c (pr_fds (view k))" and "run_op sys addr4 sub op (c, k) = (c', k')"
  shows "holds paths fds0 c' (pr_fds (view k'))"
proof (cases op)
  case FloodOpen
  obtain r1 k1 where 1: "createUnicastSocket sys addr4 sub k = (r1, k1)" by (cases "createUnicastSocket sys addr4 sub k")
  note l = leaves_one(1) [OF create_leaves(3) [OF doc 1]]
  show ?thesis
  proof (cases "co_floodConn c = None")
    case True
    with FloodOpen assms(2,3) 1 l show ?thesis
      by (cases r1) (auto simp: OpenFlood_conns_def holds_def split: if_splits)
  next
    case False
    with FloodOpen assms(2,3) show ?thesis by (auto simp: OpenFlood_conns_def)
  qed
next
  case FloodClose
  show ?thesis
  proof (cases "co_floodConn c")
    case None
    with FloodClose assms(2,3) show ?thesis by (simp add: CloseFlood_conns_def)
  next
    case (Some conn)
    then have "c' = c\<lparr>co_floodConn := None\<rparr>" "k' = close sys conn k"
      using FloodClose assms(3) by (simp_all add: CloseFlood_conns_def)
    with Some assms(2) show ?thesis
      by (auto simp: holds_def close_view [OF doc] fun_eq_iff)
  qed
qed

lemma run_op_ns:
  assumes doc: "sys_documented paths sys view" and "returns_to sys view n" and "pr_ns (view (snd x)) = n"
  shows "pr_ns (view (snd (run_op sys addr4 sub op x))) = n"
proof -
  obtain c k where x: "x = (c, k)" by (cases x)
  show ?thesis
  proof (cases op)
    case FloodOpen
    obtain r1 k1 where 1: "createUnicastSocket sys addr4 sub k = (r1, k1)" by (cases "createUnicastSocket sys addr4 sub k")
    have "pr_ns (view k1) = n" using leaves_one(2) [OF create_leaves(3) [OF doc 1]] assms(2,3) x by simp
    with FloodOpen assms(3) 1 x show ?thesis by (auto simp: OpenFlood_conns_def split: sum.split)
  next
    case FloodClose
    with assms(3) x show ?thesis by (auto simp: CloseFlood_conns_def close_view [OF doc] split: option.split)
  qed
qed

lemma Close_ns: "sys_documented paths sys view \<Longrightarrow> pr_ns (view (Close_conns sys c k)) = pr_ns (view k)"
  by (cases "co_floodConn c") (simp_all add: Close_conns_def Let_def close_view)

lemma Close_holds:
  assumes doc: "sys_documented paths sys view" and "holds paths fds0 c (pr_fds (view k))"
  shows "pr_fds (view (Close_conns sys c k)) = fds0"
  using assms(2) by (cases "co_floodConn c") (auto simp: Close_conns_def Let_def holds_def close_view [OF doc] fun_eq_iff)

section \<open>Properties\<close>

text \<open>
  C20 \<^bold>\<open>A transport leaks no descriptor and no namespace.\<close> Whichever of its system calls fail, making the sockets
  of an interface either fails and leaves the process with the descriptors it had, or opens exactly two
  new ones, the multicast receive socket in \<open>srbase\<close> and the send socket in \<open>srbase-default\<close>. After any opening and
  closing of the flood socket, whether each attempt succeeds or fails, the process has these two, at most one more in
  \<open>srbase-default\<close>, which is the flood socket, and the descriptors it had; and closing the transport gives back
  every descriptor. At every one of these points the thread is in the namespace it started in, provided that the
  system call that switches back to it does not fail; its error is ignored by the code.
\<close>

theorem transport_leaks_nothing:
  assumes "sys_documented paths sys view" and "New_conns sys srlName addr4 k = (r, k')"
  shows "(returns_to sys view (pr_ns (view k)) \<longrightarrow> pr_ns (view k') = pr_ns (view k)) \<and>
    (case r of
       Inl _ \<Rightarrow> pr_fds (view k') = pr_fds (view k)
     | Inr (linkID, c) \<Rightarrow>
         co_recvConn c \<noteq> co_sendConn c \<and> pr_fds (view k) (co_recvConn c) = None \<and> pr_fds (view k) (co_sendConn c) = None \<and>
         pr_fds (view k') = (pr_fds (view k))(co_recvConn c \<mapsto> Socket (paths srbase_ns), co_sendConn c \<mapsto> Socket (paths default_ns)) \<and>
         (\<forall>ops. let (c', k'') = fold (run_op sys addr4 sub) ops (c, k') in
            holds paths (pr_fds (view k)) c' (pr_fds (view k'')) \<and>
            pr_fds (view (Close_conns sys c' k'')) = pr_fds (view k) \<and>
            (returns_to sys view (pr_ns (view k)) \<longrightarrow>
               pr_ns (view k'') = pr_ns (view k) \<and> pr_ns (view (Close_conns sys c' k'')) = pr_ns (view k))))"
proof -
  have ops: "holds paths fds0 (fst x) (pr_fds (view (snd x))) \<Longrightarrow>
      holds paths fds0 (fst (fold (run_op sys addr4 sub) ops x)) (pr_fds (view (snd (fold (run_op sys addr4 sub) ops x))))" for fds0 x ops
    by (rule fold_invariant [where Q = "\<lambda>_. True"]) (auto intro: run_op_holds [OF assms(1)] split: prod.splits)
  have ns: "\<lbrakk>returns_to sys view n; pr_ns (view (snd x)) = n\<rbrakk> \<Longrightarrow>
      pr_ns (view (snd (fold (run_op sys addr4 sub) ops x))) = n" for n x ops
    by (rule fold_invariant [where Q = "\<lambda>_. True"]) (auto intro: run_op_ns [OF assms(1)])
  have ret: "returns_to sys view (pr_ns (view k)) \<Longrightarrow> pr_ns (view k') = pr_ns (view k)"
    using New_conns_holds(2) [OF assms] by blast
  show ?thesis
  proof (cases r)
    case (Inl err)
    with ret New_conns_holds(1) [OF assms] show ?thesis by simp
  next
    case (Inr lc)
    then obtain linkID c where r: "r = Inr (linkID, c)" by (cases lc) simp
    with New_conns_holds(1) [OF assms] have h: "holds paths (pr_fds (view k)) c (pr_fds (view k'))" and "co_floodConn c = None" by simp_all
    moreover have "holds paths (pr_fds (view k)) c' (pr_fds (view k'')) \<and>
        pr_fds (view (Close_conns sys c' k'')) = pr_fds (view k) \<and>
        (returns_to sys view (pr_ns (view k)) \<longrightarrow>
           pr_ns (view k'') = pr_ns (view k) \<and> pr_ns (view (Close_conns sys c' k'')) = pr_ns (view k))"
      if "fold (run_op sys addr4 sub) l (c, k') = (c', k'')" for l c' k''
    proof -
      have held: "holds paths (pr_fds (view k)) c' (pr_fds (view k''))"
        using ops [of "pr_fds (view k)" "(c, k')" l] h that by simp
      moreover have "returns_to sys view (pr_ns (view k)) \<Longrightarrow> pr_ns (view k'') = pr_ns (view k)"
        using ns [of "pr_ns (view k)" "(c, k')" l] ret that by simp
      ultimately show ?thesis using Close_holds [OF assms(1) held] Close_ns [OF assms(1), of c' k''] by simp
    qed
    ultimately show ?thesis using ret by (auto simp: r holds_def)
  qed
qed

text \<open>A kernel that never fails, with two namespaces.\<close>

definition ref_paths :: "string \<Rightarrow> nat" where
  "ref_paths path = (if path = srbase_ns then 1 else 2)"

definition ref_fresh :: "fd_object \<Rightarrow> process \<times> int \<Rightarrow> int option \<times> process \<times> int" where
  "ref_fresh obj k =
     (if pr_fds (fst k) (snd k) = None
      then (Some (snd k), (fst k)\<lparr>pr_fds := (pr_fds (fst k))(snd k \<mapsto> obj)\<rparr>, snd k + 1) else (None, k))"

fun ref_sys :: "(process \<times> int) kernel" where
  "ref_sys (OpenFile path) k = ref_fresh (NsFile (opened_ns ref_paths path (fst k))) k"
| "ref_sys (CloseFd fd) k = (Some 0, (fst k)\<lparr>pr_fds := (pr_fds (fst k))(fd := None)\<rparr>, snd k)"
| "ref_sys (Setns fd) k =
     (case pr_fds (fst k) fd of Some (NsFile n) \<Rightarrow> (Some 0, (fst k)\<lparr>pr_ns := n\<rparr>, snd k) | _ \<Rightarrow> (None, k))"
| "ref_sys (InterfaceByName name) k = (Some 5, k)"
| "ref_sys SocketUDP k = ref_fresh (Socket (pr_ns (fst k))) k"
| "ref_sys (Setsockopt fd opt) k = (Some 0, k)"
| "ref_sys (Bind fd a p) k = (Some 0, k)"
| "ref_sys (FilePacketConn fd) k = (case pr_fds (fst k) fd of None \<Rightarrow> (None, k) | Some obj \<Rightarrow> ref_fresh obj k)"

lemma ref_sys_documented: "sys_documented ref_paths ref_sys fst"
proof -
  have "case (c, r) of
           (CloseFd fd, _) \<Rightarrow> fst k' = (fst k)\<lparr>pr_fds := (pr_fds (fst k))(fd := None)\<rparr>
         | (_, None) \<Rightarrow> fst k' = fst k
         | (OpenFile path, Some fd) \<Rightarrow> pr_fds (fst k) fd = None \<and>
             fst k' = (fst k)\<lparr>pr_fds := (pr_fds (fst k))(fd \<mapsto> NsFile (opened_ns ref_paths path (fst k)))\<rparr>
         | (SocketUDP, Some fd) \<Rightarrow> pr_fds (fst k) fd = None \<and>
             fst k' = (fst k)\<lparr>pr_fds := (pr_fds (fst k))(fd \<mapsto> Socket (pr_ns (fst k)))\<rparr>
         | (FilePacketConn fd, Some conn) \<Rightarrow> pr_fds (fst k) conn = None \<and>
             fst k' = (fst k)\<lparr>pr_fds := (pr_fds (fst k))(conn := pr_fds (fst k) fd)\<rparr>
         | (Setns fd, Some _) \<Rightarrow> (\<exists>n. pr_fds (fst k) fd = Some (NsFile n) \<and> fst k' = (fst k)\<lparr>pr_ns := n\<rparr>)
         | _ \<Rightarrow> fst k' = fst k" if "ref_sys c k = (r, k')" for c k r k'
    using that by (cases c) (auto simp: ref_fresh_def split: if_splits option.splits fd_object.splits)
  then show ?thesis unfolding sys_documented_def by blast
qed

definition ref_start :: "process \<times> int" where
  "ref_start = (\<lparr>pr_fds = Map.empty, pr_ns = 0\<rparr>, 3)"

theorem transport_leaks_nothing_witness:
  "pr_ns (fst (snd (New_conns ref_sys ''ethernet-1/1'' [10, 0, 0, 1] ref_start))) = 0 \<and>
   (\<exists>linkID c. fst (New_conns ref_sys ''ethernet-1/1'' [10, 0, 0, 1] ref_start) = Inr (linkID, c))"
proof -
  obtain r k' where run: "New_conns ref_sys ''ethernet-1/1'' [10, 0, 0, 1] ref_start = (r, k')"
    by (cases "New_conns ref_sys ''ethernet-1/1'' [10, 0, 0, 1] ref_start")
  have "returns_to ref_sys fst n" for n by (simp add: returns_to_def)
  with transport_leaks_nothing [OF ref_sys_documented run, of "''e1-1.0''"] have "pr_ns (fst k') = 0" by (simp add: ref_start_def)
  moreover have "LinuxInterfaceNames ''ethernet-1/1'' = (''e1-1'', ''e1-1.0'')" by code_simp
  then have "\<exists>linkID c. fst (New_conns ref_sys ''ethernet-1/1'' [10, 0, 0, 1] ref_start) = Inr (linkID, c)"
    by (simp add: New_conns_def getIfIndexInNS_def createMcastRecvSocket_def createMcastSendSocket_def in_netns_def
        open_socket_def wrap_conn_def try_call_def close_def ref_start_def ref_fresh_def opened_ns_def ref_paths_def Let_def)
  ultimately show ?thesis using run by simp
qed

end
