(* ===== verification/Transport_Netns.thy ===== *)
theory Transport_Netns
  imports Transport_Sockets
begin

text \<open>
  Looking up interfaces and addresses, \<open>src/internal/transport/udp.go\<close>, with the namespaces it is done in. What
  the net package reports of the interfaces is \<open>net\<close>, which depends on the state of the kernel. The agent's model
  has one fixed answer, the parameter \<open>lx\<close> of \<open>Transport\<close>; here it is shown to be the view from the
  namespace \<open>srbase-default\<close>, whatever namespace the calling thread is in.
\<close>

section \<open>Discovery\<close>

text \<open>
  An error of a system call is \<open>Inl\<close>; an error of the net package after it, or that there is no IPv4 address, is
  \<open>Inr None\<close>.
\<close>

definition DiscoverInterfacePrefix_ns ::
  "'k kernel \<Rightarrow> ('k \<Rightarrow> linux) \<Rightarrow> string \<Rightarrow> 'k \<Rightarrow> (syscall + (Addr \<times> nat) option) \<times> 'k" where
  "DiscoverInterfacePrefix_ns sys net ifName =
     in_netns sys default_ns (\<lambda>k.
       case try_call sys (InterfaceByName ifName) k of
         (Inl err, k) \<Rightarrow> (Inl err, k)
       | (Inr _, k) \<Rightarrow> (Inr (DiscoverInterfacePrefix (net k) ifName), k))"

definition DiscoverInterfaceAddr_ns ::
  "'k kernel \<Rightarrow> ('k \<Rightarrow> linux) \<Rightarrow> string \<Rightarrow> 'k \<Rightarrow> (syscall + Addr option) \<times> 'k" where
  "DiscoverInterfaceAddr_ns sys net ifName =
     in_netns sys default_ns (\<lambda>k.
       case try_call sys (InterfaceByName ifName) k of
         (Inl err, k) \<Rightarrow> (Inl err, k)
       | (Inr _, k) \<Rightarrow> (Inr (DiscoverInterfaceAddr (net k) ifName), k))"

definition DiscoverAllPrefixes_ns ::
  "'k kernel \<Rightarrow> ('k \<Rightarrow> linux) \<Rightarrow> 'k \<Rightarrow> (syscall + (string, Addr \<times> nat) gomap option) \<times> 'k" where
  "DiscoverAllPrefixes_ns sys net = in_netns sys default_ns (\<lambda>k. (Inr (DiscoverAllPrefixes (net k)), k))"

text \<open>
  The lookups are answered from the namespace of the thread: \<open>shown\<close> is what each namespace has, idealised as
  fixed in time.
\<close>

definition shows_netns :: "'k kernel \<Rightarrow> ('k \<Rightarrow> linux) \<Rightarrow> ('k \<Rightarrow> process) \<Rightarrow> (nat \<Rightarrow> linux) \<Rightarrow> bool" where
  "shows_netns sys net view shown \<longleftrightarrow>
     (\<forall>k. net k = shown (pr_ns (view k))) \<and>
     (\<forall>name k i. fst (sys (InterfaceByName name) k) = Some i \<longrightarrow> lx_ifindex (shown (pr_ns (view k))) name = Some i)"

section \<open>The namespace of a lookup\<close>

lemma in_netns_runs:
  assumes doc: "sys_documented paths sys view" and path: "nsPath \<noteq> self_ns" and run: "in_netns sys nsPath body k = (Inr v, k')"
  obtains k1 k2 where "pr_ns (view k1) = paths nsPath" and "body k1 = (Inr v, k2)"
proof -
  obtain orig k1 where t1: "try_call sys (OpenFile self_ns) k = (Inr orig, k1)"
    using run by (auto simp: in_netns_def split: prod.splits sum.splits)
  obtain target k2 where t2: "try_call sys (OpenFile nsPath) k1 = (Inr target, k2)"
    using run t1 by (auto simp: in_netns_def split: prod.splits sum.splits)
  obtain z k3 where t3: "try_call sys (Setns target) k2 = (Inr z, k3)"
    using run t1 t2 by (auto simp: in_netns_def split: prod.splits sum.splits)
  obtain k4 where b: "body k3 = (Inr v, k4)"
    using run t1 t2 t3 by (auto simp: in_netns_def Let_def split: prod.splits)
  have "sys (OpenFile nsPath) k1 = (Some target, k2)" "sys (Setns target) k2 = (Some z, k3)"
    using t2 t3 by (auto elim: try_callE)
  with sys_ok(1) [OF doc this(1) refl] sys_ok(4) [OF doc this(2) refl] path
  have "pr_ns (view k3) = paths nsPath" by (auto simp: opened_ns_def)
  with that b show thesis by blast
qed

lemma lookup_runs:
  assumes doc: "sys_documented paths sys view" and net: "shows_netns sys net view shown"
    and run: "in_netns sys default_ns (\<lambda>k. case try_call sys (InterfaceByName ifName) k of
         (Inl err, k) \<Rightarrow> (Inl err, k) | (Inr _, k) \<Rightarrow> (Inr (f (net k)), k)) k = (Inr v, k')"
  shows "v = f (shown (paths default_ns))"
proof -
  obtain k1 k2 where k1: "pr_ns (view k1) = paths default_ns"
    and b: "(case try_call sys (InterfaceByName ifName) k1 of
       (Inl err, k) \<Rightarrow> (Inl err, k) | (Inr _, k) \<Rightarrow> (Inr (f (net k)), k)) = (Inr v, k2)"
    using in_netns_runs [OF doc ns_paths(2) run] .
  obtain r k3 where t: "try_call sys (InterfaceByName ifName) k1 = (r, k3)" by (cases "try_call sys (InterfaceByName ifName) k1")
  then have "v = f (net k3)" using b by (cases r) auto
  moreover have "view k3 = view k1" using try_quiet [OF doc _ t] by simp
  ultimately show ?thesis using net k1 by (simp add: shows_netns_def)
qed

lemma ifindex_runs:
  assumes doc: "sys_documented paths sys view" and net: "shows_netns sys net view shown"
    and run: "getIfIndexInNS sys ifName default_ns k = (Inr i, k')"
  shows "lx_ifindex (shown (paths default_ns)) ifName = Some i"
proof -
  obtain k1 k2 where "pr_ns (view k1) = paths default_ns" and "try_call sys (InterfaceByName ifName) k1 = (Inr i, k2)"
    using in_netns_runs [OF doc ns_paths(2) run [unfolded getIfIndexInNS_def]] .
  with net show ?thesis unfolding shows_netns_def by (metis fst_conv sum.inject(2) sum.distinct(1) try_callE)
qed

lemma pure_body: "body_ok view (\<lambda>_. []) (\<lambda>k. (Inr (f k), k))"
  by (auto simp: body_ok_def leaves_def)

lemma discover_leaves:
  assumes doc: "sys_documented paths sys view"
  shows "DiscoverInterfacePrefix_ns sys net ifName k = (r1, k') \<Longrightarrow>
      leaves (\<lambda>_. []) (paths default_ns) (returns_to sys view (pr_ns (view k))) (view k) r1 (view k')"
    and "DiscoverInterfaceAddr_ns sys net ifName k = (r2, k') \<Longrightarrow>
      leaves (\<lambda>_. []) (paths default_ns) (returns_to sys view (pr_ns (view k))) (view k) r2 (view k')"
    and "DiscoverAllPrefixes_ns sys net k = (r3, k') \<Longrightarrow>
      leaves (\<lambda>_. []) (paths default_ns) (returns_to sys view (pr_ns (view k))) (view k) r3 (view k')"
  unfolding DiscoverInterfacePrefix_ns_def DiscoverInterfaceAddr_ns_def DiscoverAllPrefixes_ns_def
  by (erule in_netns_leaves [OF doc _ _, rotated 2];
      (rule lookup_then_body [OF doc _ pure_body] pure_body | simp)+)+

section \<open>Properties\<close>

text \<open>
  C21 \<^bold>\<open>Interfaces are looked up in srbase-default.\<close> Whatever namespace the thread is in and whichever system
  calls fail: looking up the address of an interface and all prefixes leaves the descriptors as they were, and a lookup
  that succeeds finds what \<open>srbase-default\<close> shows. If the sockets of the interface can be made, the transport is the
  one that \<open>transport_New\<close> makes from this view, with the index the interface has there, and the flood socket
  closed. The thread is back in its namespace, unless the call that switches back fails. So the model of
  the agent, over one fixed view of the kernel, is what the system calls achieve.
\<close>

theorem lookups_in_default_netns:
  assumes doc: "sys_documented paths sys view" and net: "shows_netns sys net view shown"
    and names: "LinuxInterfaceNames srlName = (parent, sub)"
    and addr: "DiscoverInterfaceAddr_ns sys net sub k = (found, k1)"
    and new: "New_conns sys srlName (bytes4 w) k1 = (made, k2)"
    and all: "DiscoverAllPrefixes_ns sys net k2 = (prefixes, k3)"
  shows "let lx = shown (paths default_ns)
    in pr_fds (view k1) = pr_fds (view k) \<and> pr_fds (view k3) = pr_fds (view k2) \<and>
       (returns_to sys view (pr_ns (view k)) \<longrightarrow> pr_ns (view k3) = pr_ns (view k)) \<and>
       (\<forall>a. found = Inr a \<longrightarrow> a = DiscoverInterfaceAddr lx sub) \<and>
       (\<forall>linkID c. made = Inr (linkID, c) \<longrightarrow>
          transport_New (lx\<lparr>lx_recv := \<lambda>_. True, lx_send := \<lambda>_ _. True\<rparr>) srlName (Addr4 w) =
            Some \<lparr>tr_ifName = srlName, tr_parent = parent, tr_sub = sub, tr_localAddr = Addr4 w,
              tr_linkID = word_of_int linkID, tr_floodConn = co_floodConn c \<noteq> None\<rparr>) \<and>
       (\<forall>m. prefixes = Inr m \<longrightarrow> m = DiscoverAllPrefixes lx)"
proof -
  note left = leaves_none [OF discover_leaves(2) [OF doc addr]] leaves_none [OF discover_leaves(3) [OF doc all]]
  have ns: "returns_to sys view (pr_ns (view k)) \<longrightarrow> pr_ns (view k3) = pr_ns (view k)"
    using left(2,4) New_conns_holds(2) [OF doc new] by simp
  have found: "a = DiscoverInterfaceAddr (shown (paths default_ns)) sub" if "found = Inr a" for a
    using lookup_runs [OF doc net addr [unfolded DiscoverInterfaceAddr_ns_def that]] .
  have prefixes: "m = DiscoverAllPrefixes (shown (paths default_ns))" if "prefixes = Inr m" for m
    using in_netns_runs [OF doc ns_paths(2) all [unfolded DiscoverAllPrefixes_ns_def that]] net
    by (auto simp: shows_netns_def)
  have index: "lx_ifindex (shown (paths default_ns)) sub = Some linkID" if "made = Inr (linkID, c)" for linkID c
  proof -
    have "getIfIndexInNS sys sub default_ns k1 = (Inr linkID, snd (getIfIndexInNS sys sub default_ns k1))"
      using new that by (auto simp: New_conns_def names split: prod.splits sum.splits)
    from ifindex_runs [OF doc net this] show ?thesis .
  qed
  have closed: "co_floodConn c = None" if "made = Inr (linkID, c)" for linkID c
    using New_conns_holds(1) [OF doc new] that by simp
  show ?thesis
    using left(1,3) ns found prefixes index closed by (auto simp: transport_New_def names Let_def)
qed

text \<open>A kernel that never fails, with one interface in \<open>srbase-default\<close>.\<close>

definition ref_shown :: "nat \<Rightarrow> linux" where
  "ref_shown ns = \<lparr>lx_addrs = (\<lambda>_. Some (if ns = 2 then [''10.0.0.1/31''] else [])), lx_interfaces = Some [(''e1-1.0'', False)],
     lx_ifindex = (\<lambda>_. Some 5), lx_recv = (\<lambda>_. True), lx_send = (\<lambda>_ _. True), lx_flood = (\<lambda>_ _. True)\<rparr>"

theorem lookups_in_default_netns_witness:
  "\<exists>k1 k2 c. DiscoverInterfaceAddr_ns ref_sys (\<lambda>k. ref_shown (pr_ns (fst k))) ''e1-1.0'' ref_start = (Inr (Some (Addr4 0x0A000001)), k1) \<and>
     New_conns ref_sys ''ethernet-1/1'' [10, 0, 0, 1] k1 = (Inr (5, c), k2) \<and> pr_ns (fst k1) = 0 \<and>
     transport_New (ref_shown 2) ''ethernet-1/1'' (Addr4 0x0A000001) =
       Some \<lparr>tr_ifName = ''ethernet-1/1'', tr_parent = ''e1-1'', tr_sub = ''e1-1.0'', tr_localAddr = Addr4 0x0A000001,
         tr_linkID = 5, tr_floodConn = False\<rparr>"
proof -
  let ?net = "\<lambda>k :: process \<times> int. ref_shown (pr_ns (fst k))"
  have names: "LinuxInterfaceNames ''ethernet-1/1'' = (''e1-1'', ''e1-1.0'')" by code_simp
  have bytes: "bytes4 (0x0A000001 :: 32 word) = [10, 0, 0, 1]" by code_simp
  have net: "shows_netns ref_sys ?net fst ref_shown" by (simp add: shows_netns_def ref_shown_def)
  obtain r1 k1 where 1: "DiscoverInterfaceAddr_ns ref_sys ?net ''e1-1.0'' ref_start = (r1, k1)"
    by (cases "DiscoverInterfaceAddr_ns ref_sys ?net ''e1-1.0'' ref_start")
  obtain r2 k2 where 2: "New_conns ref_sys ''ethernet-1/1'' [10, 0, 0, 1] k1 = (r2, k2)"
    by (cases "New_conns ref_sys ''ethernet-1/1'' [10, 0, 0, 1] k1")
  obtain r3 k3 where 3: "DiscoverAllPrefixes_ns ref_sys ?net k2 = (r3, k3)"
    by (cases "DiscoverAllPrefixes_ns ref_sys ?net k2")
  note it = lookups_in_default_netns [OF ref_sys_documented net names 1 2 [folded bytes] 3]
  note run = in_netns_def try_call_def close_def ref_start_def ref_fresh_def opened_ns_def ref_paths_def Let_def
  have r1: "\<exists>a. r1 = Inr a" "pr_ns (fst k1) = 0" and k1: "k1 = (\<lparr>pr_fds = Map.empty, pr_ns = 0\<rparr>, 5)"
    using 1 by (auto simp: DiscoverInterfaceAddr_ns_def run)
  have r2: "\<exists>c. r2 = Inr (5, c) \<and> co_floodConn c = None"
    using 2 by (auto simp: k1 New_conns_def names getIfIndexInNS_def createMcastRecvSocket_def createMcastSendSocket_def
        open_socket_def wrap_conn_def run)
  have addr: "DiscoverInterfaceAddr (ref_shown 2) ''e1-1.0'' = Some (Addr4 0x0A000001)" by code_simp
  have "ref_shown 2\<lparr>lx_recv := \<lambda>_. True, lx_send := \<lambda>_ _. True\<rparr> = ref_shown 2" "ref_paths default_ns = 2"
    by (simp_all add: ref_shown_def ref_paths_def)
  with it r1 r2 1 2 addr show ?thesis by (auto simp: Let_def)
qed

end
