(* ===== verification/Transport_Props.thy ===== *)
theory Transport_Props
  imports Transport Tie_Sync
begin

text \<open>
  The sizes of what the flood engine gives to the transport: how long a TIDE packet is as a datagram, and that
  the receive buffer of the other side holds it.
\<close>

section \<open>Lengths of the encodings\<close>

named_theorems enc_len

lemma be_bytes_len [enc_len]: "length (be_bytes n w) = n"
  by (simp add: be_bytes_def)

lemma write_len [enc_len]:
  "length (writeByte b) = 1" "length (writeI16 i) = 2" "length (writeI32 j) = 4" "length (writeI64 k) = 8"
  "length (writeFieldHeader ft fid) = 3" "length writeFieldStop = 1"
  by (simp_all add: writeByte_def writeI16_def writeI32_def writeI64_def writeFieldHeader_def
      writeFieldStop_def enc_len)

lemma opt_field_len [enc_len]:
  "length (opt_field ft fid enc v) = (case v of None \<Rightarrow> 0 | Some x \<Rightarrow> 3 + length (enc x))"
  by (simp add: opt_field_def enc_len split: option.split)

lemma encodeTIEID_len [enc_len]: "length (encodeTIEID tid) = 33"
  by (simp add: encodeTIEID_def enc_len)

lemma header_len:
  "59 \<le> length (encodeTIEHeaderWithLifeTimeInline h) \<and> length (encodeTIEHeaderWithLifeTimeInline h) \<le> 88"
  by (simp add: encodeTIEHeaderWithLifeTimeInline_def encodeTIEHeader_def encodeIEEE802_1ASTimestamp_def
      enc_len split: option.split)

lemma concat_len:
  assumes "\<And>x. x \<in> set xs \<Longrightarrow> lo \<le> length (f x) \<and> length (f x) \<le> hi"
  shows "lo * length xs \<le> length (concat (map f xs)) \<and> length (concat (map f xs)) \<le> hi * length xs"
  using assms
proof (induction xs)
  case (Cons x xs)
  from Cons.IH Cons.prems Cons.prems [of x] show ?case by (fastforce intro: add_mono)
qed simp

lemma encodeTIDEPacket_len:
  "81 + 59 * length (tide_Headers tide) \<le> length (encodeTIDEPacket tide) \<and>
   length (encodeTIDEPacket tide) \<le> 81 + 88 * length (tide_Headers tide)"
  using concat_len [of "tide_Headers tide" 59 encodeTIEHeaderWithLifeTimeInline 88, OF header_len]
  by (simp add: encodeTIDEPacket_def writeList_def enc_len)

lemma EncodeEnvelope_len:
  "length (EncodeEnvelope (zero_SecurityEnvelope\<lparr>se_RemainingLifetime := lt, se_Payload := bs\<rparr>)) = 16 + length bs"
  by (simp add: EncodeEnvelope_def zero_SecurityEnvelope_def origin_bytes_def enc_len)

section \<open>Addresses\<close>

lemma word_of_bytes4: "word_of_bytes (bytes4 (w :: 32 word)) = w"
proof (rule bit_word_eqI)
  fix n
  assume "n < LENGTH(32)"
  then have "n < 32" by simp
  then consider "n < 8" | "8 \<le> n" "n < 16" | "16 \<le> n" "n < 24" | "24 \<le> n" "n < 32" by linarith
  then show "bit (word_of_bytes (bytes4 w) :: 32 word) n = bit w n"
    by cases (auto simp: word_of_bytes_def bytes4_def bit_simps)
qed

lemma extractAddr_AsSlice [simp]: "extractAddr (AsSlice (Addr4 w)) = Some (Addr4 w)"
proof -
  have "length (bytes4 w) = 4" by (simp add: bytes4_def)
  then show ?thesis by (simp add: extractAddr_def AsSlice_def word_of_bytes4 Unmap_def)
qed

section \<open>TIDE packets as datagrams\<close>

text \<open>
  C27 \<^bold>\<open>How large a TIDE datagram is.\<close> Every packet \<open>buildTIDEChunks\<close> makes, of whatever headers, is accepted
  by \<open>SendFlood\<close>. With \<open>n\<close> headers (at most 25) the datagram has between \<open>133 + 59 n\<close> and \<open>133 + 88 n\<close>
  bytes: it always fits the receive buffer of 9000 bytes, and a flood socket on another address that receives
  it hands on the packet unchanged with the sender's address. With more than 21 headers it is longer
  than the 1400 bytes that \<open>MaxTIDEHeaders\<close> is documented to stay within.
\<close>

theorem tide_fits_datagram:
  fixes fe :: FloodEngine
  assumes "tide \<in> set (buildTIDEChunks hs)"
    and "tr_floodConn t" and "tr_floodConn t'" and "Addr4 w \<noteq> tr_localAddr t'"
  defines "pkt \<equiv> \<lparr>pp_Header = packet_header fe, pp_Content = zero_PacketContent\<lparr>pc_TIDE := Some tide\<rparr>\<rparr>"
    and "n \<equiv> length (tide_Headers tide)"
  shows "\<exists>data. SendFlood pkt dest port lt t = Inr (AsSlice dest, port, data) \<and>
    n \<le> MaxTIDEHeaders \<and> 133 + 59 * n \<le> length data \<and> length data \<le> 133 + 88 * n \<and>
    length data \<le> recvBufSize \<and> (21 < n \<longrightarrow> 1400 < length data) \<and>
    FloodRecvLoop t' (AsSlice (Addr4 w)) data =
      Some \<lparr>rp_Packet = pkt, rp_SrcAddr = Addr4 w, rp_IfName = tr_ifName t'\<rparr>"
proof -
  have n: "n \<le> MaxTIDEHeaders"
    using assms(1) build_chunks_sizes by (auto simp: n_def buildTIDEChunks_def split: if_splits)
  then have "wf_ProtocolPacket pkt"
    by (simp add: pkt_def n_def wf_ProtocolPacket_def wf_TIDEPacket_def zero_PacketContent_def)
  moreover have "canon_ProtocolPacket pkt = pkt"
    by (simp add: pkt_def canon_ProtocolPacket_def zero_PacketContent_def)
  ultimately obtain bs where bs: "EncodeProtocolPacket pkt = Inr bs"
    "\<And>rest. DecodeProtocolPacket (bs @ rest) = Inr (pkt, rest)"
    using ProtocolPacket_back by metis
  let ?data = "EncodeEnvelope (zero_SecurityEnvelope\<lparr>se_RemainingLifetime := lt, se_Payload := bs\<rparr>)"
  have "length bs = 36 + length (encodeTIDEPacket tide)"
    using bs(1) by (simp add: pkt_def EncodeProtocolPacket_def encodePacketContent_def encodePacketHeader_def
        packet_header_def zero_PacketContent_def enc_len) (auto simp: enc_len)
  with encodeTIDEPacket_len [of tide]
  have len: "133 + 59 * n \<le> length ?data" "length ?data \<le> 133 + 88 * n"
    by (simp_all add: EncodeEnvelope_len n_def)
  with n have cut: "take recvBufSize ?data = ?data" by simp
  have "decodePacket ?data = Inr pkt"
    using bs(2) [of "[]"] by (simp add: decodePacket_def DecodeEnvelope_back zero_SecurityEnvelope_def origin_bytes_def)
  with bs(1) len n cut assms(2-4) show ?thesis
    by (simp add: SendFlood_def encodeFloodPacket_def FloodRecvLoop_def)
qed

theorem tide_fits_datagram_witness:
  "\<exists>data. SendFlood
     \<lparr>pp_Header = packet_header (NewFloodEngine 1 0 ''leaf'' [] 10),
      pp_Content = zero_PacketContent\<lparr>pc_TIDE := Some \<lparr>tide_StartRange = MinTIEID, tide_EndRange = MaxTIEID,
        tide_Headers = replicate 25 zero_TIEHeaderWithLifeTime\<rparr>\<rparr>\<rparr>
     (Addr4 2) 915 0 \<lparr>tr_ifName = ''e'', tr_parent = ''e'', tr_sub = ''e.0'', tr_localAddr = Addr4 1,
        tr_linkID = 1, tr_floodConn = True\<rparr> = Inr (AsSlice (Addr4 2), 915, data) \<and> 1400 < length data"
  using tide_fits_datagram [of "\<lparr>tide_StartRange = MinTIEID, tide_EndRange = MaxTIEID,
        tide_Headers = replicate 25 zero_TIEHeaderWithLifeTime\<rparr>" "replicate 25 zero_TIEHeaderWithLifeTime"
      "\<lparr>tr_ifName = ''e'', tr_parent = ''e'', tr_sub = ''e.0'', tr_localAddr = Addr4 1,
        tr_linkID = 1, tr_floodConn = True\<rparr>"
      "\<lparr>tr_ifName = ''f'', tr_parent = ''f'', tr_sub = ''f.0'', tr_localAddr = Addr4 2,
        tr_linkID = 1, tr_floodConn = True\<rparr>" 1 "NewFloodEngine 1 0 ''leaf'' [] 10" "Addr4 2" 915 0]
  by (auto simp: buildTIDEChunks_def build_chunks.simps)

end
