(* ===== verification/Config.thy ===== *)
theory Config
  imports Go_Text Rift_Types
begin

text \<open>
  The configuration, \<open>src/internal/config/config.go\<close>: the notification data and paths that the agent
  receives, parsed into a \<open>Config\<close>. Decoding the JSON text into its three optional fields
  (\<open>json.Unmarshal\<close>) is the parameter \<open>unmarshal\<close>; a panic is the result \<open>None\<close>.
\<close>

section \<open>Configurations\<close>

record Config =
  cfg_AdminState :: string
  cfg_SystemID :: SystemIDType
  cfg_Level :: LevelType
  cfg_Interfaces :: "string goset"

record riftJSON =
  rj_AdminState :: "string option"
  rj_SystemID :: "string option"
  rj_Level :: "int8 option"

datatype config_error = ErrUnmarshal | ErrSystemID string

section \<open>Parsing\<close>

text \<open>
  \<open>fmt.Sscanf(s, "%d", &id)\<close> into an unsigned 64-bit variable: leading blanks are skipped, a line break
  among them is an error; the digits that follow are the number, whatever stands behind them. Blanks are
  those of ASCII.
\<close>

fun SkipSpace :: "string \<Rightarrow> string option" where
  "SkipSpace [] = Some []"
| "SkipSpace (c # cs) =
     (let n = (of_char c :: nat)
      in if n = 10 then None else if n = 32 \<or> 9 \<le> n \<and> n \<le> 13 then SkipSpace cs else Some (c # cs))"

definition Sscanf_u64 :: "string \<Rightarrow> 64 word option" where
  "Sscanf_u64 s =
     (case SkipSpace s of
        None \<Rightarrow> None
      | Some rest \<Rightarrow>
          let tok = takeWhile is_digit rest
          in if tok = [] \<or> 2 ^ 64 \<le> dec_val tok then None else Some (of_nat (dec_val tok)))"

definition ParseRiftData :: "(string \<Rightarrow> riftJSON option) \<Rightarrow> string \<Rightarrow> config_error + Config" where
  "ParseRiftData unmarshal data =
     (case unmarshal data of
        None \<Rightarrow> Inl ErrUnmarshal
      | Some raw \<Rightarrow>
          let cfg = \<lparr>cfg_AdminState = ''enable'', cfg_SystemID = 0, cfg_Level = 0, cfg_Interfaces = []\<rparr>;
              cfg = (case rj_AdminState raw of None \<Rightarrow> cfg | Some a \<Rightarrow> cfg\<lparr>cfg_AdminState := a\<rparr>)
          in rbind
               (case rj_SystemID raw of
                  None \<Rightarrow> Inr cfg
                | Some s \<Rightarrow>
                    (case Sscanf_u64 s of
                       None \<Rightarrow> Inl (ErrSystemID s)
                     | Some sysid \<Rightarrow> Inr (cfg\<lparr>cfg_SystemID := sysid\<rparr>)))
               (\<lambda>cfg. Inr (case rj_Level raw of None \<Rightarrow> cfg | Some l \<Rightarrow> cfg\<lparr>cfg_Level := l\<rparr>)))"

abbreviation (input) iface_prefix :: string where
  "iface_prefix \<equiv> ''.rift.interface{.name=='' @ [CHR 0x22]"

abbreviation (input) iface_suffix :: string where
  "iface_suffix \<equiv> CHR 0x22 # ''}''"

text \<open>\<open>strings.HasPrefix\<close>, \<open>strings.HasSuffix\<close> and the slice \<open>s[i:j]\<close>, which panics when \<open>j < i\<close>.\<close>

definition HasPrefix :: "string \<Rightarrow> string \<Rightarrow> bool" where
  "HasPrefix s p \<longleftrightarrow> take (length p) s = p"

definition HasSuffix :: "string \<Rightarrow> string \<Rightarrow> bool" where
  "HasSuffix s p \<longleftrightarrow> length p \<le> length s \<and> drop (length s - length p) s = p"

definition slice :: "nat \<Rightarrow> nat \<Rightarrow> string \<Rightarrow> string option" where
  "slice i j s = (if i \<le> j \<and> j \<le> length s then Some (take (j - i) (drop i s)) else None)"

definition ExtractInterfaceName :: "string \<Rightarrow> (string \<times> bool) option" where
  "ExtractInterfaceName pathWithKeys =
     (if \<not> HasPrefix pathWithKeys iface_prefix \<or> \<not> HasSuffix pathWithKeys iface_suffix then Some ([], False)
      else case slice (length iface_prefix) (length pathWithKeys - length iface_suffix) pathWithKeys of
          None \<Rightarrow> None
        | Some name \<Rightarrow> Some (name, True))"

definition Valid :: "Config \<Rightarrow> bool" where
  "Valid c \<longleftrightarrow> cfg_SystemID c \<noteq> 0 \<and> length (cfg_Interfaces c) > 0"

definition HasInterface :: "string \<Rightarrow> Config \<Rightarrow> bool" where
  "HasInterface name c \<longleftrightarrow> name \<in> set (cfg_Interfaces c)"

section \<open>Interface names\<close>

lemma HasPrefix_append: "HasPrefix s p \<longleftrightarrow> (\<exists>r. s = p @ r)"
  unfolding HasPrefix_def by (metis append_eq_conv_conj append_take_drop_id)

lemma HasSuffix_append: "HasSuffix s p \<longleftrightarrow> (\<exists>r. s = r @ p)"
proof
  assume "HasSuffix s p"
  then have "s = take (length s - length p) s @ p"
    unfolding HasSuffix_def by (metis append_take_drop_id)
  then show "\<exists>r. s = r @ p" by blast
qed (auto simp: HasSuffix_def)

lemma append_overlap: "p @ r = r' @ q \<Longrightarrow> length q \<le> length r \<Longrightarrow> \<exists>m. r = m @ q"
  by (auto simp: append_eq_append_conv2)

lemma slice_middle: "slice (length p) (length (p @ m @ q) - length q) (p @ m @ q) = Some m"
  by (simp add: slice_def)

text \<open>
  A path with the key of an interface in quotes gives the name back, and a name is only ever read from such a path;
  the path whose opening quote is also its closing quote, and no other, makes the function panic.
\<close>

lemma ExtractInterfaceName_iff:
  "(ExtractInterfaceName s = Some (name, True) \<longleftrightarrow> s = ''.rift.interface{.name=='' @ [CHR 0x22] @ name @ CHR 0x22 # ''}'') \<and>
   (ExtractInterfaceName s = None \<longleftrightarrow> s = ''.rift.interface{.name=='' @ CHR 0x22 # ''}'')"
proof (cases "HasPrefix s iface_prefix \<and> HasSuffix s iface_suffix")
  case False
  then have "s \<noteq> iface_prefix @ name @ iface_suffix" "s \<noteq> ''.rift.interface{.name=='' @ iface_suffix"
    unfolding HasPrefix_append HasSuffix_append by auto
  with False show ?thesis by (auto simp: ExtractInterfaceName_def)
next
  case True
  then obtain r r' where r: "s = iface_prefix @ r" and r': "s = r' @ iface_suffix"
    unfolding HasPrefix_append HasSuffix_append by blast
  show ?thesis
  proof (cases "length r \<ge> 2")
    case True
    obtain m where "r = m @ iface_suffix" using append_overlap [of iface_prefix r r' iface_suffix] r r' True by auto
    then have s: "s = iface_prefix @ m @ iface_suffix" using r by simp
    have "ExtractInterfaceName s = Some (m, True)"
      using \<open>HasPrefix s iface_prefix \<and> HasSuffix s iface_suffix\<close>
      unfolding ExtractInterfaceName_def s slice_middle by simp
    then show ?thesis using s by auto
  next
    case False
    have "length r > 0" using r r' by (cases r) auto
    with False obtain c where c: "r = [c]" by (cases r) (auto simp: not_le less_Suc_eq_le)
    then have "s = ''.rift.interface{.name=='' @ iface_suffix" using r r' by simp
    moreover from this have "ExtractInterfaceName s = None"
      using \<open>HasPrefix s iface_prefix \<and> HasSuffix s iface_suffix\<close> by (simp add: ExtractInterfaceName_def slice_def)
    ultimately show ?thesis by auto
  qed
qed

text \<open>What a parsed configuration holds.\<close>

lemma ParseRiftData_interfaces: "ParseRiftData unmarshal data = Inr cfg \<Longrightarrow> cfg_Interfaces cfg = []"
  by (auto simp: ParseRiftData_def Let_def rbind_eq_Inr split: option.splits if_splits)

text \<open>Decimal texts of 64-bit numbers are read back.\<close>

lemma Sscanf_dec: "n < 2 ^ 64 \<Longrightarrow> Sscanf_u64 (dec n) = Some (of_nat n)"
proof -
  assume n: "n < 2 ^ 64"
  obtain c cs where c: "dec n = c # cs" using dec_nonempty by (cases "dec n") auto
  then have "is_digit c" using dec_digits [of n] by simp
  then have "SkipSpace (dec n) = Some (dec n)" by (simp add: c is_digit_def Let_def)
  moreover have tw: "takeWhile is_digit (dec n) = dec n" unfolding takeWhile_eq_all_conv by (rule dec_digits)
  ultimately show ?thesis using n by (simp add: Sscanf_u64_def Let_def not_le tw del: takeWhile_eq_all_conv)
qed

end
