(* ===== verification/Spf_Rib.thy ===== *)
theory Spf_Rib
  imports Tie_LSDB Go_Text
begin

text \<open>
  Routes and the routing information base, \<open>src/internal/spf/types.go\<close> and \<open>helpers.go\<close>: the
  lookups of TIEs in a snapshot of the database, the text of a prefix and back, the merging of next
  hops, and the installation of a route (\<open>addRoute\<close>).

  A \<open>RIB\<close> maps prefixes to pointers; a route is a value here. The one write through such a pointer
  (\<open>existing.NextHops = ...\<close> in \<open>addRoute\<close>) happens on a route that only this RIB holds: the
  two RIBs that share routes in \<open>Engine.Run\<close> differ in the route type there, and a merge needs
  equal types.
\<close>

unbundle bit_operations_syntax

section \<open>Next hops, routes\<close>

record NextHop =
  nh_NeighborID :: SystemIDType
  nh_Address :: Addr
  nh_Interface :: string

record Route =
  rt_Prefix :: string
  rt_Metric :: MetricType
  rt_RouteType :: RouteType
  rt_NextHops :: "NextHop list"

type_synonym RIB = "(string, Route) gomap"

section \<open>Lookups\<close>

text \<open>\<open>byte(addr >> n)\<close> of a signed address.\<close>

definition addr_byte :: "IPv4Address \<Rightarrow> nat \<Rightarrow> byte" where
  "addr_byte addr n = ucast (signed_drop_bit n addr)"

definition PrefixToString :: "IPPrefixType \<Rightarrow> string" where
  "PrefixToString p =
     (case ip_IPv4Prefix p of
        Some p4 \<Rightarrow>
          addr_text (addr_byte (p4_Address p4) 24) (addr_byte (p4_Address p4) 16)
            (addr_byte (p4_Address p4) 8) (addr_byte (p4_Address p4) 0) @ ''/'' @ fmt_d (sint (p4_PrefixLen p4))
      | None \<Rightarrow> '''')"

definition LinkCost :: "NodeNeighborsTIEElement \<Rightarrow> MetricType" where
  "LinkCost n = (case nn_Cost n of Some c \<Rightarrow> c | None \<Rightarrow> DefaultDistance)"

definition FindNodeTIE ::
  "(TIEID, LSDBEntry) gomap \<Rightarrow> TieDirectionType \<Rightarrow> SystemIDType \<Rightarrow> NodeTIEElement option" where
  "FindNodeTIE entries dir originator =
     (case gm_get entries (TIEID dir originator TIETypeNodeTIEType 1) of
        None \<Rightarrow> None
      | Some entry \<Rightarrow> el_Node (tie_Element (le_Packet entry)))"

text \<open>The two scans of the database for prefix elements; the order is that of the map.\<close>

definition FindPrefixTIEs ::
  "(TIEID, LSDBEntry) gomap \<Rightarrow> TieDirectionType \<Rightarrow> SystemIDType \<Rightarrow> PrefixTIEElement list" where
  "FindPrefixTIEs entries dir originator =
     fold (\<lambda>(tid, entry) result.
       if Direction tid = dir \<and> Originator tid = originator \<and> TIEType tid = TIETypePrefixTIEType then
         (case el_Prefixes (tie_Element (le_Packet entry)) of None \<Rightarrow> result | Some e \<Rightarrow> result @ [e])
       else result) entries []"

definition FindPositiveDisaggPrefixTIEs ::
  "(TIEID, LSDBEntry) gomap \<Rightarrow> TieDirectionType \<Rightarrow> SystemIDType \<Rightarrow> PrefixTIEElement list" where
  "FindPositiveDisaggPrefixTIEs entries dir originator =
     fold (\<lambda>(tid, entry) result.
       if Direction tid = dir \<and> Originator tid = originator \<and>
          TIEType tid = TIETypePositiveDisaggregationPrefixTIEType then
         (case el_PositiveDisaggregationPrefixes (tie_Element (le_Packet entry)) of
            None \<Rightarrow> result | Some e \<Rightarrow> result @ [e])
       else result) entries []"

definition StringToPrefix :: "string \<Rightarrow> IPPrefixType" where
  "StringToPrefix s =
     (case ParsePrefix4 s of
        Some (raw, bits) \<Rightarrow>
          zero_IPPrefix\<lparr>ip_IPv4Prefix := Some
            \<lparr>p4_Address = push_bit 24 (ucast (raw ! 0)) OR push_bit 16 (ucast (raw ! 1)) OR
                push_bit 8 (ucast (raw ! 2)) OR ucast (raw ! 3),
             p4_PrefixLen = of_nat bits\<rparr>\<rparr>
      | None \<Rightarrow> zero_IPPrefix)"

section \<open>Merging and installing\<close>

definition MergeNextHops :: "NextHop list \<Rightarrow> NextHop list \<Rightarrow> NextHop list" where
  "MergeNextHops a b =
     (let (seen, result) = fold (\<lambda>nh (seen, result). (gs_add (nh_NeighborID nh) seen, result @ [nh])) a ([], []);
          (seen, result) = fold (\<lambda>nh (seen, result).
             if nh_NeighborID nh \<notin> set seen then (gs_add (nh_NeighborID nh) seen, result @ [nh])
             else (seen, result)) b (seen, result)
      in result)"

definition addRoute :: "string \<Rightarrow> MetricType \<Rightarrow> RouteType \<Rightarrow> NextHop list \<Rightarrow> RIB \<Rightarrow> RIB" where
  "addRoute prefix metric routeType nextHops rib =
     (let route = \<lparr>rt_Prefix = prefix, rt_Metric = metric, rt_RouteType = routeType, rt_NextHops = nextHops\<rparr>
      in case gm_get rib prefix of
           None \<Rightarrow> gm_put prefix route rib
         | Some existing \<Rightarrow>
             if slt routeType (rt_RouteType existing) then gm_put prefix route rib
             else if slt (rt_RouteType existing) routeType then rib
             else if slt metric (rt_Metric existing) then gm_put prefix route rib
             else if metric = rt_Metric existing then
               gm_put prefix (existing\<lparr>rt_NextHops := MergeNextHops (rt_NextHops existing) nextHops\<rparr>) rib
             else rib)"

section \<open>The text of a prefix and back\<close>

lemma addr_byte_bits: "n \<le> 24 \<Longrightarrow> bit (addr_byte w n) k \<longleftrightarrow> k < 8 \<and> bit w (n + k)"
  by (auto simp: addr_byte_def bit_simps min_def)

lemma addr_bytes_back:
  "push_bit 24 (ucast (addr_byte w 24)) OR push_bit 16 (ucast (addr_byte w 16)) OR
   push_bit 8 (ucast (addr_byte w 8)) OR ucast (addr_byte w 0) = w" (is "?l = w")
proof (rule bit_word_eqI)
  fix k assume k: "k < LENGTH(32)"
  then consider "k < 8" | "8 \<le> k \<and> k < 16" | "16 \<le> k \<and> k < 24" | "24 \<le> k \<and> k < 32" by fastforce
  then show "bit ?l k = bit w k"
    using k by cases (auto simp: bit_simps addr_byte_bits)
qed

lemma addr_byte_inj:
  "\<lbrakk>addr_byte v 24 = addr_byte w 24; addr_byte v 16 = addr_byte w 16; addr_byte v 8 = addr_byte w 8;
    addr_byte v 0 = addr_byte w 0\<rbrakk> \<Longrightarrow> v = w"
  by (metis addr_bytes_back)

lemma StringToPrefix_text:
  "StringToPrefix (PrefixToString p) =
   (case ip_IPv4Prefix p of
      Some p4 \<Rightarrow> if 0 \<le> sint (p4_PrefixLen p4) \<and> sint (p4_PrefixLen p4) \<le> 32
        then zero_IPPrefix\<lparr>ip_IPv4Prefix := Some p4\<rparr> else zero_IPPrefix
    | None \<Rightarrow> zero_IPPrefix)"
proof (cases "ip_IPv4Prefix p")
  case None
  moreover have "ParsePrefix4 '''' = None" by (simp add: ParsePrefix4_def)
  ultimately show ?thesis by (simp add: PrefixToString_def StringToPrefix_def)
next
  case (Some p4)
  have "of_nat (nat (sint l)) = l" if "0 \<le> sint l" for l :: int8
    using that by simp
  with Some show ?thesis
    by (simp add: PrefixToString_def StringToPrefix_def ParsePrefix4_text addr_bytes_back)
qed

section \<open>Merging next hops\<close>

abbreviation nh_ids :: "NextHop list \<Rightarrow> SystemIDType set" where
  "nh_ids nhs \<equiv> nh_NeighborID ` set nhs"

text \<open>The next hops of \<open>b\<close> that are neither known nor repeated.\<close>

fun fresh_hops :: "SystemIDType set \<Rightarrow> NextHop list \<Rightarrow> NextHop list" where
  "fresh_hops seen [] = []"
| "fresh_hops seen (nh # nhs) =
     (if nh_NeighborID nh \<in> seen then fresh_hops seen nhs
      else nh # fresh_hops (insert (nh_NeighborID nh) seen) nhs)"

lemma fold_all_hops:
  "fold (\<lambda>nh (seen, result). (gs_add (nh_NeighborID nh) seen, result @ [nh])) a (seen, r) =
   (fold (\<lambda>nh. gs_add (nh_NeighborID nh)) a seen, r @ a)"
  by (induction a arbitrary: seen r) simp_all

lemma set_fold_seen: "set (fold (\<lambda>nh. gs_add (nh_NeighborID nh)) a seen) = set seen \<union> nh_ids a"
  by (induction a arbitrary: seen) auto

lemma fold_fresh_hops:
  "snd (fold (\<lambda>nh (seen, result).
     if nh_NeighborID nh \<notin> set seen then (gs_add (nh_NeighborID nh) seen, result @ [nh])
     else (seen, result)) b (seen, r)) = r @ fresh_hops (set seen) b"
  by (induction b arbitrary: seen r) simp_all

lemma MergeNextHops_eq: "MergeNextHops a b = a @ fresh_hops (nh_ids a) b"
proof -
  have "MergeNextHops a b = snd (fold (\<lambda>nh (seen, result).
     if nh_NeighborID nh \<notin> set seen then (gs_add (nh_NeighborID nh) seen, result @ [nh])
     else (seen, result)) b (fold (\<lambda>nh. gs_add (nh_NeighborID nh)) a [], a))"
    by (simp add: MergeNextHops_def fold_all_hops case_prod_beta Let_def)
  then show ?thesis by (simp add: fold_fresh_hops set_fold_seen)
qed

lemma fresh_hops_ids: "nh_ids (fresh_hops seen nhs) = nh_ids nhs - seen"
  by (induction nhs arbitrary: seen) auto

lemma fresh_hops_subset: "set (fresh_hops seen nhs) \<subseteq> set nhs"
  by (induction nhs arbitrary: seen) auto

lemma fresh_hops_distinct: "distinct (map nh_NeighborID (fresh_hops seen nhs))"
proof (induction nhs arbitrary: seen)
  case (Cons nh nhs)
  have "nh_NeighborID nh \<notin> nh_ids (fresh_hops (insert (nh_NeighborID nh) seen) nhs)"
    unfolding fresh_hops_ids by simp
  with Cons.IH show ?case by simp
qed simp

lemma nh_ids_merge [simp]: "nh_ids (MergeNextHops a b) = nh_ids a \<union> nh_ids b"
  using fresh_hops_ids [of "nh_ids a" b] by (auto simp: MergeNextHops_eq)

lemma set_merge: "set (MergeNextHops a b) \<subseteq> set a \<union> set b"
  using fresh_hops_subset by (fastforce simp: MergeNextHops_eq)

lemma distinct_merge: "distinct (map nh_NeighborID a) \<Longrightarrow> distinct (map nh_NeighborID (MergeNextHops a b))"
  using fresh_hops_distinct [of "nh_ids a" b] fresh_hops_ids [of "nh_ids a" b]
  by (auto simp: MergeNextHops_eq)

section \<open>Route selection\<close>

text \<open>
  What the computations offer to the RIB, one after the other: a prefix, a metric, a route type and
  next hops. The rank of an offer is what \<open>addRoute\<close> compares.
\<close>

type_synonym Offer = "string \<times> MetricType \<times> RouteType \<times> NextHop list"

definition addRoutes :: "Offer list \<Rightarrow> RIB \<Rightarrow> RIB" where
  "addRoutes offers rib = fold (\<lambda>(p, m, t, nhs). addRoute p m t nhs) offers rib"

definition rank_le :: "MetricType \<Rightarrow> RouteType \<Rightarrow> MetricType \<Rightarrow> RouteType \<Rightarrow> bool" where
  "rank_le m t m' t' \<longleftrightarrow> sint t < sint t' \<or> sint t = sint t' \<and> sint m \<le> sint m'"

text \<open>The route is the best of the offers for its prefix, with the next hops of all the best offers.\<close>

definition best_hops :: "Offer set \<Rightarrow> string \<Rightarrow> MetricType \<Rightarrow> RouteType \<Rightarrow> NextHop list set" where
  "best_hops offers p m t = {nhs. (p, m, t, nhs) \<in> offers}"

definition best_route :: "Offer set \<Rightarrow> string \<Rightarrow> Route \<Rightarrow> bool" where
  "best_route offers p r \<longleftrightarrow>
     rt_Prefix r = p \<and>
     best_hops offers p (rt_Metric r) (rt_RouteType r) \<noteq> {} \<and>
     (\<forall>m t nhs. (p, m, t, nhs) \<in> offers \<longrightarrow> rank_le (rt_Metric r) (rt_RouteType r) m t) \<and>
     nh_ids (rt_NextHops r) = (\<Union>nhs \<in> best_hops offers p (rt_Metric r) (rt_RouteType r). nh_ids nhs) \<and>
     set (rt_NextHops r) \<subseteq> (\<Union>nhs \<in> best_hops offers p (rt_Metric r) (rt_RouteType r). set nhs)"

lemma best_hops_insert:
  "best_hops (insert (q, m, t, nhs) offers) p m' t' =
   (if p = q \<and> m' = m \<and> t' = t then insert nhs (best_hops offers p m' t') else best_hops offers p m' t')"
  by (auto simp: best_hops_def)

lemma best_route_offered: "best_route offers p r \<Longrightarrow> \<exists>nhs. (p, rt_Metric r, rt_RouteType r, nhs) \<in> offers"
  by (auto simp: best_route_def best_hops_def)

lemma best_route_le:
  "best_route offers p r \<Longrightarrow> (p, m, t, nhs) \<in> offers \<Longrightarrow> rank_le (rt_Metric r) (rt_RouteType r) m t"
  by (auto simp: best_route_def)

lemma best_route_hop:
  assumes "best_route offers p r" and "nh \<in> set (rt_NextHops r)"
  obtains nhs where "(p, rt_Metric r, rt_RouteType r, nhs) \<in> offers" "nh \<in> set nhs"
  using assms by (auto simp: best_route_def best_hops_def)

definition rib_for :: "Offer set \<Rightarrow> RIB \<Rightarrow> bool" where
  "rib_for offers rib \<longleftrightarrow> gm_wf rib \<and>
     (\<forall>p. case gm_get rib p of
        None \<Rightarrow> \<forall>m t nhs. (p, m, t, nhs) \<notin> offers
      | Some r \<Rightarrow> best_route offers p r)"

lemma gm_wf_put [simp]: "gm_wf m \<Longrightarrow> gm_wf (gm_put k v m)"
  by (rule gm.invar_put)

lemma gm_get_put: "gm_get (gm_put k v m) k' = (if k' = k then Some v else gm_get m k')"
  by (simp add: gm.get_put)

lemma rib_for_empty: "rib_for {} []"
  by (simp add: rib_for_def gm_get_def gm_wf_def)

lemma best_route_other: "p \<noteq> q \<Longrightarrow> best_route (insert (q, m, t, nhs) offers) p r = best_route offers p r"
  by (simp add: best_route_def best_hops_insert)

lemma best_route_first:
  "(\<forall>m t nhs. (p, m, t, nhs) \<notin> offers) \<Longrightarrow>
   best_route (insert (p, m, t, nhs) offers) p \<lparr>rt_Prefix = p, rt_Metric = m, rt_RouteType = t, rt_NextHops = nhs\<rparr>"
  by (simp add: best_route_def best_hops_insert rank_le_def) (simp add: best_hops_def)

lemma best_route_better:
  assumes "best_route offers p r" and "\<not> rank_le (rt_Metric r) (rt_RouteType r) m t"
  shows "best_route (insert (p, m, t, nhs) offers) p
    \<lparr>rt_Prefix = p, rt_Metric = m, rt_RouteType = t, rt_NextHops = nhs\<rparr>"
proof -
  note le = best_route_le [OF assms(1)]
  have "rank_le m t m' t'" if "(p, m', t', nhs') \<in> offers" for m' t' nhs'
    using le [OF that] assms(2) by (auto simp: rank_le_def)
  moreover have "best_hops offers p m t = {}"
    using le assms(2) by (auto simp: best_hops_def)
  ultimately show ?thesis by (auto simp: best_route_def best_hops_insert) (auto simp: rank_le_def)
qed

lemma best_route_worse:
  assumes "best_route offers p r" and "rank_le (rt_Metric r) (rt_RouteType r) m t"
    and "m \<noteq> rt_Metric r \<or> t \<noteq> rt_RouteType r"
  shows "best_route (insert (p, m, t, nhs) offers) p r"
  using assms by (auto simp: best_route_def best_hops_insert)

lemma best_route_equal:
  assumes "best_route offers p r"
  shows "best_route (insert (p, rt_Metric r, rt_RouteType r, nhs) offers) p
    (r\<lparr>rt_NextHops := MergeNextHops (rt_NextHops r) nhs\<rparr>)"
proof -
  let ?H = "best_hops offers p (rt_Metric r) (rt_RouteType r)"
  have "set (MergeNextHops (rt_NextHops r) nhs) \<subseteq> (\<Union>ns \<in> insert nhs ?H. set ns)"
    using set_merge [of "rt_NextHops r" nhs] assms by (auto simp: best_route_def)
  moreover have "nh_ids (MergeNextHops (rt_NextHops r) nhs) = (\<Union>ns \<in> insert nhs ?H. nh_ids ns)"
    using assms unfolding nh_ids_merge best_route_def by auto
  moreover have "rank_le (rt_Metric r) (rt_RouteType r) (rt_Metric r) (rt_RouteType r)"
    by (simp add: rank_le_def)
  ultimately show ?thesis
    using assms by (simp add: best_route_def best_hops_insert del: nh_ids_merge)
qed

lemma addRoute_best:
  assumes "rib_for offers rib"
  shows "rib_for (insert (p, m, t, nhs) offers) (addRoute p m t nhs rib)"
proof -
  have wf: "gm_wf rib" using assms by (simp add: rib_for_def)
  have old: "case gm_get rib q of None \<Rightarrow> \<forall>m t nhs. (q, m, t, nhs) \<notin> offers | Some r \<Rightarrow> best_route offers q r" for q
    using assms by (simp add: rib_for_def)
  have other: "case gm_get rib q of None \<Rightarrow> \<forall>m' t' nhs'. (q, m', t', nhs') \<notin> insert (p, m, t, nhs) offers
      | Some r \<Rightarrow> best_route (insert (p, m, t, nhs) offers) q r" if "q \<noteq> p" for q
    using old [of q] that by (auto simp: best_route_other split: option.splits)
  have "\<exists>r'. gm_get (addRoute p m t nhs rib) p = Some r' \<and> best_route (insert (p, m, t, nhs) offers) p r'"
  proof (cases "gm_get rib p")
    case None
    then show ?thesis
      using old [of p] best_route_first by (simp add: addRoute_def gm_get_put)
  next
    case (Some r)
    then have r: "best_route offers p r" using old [of p] by simp
    show ?thesis
      using Some best_route_better [OF r, of m t nhs] best_route_worse [OF r, of m t nhs]
        best_route_equal [OF r, of nhs]
      by (auto simp: addRoute_def gm_get_put Let_def rank_le_def sint_eq_iff)
  qed
  moreover have "gm_get (addRoute p m t nhs rib) q = gm_get rib q" if "q \<noteq> p" for q
    using that by (simp add: addRoute_def gm_get_put Let_def split: option.split)
  moreover have "gm_wf (addRoute p m t nhs rib)"
    using wf by (simp add: addRoute_def Let_def split: option.split)
  ultimately show ?thesis
    unfolding rib_for_def using other by (metis (no_types, lifting) option.simps(5))
qed

lemma addRoutes_best: "rib_for offers rib \<Longrightarrow> rib_for (set os \<union> offers) (addRoutes os rib)"
proof (induction os arbitrary: offers rib)
  case (Cons o' os)
  obtain p m t nhs where o': "o' = (p, m, t, nhs)" by (cases o')
  show ?case
    using Cons.IH [OF addRoute_best [OF Cons.prems, of p m t nhs]] by (simp add: o' addRoutes_def)
qed (simp add: addRoutes_def)

lemma rib_for_addRoutes: "rib_for (set os) (addRoutes os [])"
  using addRoutes_best [OF rib_for_empty, of os] by simp

lemma rib_for_get: "rib_for offers rib \<Longrightarrow> gm_get rib p = Some r \<Longrightarrow> best_route offers p r"
  by (auto simp: rib_for_def split: option.splits)

lemma rib_for_None: "rib_for offers rib \<Longrightarrow> gm_get rib p = None \<longleftrightarrow> (\<forall>m t nhs. (p, m, t, nhs) \<notin> offers)"
proof -
  assume rib: "rib_for offers rib"
  show ?thesis
  proof (cases "gm_get rib p")
    case None
    moreover have "case gm_get rib p of None \<Rightarrow> \<forall>m t nhs. (p, m, t, nhs) \<notin> offers | Some r \<Rightarrow> best_route offers p r"
      using rib by (simp add: rib_for_def)
    ultimately show ?thesis by simp
  next
    case (Some r)
    from best_route_offered [OF rib_for_get [OF rib this]] Some show ?thesis by auto
  qed
qed

text \<open>Two RIBs for the same offers agree up to the order of the next hops.\<close>

lemma best_route_unique:
  assumes "best_route offers p r" and "best_route offers p r'"
  shows "rt_Metric r = rt_Metric r' \<and> rt_RouteType r = rt_RouteType r' \<and>
    nh_ids (rt_NextHops r) = nh_ids (rt_NextHops r')"
proof -
  have "rank_le (rt_Metric r) (rt_RouteType r) (rt_Metric r') (rt_RouteType r')"
    "rank_le (rt_Metric r') (rt_RouteType r') (rt_Metric r) (rt_RouteType r)"
    using best_route_le [OF assms(1)] best_route_le [OF assms(2)] best_route_offered [OF assms(1)]
      best_route_offered [OF assms(2)] by blast+
  then have "rt_Metric r = rt_Metric r' \<and> rt_RouteType r = rt_RouteType r'"
    by (auto simp: rank_le_def sint_eq_iff [symmetric])
  with assms show ?thesis by (simp add: best_route_def)
qed

section \<open>Properties\<close>

text \<open>
  \<^bold>\<open>Prefixes survive the RIB.\<close> The text of a prefix, as the RIB is keyed with, parses back to
  the prefix exactly when it is an IPv4 prefix of length 0 to 32 without an IPv6 part, and to the zero
  prefix when it has no IPv4 part or a length out of range; so IPv4 prefixes with different address or
  length never share a key.
\<close>

theorem prefix_text_roundtrip:
  "(StringToPrefix (PrefixToString p) = p \<longleftrightarrow>
      p = zero_IPPrefix \<or> (\<exists>p4. p = zero_IPPrefix\<lparr>ip_IPv4Prefix := Some p4\<rparr> \<and>
        0 \<le> sint (p4_PrefixLen p4) \<and> sint (p4_PrefixLen p4) \<le> 32)) \<and>
   (StringToPrefix (PrefixToString p) = p \<and> StringToPrefix (PrefixToString q) = q \<and>
      PrefixToString p = PrefixToString q \<longrightarrow> p = q)"
proof -
  have zero: "ip_IPv4Prefix zero_IPPrefix = None" by (simp add: zero_IPPrefix_def)
  have "p = zero_IPPrefix\<lparr>ip_IPv4Prefix := Some p4\<rparr> \<Longrightarrow> ip_IPv4Prefix p = Some p4" for p4 by simp
  then have "StringToPrefix (PrefixToString p) = p \<longleftrightarrow>
      p = zero_IPPrefix \<or> (\<exists>p4. p = zero_IPPrefix\<lparr>ip_IPv4Prefix := Some p4\<rparr> \<and>
        0 \<le> sint (p4_PrefixLen p4) \<and> sint (p4_PrefixLen p4) \<le> 32)"
    by (auto simp: StringToPrefix_text zero split: option.split)
  moreover have "StringToPrefix (PrefixToString p) = p \<and> StringToPrefix (PrefixToString q) = q \<and>
      PrefixToString p = PrefixToString q \<longrightarrow> p = q" by metis
  ultimately show ?thesis by blast
qed

theorem prefix_text_roundtrip_witness:
  "StringToPrefix (PrefixToString (zero_IPPrefix\<lparr>ip_IPv4Prefix := Some \<lparr>p4_Address = 0xC0A80A00, p4_PrefixLen = 24\<rparr>\<rparr>)) =
   zero_IPPrefix\<lparr>ip_IPv4Prefix := Some \<lparr>p4_Address = 0xC0A80A00, p4_PrefixLen = 24\<rparr>\<rparr>"
  using prefix_text_roundtrip [of "zero_IPPrefix\<lparr>ip_IPv4Prefix := Some \<lparr>p4_Address = 0xC0A80A00, p4_PrefixLen = 24\<rparr>\<rparr>"]
  by (auto simp: zero_IPPrefix_def)

text \<open>
  C24 \<^bold>\<open>The RIB selects the best routes.\<close> Installing any sequence of offers with \<open>addRoute\<close>, a prefix
  has a route exactly when it was offered; its type is the least offered for the prefix, its metric the
  least offered with that type (both as signed numbers), and the neighbors its next hops name are those of all the
  offers of that rank and of no other. The order of the offers decides nothing but the order
  of the next hops.
\<close>

theorem addRoute_selects_best:
  "(gm_get (addRoutes offers []) p = None \<longleftrightarrow> (\<forall>m t nhs. (p, m, t, nhs) \<notin> set offers)) \<and>
   (\<forall>r. gm_get (addRoutes offers []) p = Some r \<longrightarrow> best_route (set offers) p r) \<and>
   (\<forall>r r'. set offers' = set offers \<longrightarrow> gm_get (addRoutes offers []) p = Some r \<longrightarrow>
      gm_get (addRoutes offers' []) p = Some r' \<longrightarrow>
      rt_Metric r = rt_Metric r' \<and> rt_RouteType r = rt_RouteType r' \<and>
      nh_ids (rt_NextHops r) = nh_ids (rt_NextHops r'))"
proof (intro conjI allI impI)
  note best = rib_for_get [OF rib_for_addRoutes]
  show "gm_get (addRoutes offers []) p = None \<longleftrightarrow> (\<forall>m t nhs. (p, m, t, nhs) \<notin> set offers)"
    by (rule rib_for_None [OF rib_for_addRoutes])
  show "best_route (set offers) p r" if "gm_get (addRoutes offers []) p = Some r" for r
    using that by (rule best)
  fix r r' assume eq: "set offers' = set offers" and r: "gm_get (addRoutes offers []) p = Some r"
    and r': "gm_get (addRoutes offers' []) p = Some r'"
  note u = best_route_unique [OF best [OF r] best [OF r', unfolded eq]]
  show "rt_Metric r = rt_Metric r'" "rt_RouteType r = rt_RouteType r'"
    "nh_ids (rt_NextHops r) = nh_ids (rt_NextHops r')" using u by simp_all
qed

theorem addRoute_selects_best_witness:
  "best_route {(''10.0.0.0/8'', 3, 6, []), (''10.0.0.0/8'', 2, 6, [])} ''10.0.0.0/8''
     \<lparr>rt_Prefix = ''10.0.0.0/8'', rt_Metric = 2, rt_RouteType = 6, rt_NextHops = []\<rparr>"
proof -
  have "gm_get (addRoutes [(''10.0.0.0/8'', 3, 6, []), (''10.0.0.0/8'', 2, 6, [])] []) ''10.0.0.0/8'' =
      Some \<lparr>rt_Prefix = ''10.0.0.0/8'', rt_Metric = 2, rt_RouteType = 6, rt_NextHops = []\<rparr>"
    by (simp add: addRoutes_def addRoute_def gm_get_def gm_put_def Let_def)
  then show ?thesis
    using addRoute_selects_best [of "[(''10.0.0.0/8'', 3, 6, []), (''10.0.0.0/8'', 2, 6, [])]" "''10.0.0.0/8''"] by simp
qed

end
