(* ===== verification/Spf_North.thy ===== *)
theory Spf_North
  imports Spf_Rib Tie_Originate
begin

text \<open>
  Northbound reachability, \<open>src/internal/spf/northbound.go\<close>: the neighbors above that list this node
  in their South Node TIE, the default route over the cheapest of them, and the prefixes they announce.
  The computation is shown to install the best of the offers that these neighbors make.
\<close>

section \<open>The computation\<close>

record validatedNeighbor =
  vn_nextHop :: NextHop
  vn_linkCost :: MetricType

definition link_cost_to :: "NodeTIEElement option \<Rightarrow> SystemIDType \<Rightarrow> MetricType" where
  "link_cost_to ownNodeTIE neighborID =
     (case ownNodeTIE of
        None \<Rightarrow> DefaultDistance
      | Some node \<Rightarrow>
          (case gm_get (nt_Neighbors node) neighborID of
             None \<Rightarrow> DefaultDistance
           | Some neighborEntry \<Rightarrow> LinkCost neighborEntry))"

definition validated_neighbors ::
  "SystemIDType \<Rightarrow> LevelType \<Rightarrow> (string, AdjacencyInfo) gomap \<Rightarrow> (TIEID, LSDBEntry) gomap \<Rightarrow>
   validatedNeighbor list" where
  "validated_neighbors systemID level adjacencies entries =
     (let ownNodeTIE = FindNodeTIE entries TieDirectionNorth systemID
      in fold (\<lambda>(_, adj) validated.
           if sle (ai_NeighborLevel adj) level then validated
           else case FindNodeTIE entries TieDirectionSouth (ai_NeighborID adj) of
               None \<Rightarrow> validated
             | Some neighborSouthNode \<Rightarrow>
                 if gm_get (nt_Neighbors neighborSouthNode) systemID = None then validated
                 else validated @
                   [\<lparr>vn_nextHop = \<lparr>nh_NeighborID = ai_NeighborID adj, nh_Address = ai_NeighborAddr adj,
                       nh_Interface = ai_InterfaceName adj\<rparr>,
                     vn_linkCost = link_cost_to ownNodeTIE (ai_NeighborID adj)\<rparr>]) adjacencies [])"

definition min_cost :: "validatedNeighbor list \<Rightarrow> MetricType" where
  "min_cost validated =
     fold (\<lambda>v minCost. if slt (vn_linkCost v) minCost then vn_linkCost v else minCost) (tl validated)
       (vn_linkCost (hd validated))"

definition default_next_hops :: "validatedNeighbor list \<Rightarrow> NextHop list" where
  "default_next_hops validated =
     fold (\<lambda>v nhs. if vn_linkCost v = min_cost validated then nhs @ [vn_nextHop v] else nhs) validated []"

text \<open>
  Attaching the prefixes of some elements: the two nested loops that the computations repeat, with the
  cost to the announcing node, its next hops and the route type.
\<close>

definition attach_prefixes ::
  "MetricType \<Rightarrow> RouteType \<Rightarrow> NextHop list \<Rightarrow> PrefixTIEElement list \<Rightarrow> RIB \<Rightarrow> RIB" where
  "attach_prefixes cost routeType nextHops prefixTIEs rib =
     fold (\<lambda>pt rib. fold (\<lambda>pe rib.
       let prefix = PrefixToString (pe_Prefix pe)
       in if prefix = '''' then rib
          else addRoute prefix (pa_Metric (pe_Attributes pe) + cost) routeType nextHops rib)
       (pt_Prefixes pt) rib) prefixTIEs rib"

definition ComputeNorthbound ::
  "SystemIDType \<Rightarrow> LevelType \<Rightarrow> (string, AdjacencyInfo) gomap \<Rightarrow> (TIEID, LSDBEntry) gomap \<Rightarrow> RIB" where
  "ComputeNorthbound systemID level adjacencies entries =
     (let validated = validated_neighbors systemID level adjacencies entries
      in if validated = [] then []
         else
           (let rib = addRoute ''0.0.0.0/0'' (min_cost validated) RouteTypeSouthPrefix
                  (default_next_hops validated) []
            in fold (\<lambda>v rib.
                 let prefixTIEs = FindPrefixTIEs entries TieDirectionSouth (nh_NeighborID (vn_nextHop v));
                     rib = attach_prefixes (vn_linkCost v) RouteTypeSouthPrefix [vn_nextHop v] prefixTIEs rib;
                     disaggTIEs = FindPositiveDisaggPrefixTIEs entries TieDirectionSouth
                       (nh_NeighborID (vn_nextHop v))
                 in attach_prefixes (vn_linkCost v) RouteTypeSouthPrefix [vn_nextHop v] disaggTIEs rib)
               validated rib))"

section \<open>The computation as a list of offers\<close>

definition prefix_offers ::
  "MetricType \<Rightarrow> RouteType \<Rightarrow> NextHop list \<Rightarrow> PrefixTIEElement list \<Rightarrow> Offer list" where
  "prefix_offers cost routeType nextHops prefixTIEs =
     concat (map (\<lambda>pt. concat (map (\<lambda>pe.
       if PrefixToString (pe_Prefix pe) = '''' then []
       else [(PrefixToString (pe_Prefix pe), pa_Metric (pe_Attributes pe) + cost, routeType, nextHops)])
       (pt_Prefixes pt))) prefixTIEs)"

lemma addRoutes_simps [simp]:
  "addRoutes [] rib = rib" "addRoutes ((p, m, t, nhs) # os) rib = addRoutes os (addRoute p m t nhs rib)"
  "addRoutes (os @ os') rib = addRoutes os' (addRoutes os rib)"
  by (simp_all add: addRoutes_def)

lemma addRoutes_append: "addRoutes (os @ os') = (\<lambda>rib. addRoutes os' (addRoutes os rib))"
  by (simp add: fun_eq_iff)

lemma addRoutes_concat: "addRoutes (concat (map f xs)) = fold (\<lambda>x. addRoutes (f x)) xs"
  by (induction xs) (simp_all add: fun_eq_iff)

lemma attach_prefixes_offers:
  "attach_prefixes cost t nhs pts rib = addRoutes (prefix_offers cost t nhs pts) rib"
proof -
  have "addRoutes (if PrefixToString (pe_Prefix pe) = '''' then []
       else [(PrefixToString (pe_Prefix pe), pa_Metric (pe_Attributes pe) + cost, t, nhs)]) =
     (\<lambda>rib. let prefix = PrefixToString (pe_Prefix pe) in if prefix = '''' then rib
        else addRoute prefix (pa_Metric (pe_Attributes pe) + cost) t nhs rib)" for pe :: PrefixEntry
    by (simp add: Let_def fun_eq_iff)
  then show ?thesis
    unfolding attach_prefixes_def prefix_offers_def addRoutes_concat by (simp only:)
qed

lemma fold_append_filter:
  "fold (\<lambda>x r. if P x then r @ [f x] else r) xs r = r @ map f (filter P xs)"
  by (induction xs arbitrary: r) simp_all

lemma set_FindPrefixTIEs:
  "e \<in> set (FindPrefixTIEs entries dir orig) \<longleftrightarrow>
   (\<exists>tid entry. (tid, entry) \<in> set entries \<and> Direction tid = dir \<and> Originator tid = orig \<and>
      TIEType tid = TIETypePrefixTIEType \<and> el_Prefixes (tie_Element (le_Packet entry)) = Some e)"
proof -
  have "set (fold (\<lambda>(tid, entry) result.
       if Direction tid = dir \<and> Originator tid = orig \<and> TIEType tid = TIETypePrefixTIEType then
         (case el_Prefixes (tie_Element (le_Packet entry)) of None \<Rightarrow> result | Some e \<Rightarrow> result @ [e])
       else result) es r) = set r \<union> {e. \<exists>tid entry. (tid, entry) \<in> set es \<and> Direction tid = dir \<and>
      Originator tid = orig \<and> TIEType tid = TIETypePrefixTIEType \<and>
      el_Prefixes (tie_Element (le_Packet entry)) = Some e}" for es :: "(TIEID, LSDBEntry) gomap" and r
  proof (induction es arbitrary: r)
    case (Cons a es)
    obtain tid entry where a: "a = (tid, entry)" by (cases a)
    show ?case
      by (cases "el_Prefixes (tie_Element (le_Packet entry))") (simp_all add: a Cons.IH, auto)
  qed simp
  then show ?thesis by (simp add: FindPrefixTIEs_def)
qed

lemma set_FindPositiveDisaggPrefixTIEs:
  "e \<in> set (FindPositiveDisaggPrefixTIEs entries dir orig) \<longleftrightarrow>
   (\<exists>tid entry. (tid, entry) \<in> set entries \<and> Direction tid = dir \<and> Originator tid = orig \<and>
      TIEType tid = TIETypePositiveDisaggregationPrefixTIEType \<and>
      el_PositiveDisaggregationPrefixes (tie_Element (le_Packet entry)) = Some e)"
proof -
  have "set (fold (\<lambda>(tid, entry) result.
       if Direction tid = dir \<and> Originator tid = orig \<and> TIEType tid = TIETypePositiveDisaggregationPrefixTIEType then
         (case el_PositiveDisaggregationPrefixes (tie_Element (le_Packet entry)) of
            None \<Rightarrow> result | Some e \<Rightarrow> result @ [e])
       else result) es r) = set r \<union> {e. \<exists>tid entry. (tid, entry) \<in> set es \<and> Direction tid = dir \<and>
      Originator tid = orig \<and> TIEType tid = TIETypePositiveDisaggregationPrefixTIEType \<and>
      el_PositiveDisaggregationPrefixes (tie_Element (le_Packet entry)) = Some e}"
    for es :: "(TIEID, LSDBEntry) gomap" and r
  proof (induction es arbitrary: r)
    case (Cons a es)
    obtain tid entry where a: "a = (tid, entry)" by (cases a)
    show ?case
      by (cases "el_PositiveDisaggregationPrefixes (tie_Element (le_Packet entry))")
        (simp_all add: a Cons.IH, auto)
  qed simp
  then show ?thesis by (simp add: FindPositiveDisaggPrefixTIEs_def)
qed

lemma set_prefix_offers:
  "(p, m, t', nhs') \<in> set (prefix_offers cost t nhs pts) \<longleftrightarrow>
   t' = t \<and> nhs' = nhs \<and> p \<noteq> '''' \<and>
   (\<exists>pt \<in> set pts. \<exists>pe \<in> set (pt_Prefixes pt). p = PrefixToString (pe_Prefix pe) \<and>
      m = pa_Metric (pe_Attributes pe) + cost)"
  by (auto simp: prefix_offers_def split: if_splits)

text \<open>The validated neighbors: the adjacencies above whose South Node TIE lists this node.\<close>

definition backlinked :: "SystemIDType \<Rightarrow> (TIEID, LSDBEntry) gomap \<Rightarrow> SystemIDType \<Rightarrow> bool" where
  "backlinked systemID entries neighborID \<longleftrightarrow>
     (\<exists>node. FindNodeTIE entries TieDirectionSouth neighborID = Some node \<and>
        gm_get (nt_Neighbors node) systemID \<noteq> None)"

definition adj_hop :: "AdjacencyInfo \<Rightarrow> NextHop" where
  "adj_hop adj = \<lparr>nh_NeighborID = ai_NeighborID adj, nh_Address = ai_NeighborAddr adj,
     nh_Interface = ai_InterfaceName adj\<rparr>"

lemma adj_hop_simps [simp]:
  "nh_NeighborID (adj_hop adj) = ai_NeighborID adj" "nh_Address (adj_hop adj) = ai_NeighborAddr adj"
  "nh_Interface (adj_hop adj) = ai_InterfaceName adj"
  by (simp_all add: adj_hop_def)

lemma validated_neighbors_eq:
  "validated_neighbors systemID level adjacencies entries =
   map (\<lambda>(_, adj). \<lparr>vn_nextHop = adj_hop adj,
       vn_linkCost = link_cost_to (FindNodeTIE entries TieDirectionNorth systemID) (ai_NeighborID adj)\<rparr>)
     (filter (\<lambda>(_, adj). slt level (ai_NeighborLevel adj) \<and> backlinked systemID entries (ai_NeighborID adj))
       adjacencies)"
proof -
  let ?own = "FindNodeTIE entries TieDirectionNorth systemID"
  have "fold (\<lambda>(_, adj) validated.
           if sle (ai_NeighborLevel adj) level then validated
           else case FindNodeTIE entries TieDirectionSouth (ai_NeighborID adj) of
               None \<Rightarrow> validated
             | Some neighborSouthNode \<Rightarrow>
                 if gm_get (nt_Neighbors neighborSouthNode) systemID = None then validated
                 else validated @
                   [\<lparr>vn_nextHop = \<lparr>nh_NeighborID = ai_NeighborID adj, nh_Address = ai_NeighborAddr adj,
                       nh_Interface = ai_InterfaceName adj\<rparr>,
                     vn_linkCost = link_cost_to ?own (ai_NeighborID adj)\<rparr>]) as r =
      r @ map (\<lambda>(_, adj). \<lparr>vn_nextHop = adj_hop adj, vn_linkCost = link_cost_to ?own (ai_NeighborID adj)\<rparr>)
     (filter (\<lambda>(_, adj). slt level (ai_NeighborLevel adj) \<and> backlinked systemID entries (ai_NeighborID adj)) as)"
    for as :: "(string, AdjacencyInfo) gomap" and r
  proof (induction as arbitrary: r)
    case (Cons a as)
    obtain k adj where a: "a = (k, adj)" by (cases a)
    show ?case
      by (cases "FindNodeTIE entries TieDirectionSouth (ai_NeighborID adj)")
        (auto simp: a Cons.IH adj_hop_def backlinked_def)
  qed simp
  then show ?thesis by (simp add: validated_neighbors_def)
qed

lemma min_cost_least:
  assumes "validated \<noteq> []"
  shows "(\<exists>v \<in> set validated. vn_linkCost v = min_cost validated) \<and>
    (\<forall>v \<in> set validated. sint (min_cost validated) \<le> sint (vn_linkCost v))"
proof -
  have "let m' = fold (\<lambda>v minCost. if slt (vn_linkCost v) minCost then vn_linkCost v else minCost) vs m
    in (m' = m \<or> (\<exists>v \<in> set vs. vn_linkCost v = m')) \<and> sint m' \<le> sint m \<and>
       (\<forall>v \<in> set vs. sint m' \<le> sint (vn_linkCost v))" for vs m
  proof (induction vs arbitrary: m)
    case (Cons v vs)
    show ?case
      using Cons.IH [of "if slt (vn_linkCost v) m then vn_linkCost v else m"]
      by (auto simp: Let_def split: if_splits)
  qed simp
  from this [of "tl validated" "vn_linkCost (hd validated)"] assms show ?thesis
    by (cases validated) (auto simp: min_cost_def Let_def)
qed

section \<open>What the neighbors above offer\<close>

text \<open>
  A validated neighbor \<open>adj\<close> offers the default route at the cost of the link, and every prefix of its
  South Prefix TIEs and South Positive Disaggregation TIEs at the announced metric plus that cost.
\<close>

definition announced :: "(TIEID, LSDBEntry) gomap \<Rightarrow> TieDirectionType \<Rightarrow> SystemIDType \<Rightarrow> PrefixEntry set" where
  "announced entries dir orig =
     {pe. \<exists>tid entry e. (tid, entry) \<in> set entries \<and> Direction tid = dir \<and> Originator tid = orig \<and>
       (TIEType tid = TIETypePrefixTIEType \<and> el_Prefixes (tie_Element (le_Packet entry)) = Some e \<or>
        dir = TieDirectionSouth \<and> TIEType tid = TIETypePositiveDisaggregationPrefixTIEType \<and>
        el_PositiveDisaggregationPrefixes (tie_Element (le_Packet entry)) = Some e) \<and>
       pe \<in> set (pt_Prefixes e)}"

definition north_link :: "SystemIDType \<Rightarrow> LevelType \<Rightarrow> (string, AdjacencyInfo) gomap \<Rightarrow>
    (TIEID, LSDBEntry) gomap \<Rightarrow> AdjacencyInfo \<Rightarrow> bool" where
  "north_link systemID level adjacencies entries adj \<longleftrightarrow>
     adj \<in> snd ` set adjacencies \<and> slt level (ai_NeighborLevel adj) \<and>
     backlinked systemID entries (ai_NeighborID adj)"

definition north_cost :: "SystemIDType \<Rightarrow> (TIEID, LSDBEntry) gomap \<Rightarrow> AdjacencyInfo \<Rightarrow> MetricType" where
  "north_cost systemID entries adj =
     link_cost_to (FindNodeTIE entries TieDirectionNorth systemID) (ai_NeighborID adj)"

definition north_offers :: "SystemIDType \<Rightarrow> LevelType \<Rightarrow> (string, AdjacencyInfo) gomap \<Rightarrow>
    (TIEID, LSDBEntry) gomap \<Rightarrow> Offer set" where
  "north_offers systemID level adjacencies entries =
     {(''0.0.0.0/0'', north_cost systemID entries adj, RouteTypeSouthPrefix, [adj_hop adj]) |adj.
        north_link systemID level adjacencies entries adj} \<union>
     {(PrefixToString (pe_Prefix pe), pa_Metric (pe_Attributes pe) + north_cost systemID entries adj,
         RouteTypeSouthPrefix, [adj_hop adj]) |adj pe.
        north_link systemID level adjacencies entries adj \<and>
        pe \<in> announced entries TieDirectionSouth (ai_NeighborID adj) \<and> PrefixToString (pe_Prefix pe) \<noteq> []}"

text \<open>One offer with the next hops of all the cheapest is as good as one offer of each.\<close>

lemma best_route_spread:
  assumes r: "best_route (insert (p, m, t, nhs) offers) q r"
    and "\<exists>i \<in> I. cost i = m" and least: "\<forall>i \<in> I. sint m \<le> sint (cost i)"
    and nhs: "set nhs = {hop i |i. i \<in> I \<and> cost i = m}"
  shows "best_route ({(p, cost i, t, [hop i]) |i. i \<in> I} \<union> offers) q r"
proof (cases "q = p")
  let ?O = "insert (p, m, t, nhs) offers" and ?O' = "{(p, cost i, t, [hop i]) |i. i \<in> I} \<union> offers"
  case False
  then have "best_hops ?O' q a b = best_hops ?O q a b" for a b by (auto simp: best_hops_def)
  with r False show ?thesis by (auto simp: best_route_def)
next
  let ?O = "insert (p, m, t, nhs) offers" and ?O' = "{(p, cost i, t, [hop i]) |i. i \<in> I} \<union> offers"
  let ?m = "rt_Metric r" and ?t = "rt_RouteType r"
  case True
  have le: "rank_le ?m ?t m t" using best_route_le [OF r, of m t nhs] True by simp
  have H: "best_hops ?O q ?m ?t = (if ?m = m \<and> ?t = t then {nhs} else {}) \<union> best_hops offers q ?m ?t"
    using True by (auto simp: best_hops_def)
  have "?m = m \<and> ?t = t" if "i \<in> I" "cost i = ?m" "t = ?t" for i
    using that le least by (auto simp: rank_le_def sint_eq_iff [symmetric])
  then have H': "best_hops ?O' q ?m ?t =
      (if ?m = m \<and> ?t = t then {[hop i] |i. i \<in> I \<and> cost i = m} else {}) \<union> best_hops offers q ?m ?t"
    using True by (auto simp: best_hops_def) metis
  have "(\<Union>ns \<in> best_hops ?O' q ?m ?t. set ns) = (\<Union>ns \<in> best_hops ?O q ?m ?t. set ns)"
    unfolding H H' using nhs by auto
  moreover from this have "(\<Union>ns \<in> best_hops ?O' q ?m ?t. nh_ids ns) = (\<Union>ns \<in> best_hops ?O q ?m ?t. nh_ids ns)"
    by (simp flip: image_UN)
  moreover have "best_hops ?O' q ?m ?t \<noteq> {}"
    using r assms(2) unfolding best_route_def H H' by auto
  moreover have "rank_le ?m ?t m' t'" if "(q, m', t', ns) \<in> ?O'" for m' t' ns
    using that le best_route_le [OF r, of m' t' ns] least by (auto simp: rank_le_def)
  moreover have "rt_Prefix r = q" "nh_ids (rt_NextHops r) = (\<Union>ns \<in> best_hops ?O q ?m ?t. nh_ids ns)"
    "set (rt_NextHops r) \<subseteq> (\<Union>ns \<in> best_hops ?O q ?m ?t. set ns)"
    using r by (simp_all add: best_route_def)
  ultimately show ?thesis
    unfolding best_route_def by (intro conjI allI impI) simp_all
qed

lemma rib_for_spread:
  assumes "rib_for (insert (p, m, t, nhs) offers) rib"
    and "\<exists>i \<in> I. cost i = m" and "\<forall>i \<in> I. sint m \<le> sint (cost i)"
    and "set nhs = {hop i |i. i \<in> I \<and> cost i = m}"
  shows "rib_for ({(p, cost i, t, [hop i]) |i. i \<in> I} \<union> offers) rib"
  unfolding rib_for_def
proof (intro conjI allI)
  show "gm_wf rib" using assms(1) by (simp add: rib_for_def)
  fix q
  show "case gm_get rib q of
      None \<Rightarrow> \<forall>m' t' ns. (q, m', t', ns) \<notin> {(p, cost i, t, [hop i]) |i. i \<in> I} \<union> offers
    | Some r \<Rightarrow> best_route ({(p, cost i, t, [hop i]) |i. i \<in> I} \<union> offers) q r"
  proof (cases "gm_get rib q")
    case None
    then show ?thesis using rib_for_None [OF assms(1), of q] by auto
  next
    case (Some r)
    then show ?thesis using best_route_spread [OF rib_for_get [OF assms(1)] assms(2-4)] by simp
  qed
qed

lemma ex_image: "(\<exists>v. (\<exists>x. A x \<and> v = f x) \<and> Q v) \<longleftrightarrow> (\<exists>x. A x \<and> Q (f x))"
  by blast

lemma set_validated:
  "v \<in> set (validated_neighbors systemID level adjacencies entries) \<longleftrightarrow>
   (\<exists>adj. north_link systemID level adjacencies entries adj \<and>
      v = \<lparr>vn_nextHop = adj_hop adj, vn_linkCost = north_cost systemID entries adj\<rparr>)"
  by (force simp: validated_neighbors_eq north_link_def north_cost_def simp del: adj_hop_simps)

lemma set_default_next_hops:
  "set (default_next_hops validated) = vn_nextHop ` {v \<in> set validated. vn_linkCost v = min_cost validated}"
  unfolding default_next_hops_def fold_append_filter by auto

definition offers_of :: "(TIEID, LSDBEntry) gomap \<Rightarrow> validatedNeighbor \<Rightarrow> Offer list" where
  "offers_of entries v =
     prefix_offers (vn_linkCost v) RouteTypeSouthPrefix [vn_nextHop v]
       (FindPrefixTIEs entries TieDirectionSouth (nh_NeighborID (vn_nextHop v))) @
     prefix_offers (vn_linkCost v) RouteTypeSouthPrefix [vn_nextHop v]
       (FindPositiveDisaggPrefixTIEs entries TieDirectionSouth (nh_NeighborID (vn_nextHop v)))"

lemma ComputeNorthbound_offers:
  "ComputeNorthbound systemID level adjacencies entries =
   (let validated = validated_neighbors systemID level adjacencies entries
    in if validated = [] then []
       else addRoutes ((''0.0.0.0/0'', min_cost validated, RouteTypeSouthPrefix, default_next_hops validated) #
         concat (map (offers_of entries) validated)) [])"
  unfolding ComputeNorthbound_def Let_def attach_prefixes_offers
  by (simp add: addRoutes_concat offers_of_def addRoutes_append)

lemma announced_South:
  "pe \<in> announced entries TieDirectionSouth orig \<longleftrightarrow>
   (\<exists>pt \<in> set (FindPrefixTIEs entries TieDirectionSouth orig) \<union>
      set (FindPositiveDisaggPrefixTIEs entries TieDirectionSouth orig). pe \<in> set (pt_Prefixes pt))"
  unfolding announced_def Bex_def Un_iff set_FindPrefixTIEs set_FindPositiveDisaggPrefixTIEs mem_Collect_eq by blast

lemma set_offers_of:
  "(p, m, t, nhs) \<in> set (offers_of entries v) \<longleftrightarrow>
   t = RouteTypeSouthPrefix \<and> nhs = [vn_nextHop v] \<and> p \<noteq> [] \<and>
   (\<exists>pe \<in> announced entries TieDirectionSouth (nh_NeighborID (vn_nextHop v)).
      p = PrefixToString (pe_Prefix pe) \<and> m = pa_Metric (pe_Attributes pe) + vn_linkCost v)"
  unfolding offers_of_def set_append Un_iff set_prefix_offers Bex_def announced_South by auto

lemma north_rib:
  "rib_for (north_offers systemID level adjacencies entries) (ComputeNorthbound systemID level adjacencies entries)"
proof (cases "validated_neighbors systemID level adjacencies entries = []")
  case True
  then have "\<not> north_link systemID level adjacencies entries adj" for adj
    using set_validated [of _ systemID level adjacencies entries] by auto
  then show ?thesis
    using True rib_for_empty by (simp add: ComputeNorthbound_def north_offers_def)
next
  case False
  let ?vs = "validated_neighbors systemID level adjacencies entries"
  let ?I = "{adj. north_link systemID level adjacencies entries adj}"
  let ?cost = "north_cost systemID entries"
  let ?offers = "set (concat (map (offers_of entries) ?vs))"
  note min = min_cost_least [OF False]
  have "rib_for (insert (''0.0.0.0/0'', min_cost ?vs, RouteTypeSouthPrefix, default_next_hops ?vs) ?offers)
      (ComputeNorthbound systemID level adjacencies entries)"
    using rib_for_addRoutes [of "(''0.0.0.0/0'', min_cost ?vs, RouteTypeSouthPrefix, default_next_hops ?vs) #
      concat (map (offers_of entries) ?vs)"] False
    by (simp add: ComputeNorthbound_offers Let_def del: addRoutes_simps)
  moreover have "\<exists>adj \<in> ?I. ?cost adj = min_cost ?vs"
    using min set_validated [of _ systemID level adjacencies entries] by fastforce
  moreover have "\<forall>adj \<in> ?I. sint (min_cost ?vs) \<le> sint (?cost adj)"
    using min set_validated [of _ systemID level adjacencies entries] by fastforce
  moreover have "set (default_next_hops ?vs) = {adj_hop adj |adj. adj \<in> ?I \<and> ?cost adj = min_cost ?vs}"
    unfolding set_default_next_hops using set_validated [of _ systemID level adjacencies entries] by force
  ultimately have "rib_for ({(''0.0.0.0/0'', ?cost adj, RouteTypeSouthPrefix, [adj_hop adj]) |adj. adj \<in> ?I} \<union> ?offers)
      (ComputeNorthbound systemID level adjacencies entries)"
    by (rule rib_for_spread)
  moreover have "?offers = {(PrefixToString (pe_Prefix pe), pa_Metric (pe_Attributes pe) + ?cost adj,
         RouteTypeSouthPrefix, [adj_hop adj]) |adj pe. adj \<in> ?I \<and>
        pe \<in> announced entries TieDirectionSouth (ai_NeighborID adj) \<and> PrefixToString (pe_Prefix pe) \<noteq> []}"
    (is "_ = ?R")
  proof -
    have "(p, m, t, nhs) \<in> ?offers \<longleftrightarrow> (p, m, t, nhs) \<in> ?R" for p m t nhs
    proof -
      have "(p, m, t, nhs) \<in> ?offers \<longleftrightarrow> (\<exists>v. v \<in> set ?vs \<and> (p, m, t, nhs) \<in> set (offers_of entries v))" by auto
      also have "\<dots> \<longleftrightarrow> (p, m, t, nhs) \<in> ?R"
        unfolding set_validated set_offers_of ex_image by auto
      finally show ?thesis .
    qed
    note eq = this
    show ?thesis
    proof (rule set_eqI)
      fix x :: Offer obtain p m t nhs where "x = (p, m, t, nhs)" by (cases x)
      then show "x \<in> ?offers \<longleftrightarrow> x \<in> ?R" using eq by (simp only:)
    qed
  qed
  ultimately show ?thesis by (simp add: north_offers_def)
qed

section \<open>Properties\<close>

text \<open>
  C2 \<^bold>\<open>Northbound routes are the best offers of the validated neighbors.\<close> The northbound RIB has a
  route for a prefix exactly when a neighbor above, which lists this node in its South Node TIE, offers
  it; metric and next hops are those of the cheapest offers. Every next hop of every route is such a
  neighbor, and there is a default route exactly when there is one.
\<close>

theorem northbound_best:
  "let rib = ComputeNorthbound systemID level adjacencies entries in
     rib_for (north_offers systemID level adjacencies entries) rib \<and>
     (gm_get rib ''0.0.0.0/0'' \<noteq> None \<longleftrightarrow> (\<exists>adj. north_link systemID level adjacencies entries adj)) \<and>
     (\<forall>p r. \<forall>nh \<in> set (rt_NextHops r). gm_get rib p = Some r \<longrightarrow>
        (\<exists>adj. north_link systemID level adjacencies entries adj \<and> nh = adj_hop adj))"
proof -
  let ?rib = "ComputeNorthbound systemID level adjacencies entries"
  note rib = north_rib [of systemID level adjacencies entries]
  have "(\<exists>m t nhs. (q, m, t, nhs) \<in> north_offers systemID level adjacencies entries) \<Longrightarrow>
      \<exists>adj. north_link systemID level adjacencies entries adj" for q
    by (auto simp: north_offers_def)
  moreover have "(''0.0.0.0/0'', north_cost systemID entries adj, RouteTypeSouthPrefix, [adj_hop adj]) \<in>
      north_offers systemID level adjacencies entries" if "north_link systemID level adjacencies entries adj" for adj
    using that by (auto simp: north_offers_def)
  ultimately have "gm_get ?rib ''0.0.0.0/0'' \<noteq> None \<longleftrightarrow> (\<exists>adj. north_link systemID level adjacencies entries adj)"
    unfolding rib_for_None [OF rib] by blast
  moreover have "\<exists>adj. north_link systemID level adjacencies entries adj \<and> nh = adj_hop adj"
    if r: "gm_get ?rib p = Some r" and nh: "nh \<in> set (rt_NextHops r)" for p r nh
    using rib_for_get [OF rib r] nh by (rule best_route_hop) (auto simp: north_offers_def)
  ultimately show ?thesis using rib by (simp add: Let_def)
qed

definition ex_spine :: "string \<Rightarrow> SystemIDType \<Rightarrow> Addr \<Rightarrow> AdjacencyInfo" where
  "ex_spine ifn s a = \<lparr>ai_InterfaceName = ifn, ai_NeighborID = s, ai_NeighborLevel = 1, ai_NeighborAddr = a,
     ai_FloodPort = 915, ai_LocalLinkID = 10, ai_NeighborLinkID = 20\<rparr>"

definition ex_south_node :: "SystemIDType \<Rightarrow> TIEID \<times> LSDBEntry" where
  "ex_south_node s = (TIEID TieDirectionSouth s TIETypeNodeTIEType 1,
     \<lparr>le_Packet = zero_TIEPacket\<lparr>tie_Element := zero_TIEElement\<lparr>el_Node := Some (zero_NodeTIEElement
        \<lparr>nt_Level := 1, nt_Neighbors := [(7, zero_NodeNeighbors)]\<rparr>)\<rparr>\<rparr>,
      le_RemainingLifetime = 600, le_LastReceived = 0, le_SelfOriginated = False\<rparr>)"

theorem northbound_best_witness:
  "\<exists>adj. north_link 7 0 [(''e1'', ex_spine ''e1'' 1 (Addr4 1))] [ex_south_node 1] adj \<and>
     \<lparr>nh_NeighborID = 1, nh_Address = Addr4 1, nh_Interface = ''e1''\<rparr> = adj_hop adj"
proof -
  let ?adjs = "[(''e1'', ex_spine ''e1'' 1 (Addr4 1))]" and ?es = "[ex_south_node 1]"
  let ?nh = "\<lparr>nh_NeighborID = 1, nh_Address = Addr4 1, nh_Interface = ''e1''\<rparr> :: NextHop"
  have "gm_get (ComputeNorthbound 7 0 ?adjs ?es) ''0.0.0.0/0'' =
      Some \<lparr>rt_Prefix = ''0.0.0.0/0'', rt_Metric = 1, rt_RouteType = 8, rt_NextHops = [?nh]\<rparr>"
    by (simp add: ComputeNorthbound_def validated_neighbors_def ex_spine_def ex_south_node_def FindNodeTIE_def
        gm_get_def zero_TIEPacket_def zero_TIEElement_def zero_NodeTIEElement_def link_cost_to_def min_cost_def
        default_next_hops_def addRoute_def gm_put_def FindPrefixTIEs_def FindPositiveDisaggPrefixTIEs_def
        attach_prefixes_def Let_def)
  with northbound_best [of 7 0 ?adjs ?es] show ?thesis
    unfolding Let_def by (metis (no_types, lifting) Route.select_convs(4) list.set_intros(1))
qed

end
