(* ===== verification/Go_Heap.thy ===== *)
theory Go_Heap
  imports Rift_Prelude "HOL-Library.Multiset"
begin

text \<open>
  The priority queue of the Dijkstra computation: \<open>container/heap\<close> of the Go library (\<open>up\<close>,
  \<open>down\<close>, \<open>Push\<close>, \<open>Pop\<close>) on the slice of \<open>src/internal/spf/southbound.go\<close>, whose \<open>Less\<close>
  compares a signed distance. The client relies on the locale \<open>min_queue\<close> only.
\<close>

section \<open>The interface\<close>

locale min_queue =
  fixes key :: "'a \<Rightarrow> int"
    and push :: "'a \<Rightarrow> 'q \<Rightarrow> 'q"
    and pop :: "'q \<Rightarrow> 'a \<times> 'q"
    and items :: "'q \<Rightarrow> 'a multiset"
    and invar :: "'q \<Rightarrow> bool"
  assumes invar_push: "invar q \<Longrightarrow> invar (push x q)"
    and items_push: "invar q \<Longrightarrow> items (push x q) = add_mset x (items q)"
    and invar_pop: "\<lbrakk>invar q; items q \<noteq> {#}; pop q = (x, q')\<rbrakk> \<Longrightarrow> invar q'"
    and items_pop: "\<lbrakk>invar q; items q \<noteq> {#}; pop q = (x, q')\<rbrakk> \<Longrightarrow> items q = add_mset x (items q')"
    and pop_min: "\<lbrakk>invar q; items q \<noteq> {#}; pop q = (x, q'); y \<in># items q\<rbrakk> \<Longrightarrow> key x \<le> key y"
begin

lemma pop_member: "\<lbrakk>invar q; items q \<noteq> {#}; pop q = (x, q')\<rbrakk> \<Longrightarrow> x \<in># items q"
  by (simp add: items_pop)

lemma pop_rest: "\<lbrakk>invar q; items q \<noteq> {#}; pop q = (x, q'); y \<in># items q\<rbrakk> \<Longrightarrow> y = x \<or> y \<in># items q'"
  by (simp add: items_pop)

lemma size_push: "invar q \<Longrightarrow> size (items (push x q)) = Suc (size (items q))"
  by (simp add: items_push)

lemma size_pop: "\<lbrakk>invar q; items q \<noteq> {#}; pop q = (x, q')\<rbrakk> \<Longrightarrow> size (items q) = Suc (size (items q'))"
  by (simp add: items_pop)

end

section \<open>Sifting\<close>

definition swap :: "nat \<Rightarrow> nat \<Rightarrow> 'a list \<Rightarrow> 'a list" where
  "swap i j xs = xs[i := xs ! j, j := xs ! i]"

abbreviation parent :: "nat \<Rightarrow> nat" where
  "parent j \<equiv> (j - 1) div 2"

function heap_up :: "('a \<Rightarrow> int) \<Rightarrow> nat \<Rightarrow> 'a list \<Rightarrow> 'a list" where
  "heap_up key j xs =
     (let i = parent j
      in if i = j \<or> \<not> key (xs ! j) < key (xs ! i) then xs else heap_up key i (swap i j xs))"
  by pat_completeness auto
termination
  by (relation "measure (\<lambda>(_, j, _). j)") auto

function heap_down :: "('a \<Rightarrow> int) \<Rightarrow> nat \<Rightarrow> nat \<Rightarrow> 'a list \<Rightarrow> 'a list" where
  "heap_down key i n xs =
     (let j1 = 2 * i + 1
      in if j1 \<ge> n then xs
         else
           let j = (if j1 + 1 < n \<and> key (xs ! (j1 + 1)) < key (xs ! j1) then j1 + 1 else j1)
           in if \<not> key (xs ! j) < key (xs ! i) then xs else heap_down key j n (swap i j xs))"
  by pat_completeness auto
termination
  by (relation "measure (\<lambda>(_, i, n, _). n - i)") (auto simp: Let_def split: if_splits)

declare heap_up.simps [simp del] heap_down.simps [simp del]

definition heap_push :: "('a \<Rightarrow> int) \<Rightarrow> 'a \<Rightarrow> 'a list \<Rightarrow> 'a list" where
  "heap_push key x xs = heap_up key (length xs) (xs @ [x])"

definition heap_pop :: "('a \<Rightarrow> int) \<Rightarrow> 'a list \<Rightarrow> 'a \<times> 'a list" where
  "heap_pop key xs =
     (let n = length xs - 1; xs = swap 0 n xs; xs = heap_down key 0 n xs
      in (xs ! n, take n xs))"

section \<open>The heap order\<close>

definition is_heap :: "('a \<Rightarrow> int) \<Rightarrow> nat \<Rightarrow> 'a list \<Rightarrow> bool" where
  "is_heap key n xs \<longleftrightarrow> (\<forall>c. 0 < c \<longrightarrow> c < n \<longrightarrow> key (xs ! parent c) \<le> key (xs ! c))"

text \<open>Ordered but for the node \<open>j\<close> and its parent; ordered but for \<open>i\<close> and its children.\<close>

definition up_inv :: "('a \<Rightarrow> int) \<Rightarrow> nat \<Rightarrow> 'a list \<Rightarrow> bool" where
  "up_inv key j xs \<longleftrightarrow> (\<forall>c. 0 < c \<longrightarrow> c < length xs \<longrightarrow>
     (c \<noteq> j \<longrightarrow> key (xs ! parent c) \<le> key (xs ! c)) \<and>
     (0 < j \<longrightarrow> parent c = j \<longrightarrow> key (xs ! parent j) \<le> key (xs ! c)))"

definition down_inv :: "('a \<Rightarrow> int) \<Rightarrow> nat \<Rightarrow> nat \<Rightarrow> 'a list \<Rightarrow> bool" where
  "down_inv key i n xs \<longleftrightarrow> (\<forall>c. 0 < c \<longrightarrow> c < n \<longrightarrow>
     (parent c \<noteq> i \<longrightarrow> key (xs ! parent c) \<le> key (xs ! c)) \<and>
     (0 < i \<longrightarrow> parent c = i \<longrightarrow> key (xs ! parent i) \<le> key (xs ! c)))"

lemma length_swap [simp]: "length (swap i j xs) = length xs"
  by (simp add: swap_def)

lemma nth_swap:
  "\<lbrakk>i < length xs; j < length xs; c < length xs\<rbrakk> \<Longrightarrow>
   swap i j xs ! c = (if c = j then xs ! i else if c = i then xs ! j else xs ! c)"
  by (simp add: swap_def nth_list_update)

lemma mset_swap_list [simp]: "\<lbrakk>i < length xs; j < length xs\<rbrakk> \<Longrightarrow> mset (swap i j xs) = mset xs"
  by (simp add: swap_def mset_swap)

lemma parent_less: "0 < j \<Longrightarrow> parent j < j"
  by auto

lemma heap_up_mset: "j < length xs \<Longrightarrow> mset (heap_up key j xs) = mset xs"
proof (induction key j xs rule: heap_up.induct)
  case (1 key j xs)
  then have "parent j < length xs" by (cases j) auto
  with 1 show ?case by (subst heap_up.simps) (auto simp: Let_def)
qed

lemma heap_up_heap: "\<lbrakk>j < length xs; up_inv key j xs\<rbrakk> \<Longrightarrow> is_heap key (length xs) (heap_up key j xs)"
proof (induction key j xs rule: heap_up.induct)
  case (1 key j xs)
  show ?case
  proof (cases "parent j = j \<or> \<not> key (xs ! j) < key (xs ! parent j)")
    case True
    then have "key (xs ! parent j) \<le> key (xs ! j)" by (metis linorder_not_le order_refl)
    with "1.prems" True show ?thesis
      by (subst heap_up.simps) (auto simp: Let_def is_heap_def up_inv_def)
  next
    case False
    then have j: "0 < j" "parent j < j" by (cases j; auto)+
    let ?i = "parent j" and ?xs = "swap (parent j) j xs"
    have len: "?i < length xs" using j(2) "1.prems"(1) by simp
    have "up_inv key ?i ?xs"
      unfolding up_inv_def
    proof (intro allI impI conjI)
      fix c assume c: "0 < c" "c < length ?xs"
      have pc: "parent c < length xs" using c parent_less [of c] by simp
      note nth = nth_swap [OF len "1.prems"(1)]
      have ord: "c' \<noteq> j \<Longrightarrow> 0 < c' \<Longrightarrow> c' < length xs \<Longrightarrow> key (xs ! parent c') \<le> key (xs ! c')"
        and gp: "0 < c' \<Longrightarrow> c' < length xs \<Longrightarrow> parent c' = j \<Longrightarrow> key (xs ! parent j) \<le> key (xs ! c')" for c'
        using "1.prems"(2) j unfolding up_inv_def by blast+
      {
        assume "c \<noteq> ?i"
        then show "key (?xs ! parent c) \<le> key (?xs ! c)"
          using c pc nth j False ord [of c] gp [of c] by (cases "c = j") (auto split: if_splits)
      }
      {
        assume i: "0 < ?i" "parent c = ?i"
        have pi: "parent ?i < length xs" "parent ?i \<noteq> ?i" "parent ?i \<noteq> j"
          using i(1) j(2) parent_less [of ?i] len by auto
        have "key (xs ! parent ?i) \<le> key (xs ! ?i)" using ord [of ?i] i(1) j(2) len by auto
        moreover have "c \<noteq> j \<Longrightarrow> key (xs ! ?i) \<le> key (xs ! c)" using ord [of c] c i(2) by simp
        moreover have "c \<noteq> ?i" using i pi(2) by auto
        moreover have "?xs ! parent ?i = xs ! parent ?i" using nth [OF pi(1)] pi(2,3) by (simp only: if_False)
        moreover have "?xs ! c = (if c = j then xs ! ?i else xs ! c)"
          using nth [of c] c(2) calculation(3) by (simp only: length_swap if_False)
        ultimately show "key (?xs ! parent ?i) \<le> key (?xs ! c)"
          by (cases "c = j") (simp_all only: if_True if_False simp_thms order_trans)
      }
    qed
    with "1.IH" False len show ?thesis
      by (subst heap_up.simps) (auto simp: Let_def)
  qed
qed

lemma heap_down_mset: "\<lbrakk>i < n; n \<le> length xs\<rbrakk> \<Longrightarrow> mset (heap_down key i n xs) = mset xs \<and>
    (\<forall>c. n \<le> c \<longrightarrow> c < length xs \<longrightarrow> heap_down key i n xs ! c = xs ! c)"
proof (induction key i n xs rule: heap_down.induct)
  case (1 key i n xs)
  show ?case
    using 1 by (subst (1 2) heap_down.simps) (auto simp: Let_def nth_swap)
qed

lemma parent_iff: "0 < c \<Longrightarrow> parent c = i \<longleftrightarrow> c = 2 * i + 1 \<or> c = 2 * i + 2"
  by presburger

lemma heap_down_step:
  assumes "\<not> n \<le> 2 * i + 1"
    and "j = (if 2 * i + 1 + 1 < n \<and> key (xs ! (2 * i + 1 + 1)) < key (xs ! (2 * i + 1))
      then 2 * i + 1 + 1 else 2 * i + 1)"
  shows "heap_down key i n xs = (if key (xs ! j) < key (xs ! i) then heap_down key j n (swap i j xs) else xs)"
  by (subst heap_down.simps) (use assms in \<open>simp only: Let_def if_False not_not split: if_split\<close>, simp)

lemma heap_down_heap: "\<lbrakk>i < n; n \<le> length xs; down_inv key i n xs\<rbrakk> \<Longrightarrow> is_heap key n (heap_down key i n xs)"
proof (induction key i n xs rule: heap_down.induct)
  case (1 key i n xs)
  define j where "j = (if 2 * i + 1 + 1 < n \<and> key (xs ! (2 * i + 1 + 1)) < key (xs ! (2 * i + 1))
    then 2 * i + 1 + 1 else 2 * i + 1)"
  have ord: "parent c \<noteq> i \<Longrightarrow> 0 < c \<Longrightarrow> c < n \<Longrightarrow> key (xs ! parent c) \<le> key (xs ! c)"
    and gp: "0 < i \<Longrightarrow> 0 < c \<Longrightarrow> c < n \<Longrightarrow> parent c = i \<Longrightarrow> key (xs ! parent i) \<le> key (xs ! c)" for c
    using "1.prems"(3) unfolding down_inv_def by blast+
  show ?case
  proof (cases "n \<le> 2 * i + 1")
    case True
    then have "parent c \<noteq> i" if "0 < c" "c < n" for c
      using that by (subst parent_iff) auto
    with True ord show ?thesis
      by (subst heap_down.simps) (simp add: Let_def is_heap_def)
  next
    case False
    have j: "0 < j" "j < n" "parent j = i" "i < j" using False by (auto simp: j_def)
    have least: "key (xs ! j) \<le> key (xs ! c)" if "0 < c" "c < n" "parent c = i" for c
    proof -
      have "c = 2 * i + 1 \<or> c = 2 * i + 2" using that by (simp only: parent_iff)
      then show ?thesis using that(2) False by (auto simp: j_def)
    qed
    show ?thesis
    proof (cases "key (xs ! j) < key (xs ! i)")
      case no: False
      have "key (xs ! parent c) \<le> key (xs ! c)" if "0 < c" "c < n" for c
        using ord [of c] least [of c] no that by (cases "parent c = i") auto
      then show ?thesis
        using heap_down_step [OF False j_def] no by (simp add: is_heap_def)
    next
      case less: True
      let ?xs = "swap i j xs"
      note nth = nth_swap [of i xs j]
      have len: "i < length xs" "j < length xs" using j "1.prems" by auto
      have "down_inv key j n ?xs"
        unfolding down_inv_def
      proof (intro allI impI conjI)
        fix c assume c: "0 < c" "c < n"
        then have cl: "c < length xs" "parent c < length xs" "parent c < c" using "1.prems"(2) parent_less [of c] by auto
        {
          assume nj: "parent c \<noteq> j"
          consider "c = j" | "c = i" | "c \<noteq> i" "c \<noteq> j" by blast
          then show "key (?xs ! parent c) \<le> key (?xs ! c)"
          proof cases
            case 1
            then show ?thesis using j less len nth by simp
          next
            case 2
            then have "key (xs ! parent c) \<le> key (xs ! j)" using gp [of j] j c by simp
            moreover have "parent c \<noteq> i" using 2 cl(3) by simp
            ultimately show ?thesis using 2 nj len cl nth j(4) by simp
          next
            case 3
            then show ?thesis
              using nj len cl nth least [of c] ord [of c] c by (cases "parent c = i") simp_all
          qed
        }
        {
          assume "parent c = j"
          then have "c \<noteq> i" "c \<noteq> j" using cl(3) j(4) by auto
          moreover have "key (xs ! j) \<le> key (xs ! c)" using ord [of c] c j(4) \<open>parent c = j\<close> by simp
          ultimately show "key (?xs ! parent j) \<le> key (?xs ! c)"
            using j(3,4) len cl nth by simp
        }
      qed
      moreover have "heap_down key i n xs = heap_down key j n ?xs"
        using heap_down_step [OF False j_def] less by simp
      moreover have "is_heap key n (heap_down key j n ?xs)"
        by (rule "1.IH" [OF refl _ j_def]) (use False less j "1.prems" calculation(1) in auto)
      ultimately show ?thesis by simp
    qed
  qed
qed

lemma heap_least: "\<lbrakk>is_heap key (length xs) xs; c < length xs\<rbrakk> \<Longrightarrow> key (xs ! 0) \<le> key (xs ! c)"
proof (induction c rule: less_induct)
  case (less c)
  show ?case
  proof (cases "c = 0")
    case False
    then have "key (xs ! parent c) \<le> key (xs ! c)" using less.prems by (simp add: is_heap_def)
    moreover have "key (xs ! 0) \<le> key (xs ! parent c)"
      using less.IH [of "parent c"] less.prems parent_less [of c] False by simp
    ultimately show ?thesis by simp
  qed simp
qed

lemma heap_pop_parts:
  assumes "is_heap key (length xs) xs" and "xs \<noteq> []" and "heap_pop key xs = (x, ys)"
  shows "x = xs ! 0" and "mset xs = add_mset x (mset ys)" and "is_heap key (length ys) ys"
proof -
  define n where "n = length xs - 1"
  have n: "n < length xs" "length xs = Suc n" using assms(2) by (auto simp: n_def)
  let ?s = "swap 0 n xs"
  let ?d = "heap_down key 0 n ?s"
  have eq: "x = ?d ! n" "ys = take n ?d" using assms(3) by (simp_all add: heap_pop_def Let_def n_def)
  have s: "mset ?s = mset xs" "?s ! n = xs ! 0" using n by (auto simp: nth_swap)
  have d: "mset ?d = mset ?s \<and> ?d ! n = ?s ! n"
  proof (cases "n = 0")
    case True
    then show ?thesis by (subst (1 2) heap_down.simps) simp
  next
    case False
    then show ?thesis using heap_down_mset [of 0 n ?s key] n by simp
  qed
  then have len: "length ?d = Suc n" using n(2) by (metis length_swap size_mset)
  show x: "x = xs ! 0" using eq(1) d s(2) by simp
  have "?d = ys @ [x]" using eq len by (simp add: take_Suc_conv_app_nth [symmetric])
  then show "mset xs = add_mset x (mset ys)" using d s(1) by simp
  have ys: "length ys = n" using eq(2) len by simp
  show "is_heap key (length ys) ys"
  proof (cases "n = 0")
    case True
    then show ?thesis using ys by (simp add: is_heap_def)
  next
    case False
    have "down_inv key 0 n ?s"
      unfolding down_inv_def
    proof (intro allI impI conjI)
      fix c assume c: "0 < c" "c < n"
      show "key (?s ! parent c) \<le> key (?s ! c)" if "parent c \<noteq> 0"
      proof -
        have pc: "parent c < n" "parent c \<noteq> n" using c parent_less [of c] by auto
        then have "?s ! parent c = xs ! parent c" using that n nth_swap [of 0 xs n "parent c"] by (simp only: if_False)
        moreover have "?s ! c = xs ! c" using c n by (simp add: nth_swap)
        moreover have "key (xs ! parent c) \<le> key (xs ! c)" using assms(1) c n by (simp add: is_heap_def)
        ultimately show ?thesis by simp
      qed
    qed simp
    then have "is_heap key n ?d" using heap_down_heap [of 0 n ?s key] False n by simp
    then show ?thesis
      unfolding is_heap_def eq(2) by (auto simp: len)
  qed
qed

lemma heap_push_parts:
  assumes "is_heap key (length xs) xs"
  shows "mset (heap_push key x xs) = add_mset x (mset xs)"
    and "is_heap key (length (heap_push key x xs)) (heap_push key x xs)"
proof -
  show m: "mset (heap_push key x xs) = add_mset x (mset xs)"
    by (simp add: heap_push_def heap_up_mset)
  have "up_inv key (length xs) (xs @ [x])"
    unfolding up_inv_def
  proof (intro allI impI conjI)
    fix c assume c: "0 < c" "c < length (xs @ [x])"
    show "key ((xs @ [x]) ! parent c) \<le> key ((xs @ [x]) ! c)" if "c \<noteq> length xs"
      using that c assms parent_less [of c] by (simp add: is_heap_def nth_append)
    show "key ((xs @ [x]) ! parent (length xs)) \<le> key ((xs @ [x]) ! c)" if "parent c = length xs"
      using that c parent_less [of c] by simp
  qed
  from heap_up_heap [OF _ this] have "is_heap key (Suc (length xs)) (heap_push key x xs)"
    by (simp add: heap_push_def)
  moreover have "length (heap_push key x xs) = Suc (length xs)"
    using arg_cong [OF m, of size] by simp
  ultimately show "is_heap key (length (heap_push key x xs)) (heap_push key x xs)" by simp
qed

text \<open>The library heap is a minimum queue, whatever the elements are compared by.\<close>

interpretation go_heap: min_queue key "heap_push key" "heap_pop key" mset "\<lambda>xs. is_heap key (length xs) xs" for key
proof
  fix q x
  assume h: "is_heap key (length q) q"
  show "is_heap key (length (heap_push key x q)) (heap_push key x q)"
    and "mset (heap_push key x q) = add_mset x (mset q)"
    using heap_push_parts [OF h] by simp_all
next
  fix q x q' y
  assume h: "is_heap key (length q) q" and "mset q \<noteq> {#}" and pop: "heap_pop key q = (x, q')"
  then have ne: "q \<noteq> []" by simp
  note parts = heap_pop_parts [OF h ne pop]
  show "is_heap key (length q') q'" "mset q = add_mset x (mset q')" using parts by simp_all
  assume "y \<in># mset q"
  then obtain c where "c < length q" "y = q ! c" by (auto simp: in_set_conv_nth)
  then show "key x \<le> key y" using heap_least [OF h] parts(1) by simp
qed

text \<open>Lengths do not depend on the order.\<close>

lemma length_heap_up [simp]: "length (heap_up key j xs) = length xs"
  by (induction key j xs rule: heap_up.induct) (subst heap_up.simps, auto simp: Let_def)

lemma length_heap_down [simp]: "length (heap_down key i n xs) = length xs"
  by (induction key i n xs rule: heap_down.induct) (subst heap_down.simps, auto simp: Let_def)

lemma length_heap_push [simp]: "length (heap_push key x xs) = Suc (length xs)"
  by (simp add: heap_push_def)

lemma length_heap_pop: "xs \<noteq> [] \<Longrightarrow> heap_pop key xs = (x, ys) \<Longrightarrow> length xs = Suc (length ys)"
  by (cases xs) (auto simp: heap_pop_def Let_def)

end
