(* ===== verification/Spf_South.thy ===== *)
theory Spf_South
  imports Spf_North Go_Heap
begin

text \<open>
  Southbound reachability, \<open>src/internal/spf/southbound.go\<close>: the Dijkstra computation over the South
  Node TIEs, with the backlink check against the North Node TIEs, and the attachment of the North Prefix
  TIEs of the nodes reached. The field \<open>index\<close> of a queue item is written and never read, and left out.

  The main loop returns on every input, whatever the costs in the received TIEs: an item is pushed
  only when the signed 32-bit distance of a node decreases.
\<close>

section \<open>The computation\<close>

record spfNode =
  sn_systemID :: SystemIDType
  sn_distance :: MetricType
  sn_nextHops :: "NextHop list"

record pqItem =
  pq_systemID :: SystemIDType
  pq_distance :: MetricType

type_synonym dist_map = "(SystemIDType, spfNode) gomap"

definition pq_key :: "pqItem \<Rightarrow> int" where
  "pq_key item = sint (pq_distance item)"

definition adj_by_neighbor :: "(string, AdjacencyInfo) gomap \<Rightarrow> (SystemIDType, AdjacencyInfo) gomap" where
  "adj_by_neighbor adjacencies = fold (\<lambda>(_, adj) m. gm_put (ai_NeighborID adj) adj m) adjacencies []"

definition is_overloaded :: "NodeTIEElement \<Rightarrow> bool" where
  "is_overloaded node =
     (case nt_Flags node of None \<Rightarrow> False
      | Some flags \<Rightarrow> (case nf_Overload flags of None \<Rightarrow> False | Some b \<Rightarrow> b))"

text \<open>
  The body of the loop over the neighbors of the South Node TIE of \<open>current\<close>. \<open>nextHops\<close> are those
  of the pointer \<open>node\<close> taken from the map before the loop (merging a next-hop list into itself does
  not change it, so nothing in the loop does).
\<close>

definition relax ::
  "SystemIDType \<Rightarrow> (SystemIDType, AdjacencyInfo) gomap \<Rightarrow> (TIEID, LSDBEntry) gomap \<Rightarrow> NodeTIEElement \<Rightarrow>
   SystemIDType \<Rightarrow> MetricType \<Rightarrow> NextHop list \<Rightarrow> SystemIDType \<times> NodeNeighborsTIEElement \<Rightarrow>
   dist_map \<times> pqItem list \<Rightarrow> dist_map \<times> pqItem list" where
  "relax systemID adjByNeighbor entries southNode current currentDist nodeHops = (\<lambda>(neighborID, neighborEntry) (dist, pq).
     if sle (nt_Level southNode) (nn_Level neighborEntry) then (dist, pq)
     else case FindNodeTIE entries TieDirectionNorth neighborID of
         None \<Rightarrow> (dist, pq)
       | Some neighborNorthNode \<Rightarrow>
           if gm_get (nt_Neighbors neighborNorthNode) current = None then (dist, pq)
           else
             (let newDist = currentDist + LinkCost neighborEntry;
                  hops = (if current = systemID then
                      (case gm_get adjByNeighbor neighborID of
                         None \<Rightarrow> None
                       | Some adj \<Rightarrow> Some [\<lparr>nh_NeighborID = neighborID, nh_Address = ai_NeighborAddr adj,
                           nh_Interface = ai_InterfaceName adj\<rparr>])
                    else Some nodeHops)
              in case hops of
                   None \<Rightarrow> (dist, pq)
                 | Some nextHops \<Rightarrow>
                     let fresh = (gm_put neighborID \<lparr>sn_systemID = neighborID, sn_distance = newDist,
                           sn_nextHops = nextHops\<rparr> dist,
                         heap_push pq_key \<lparr>pq_systemID = neighborID, pq_distance = newDist\<rparr> pq)
                     in (case gm_get dist neighborID of
                           None \<Rightarrow> fresh
                         | Some existing \<Rightarrow>
                             if slt newDist (sn_distance existing) then fresh
                             else if newDist = sn_distance existing then
                               (gm_put neighborID (existing\<lparr>sn_nextHops :=
                                  MergeNextHops (sn_nextHops existing) nextHops\<rparr>) dist, pq)
                             else (dist, pq))))"

text \<open>One round of the main loop, with a queue that is not empty.\<close>

definition south_step ::
  "SystemIDType \<Rightarrow> (SystemIDType, AdjacencyInfo) gomap \<Rightarrow> (TIEID, LSDBEntry) gomap \<Rightarrow>
   dist_map \<times> pqItem list \<Rightarrow> dist_map \<times> pqItem list" where
  "south_step systemID adjByNeighbor entries = (\<lambda>(dist, pq).
     let (item, pq) = heap_pop pq_key pq;
         current = pq_systemID item; currentDist = pq_distance item
     in case gm_get dist current of
          None \<Rightarrow> (dist, pq)
        | Some node \<Rightarrow>
            if slt (sn_distance node) currentDist then (dist, pq)
            else case FindNodeTIE entries TieDirectionSouth current of
                None \<Rightarrow> (dist, pq)
              | Some southNode \<Rightarrow>
                  if is_overloaded southNode then (dist, pq)
                  else fold (relax systemID adjByNeighbor entries southNode current currentDist (sn_nextHops node))
                    (nt_Neighbors southNode) (dist, pq))"

section \<open>The loop returns\<close>

definition listed_nodes :: "(TIEID, LSDBEntry) gomap \<Rightarrow> SystemIDType set" where
  "listed_nodes entries =
     (\<Union>e \<in> snd ` set entries. case el_Node (tie_Element (le_Packet e)) of
        None \<Rightarrow> {} | Some n \<Rightarrow> set (gm_keys (nt_Neighbors n)))"

definition slot :: "dist_map \<Rightarrow> SystemIDType \<Rightarrow> nat" where
  "slot dist v = (case gm_get dist v of None \<Rightarrow> 2 ^ 32 | Some n \<Rightarrow> nat (sint (sn_distance n) + 2 ^ 31))"

definition work :: "(TIEID, LSDBEntry) gomap \<Rightarrow> dist_map \<times> pqItem list \<Rightarrow> nat" where
  "work entries = (\<lambda>(dist, pq). 2 * (\<Sum>v \<in> listed_nodes entries. slot dist v) + length pq)"

lemma finite_listed_nodes [simp]: "finite (listed_nodes entries)"
  by (auto simp: listed_nodes_def split: option.split)

lemma FindNodeTIE_listed:
  assumes "FindNodeTIE entries dir orig = Some node" and "(v, e) \<in> set (nt_Neighbors node)"
  shows "v \<in> listed_nodes entries"
proof -
  obtain entry where "gm_get entries (TIEID dir orig TIETypeNodeTIEType 1) = Some entry"
    "el_Node (tie_Element (le_Packet entry)) = Some node"
    using assms(1) by (auto simp: FindNodeTIE_def split: option.splits)
  moreover from this(1) have "entry \<in> snd ` set entries"
    by (force dest: gm_get_inD)
  ultimately show ?thesis
    using assms(2) by (force simp: listed_nodes_def gm_keys_def)
qed

lemma slot_put_less:
  assumes "v \<in> U" and "finite U"
    and "case gm_get dist v of None \<Rightarrow> True | Some n \<Rightarrow> slt (sn_distance m) (sn_distance n)"
  shows "(\<Sum>u \<in> U. slot (gm_put v m dist) u) < (\<Sum>u \<in> U. slot dist u)"
proof (rule sum_strict_mono_ex1 [OF assms(2)])
  have b: "- (2 ^ 31) \<le> sint (w :: int32)" "sint w < 2 ^ 31" for w
    using sint_ge [of w] sint_lt [of w] by simp_all
  then have less: "slot (gm_put v m dist) v < slot dist v"
  proof (cases "gm_get dist v")
    case None
    then show ?thesis using b [of "sn_distance m"] by (simp add: slot_def gm_get_put nat_less_iff)
  next
    case (Some n)
    then show ?thesis
      using assms(3) b(1) [of "sn_distance m"] b(1) [of "sn_distance n"] by (simp add: slot_def gm_get_put)
  qed
  moreover have "slot (gm_put v m dist) u = slot dist u" if "u \<noteq> v" for u
    using that by (simp add: slot_def gm_get_put)
  ultimately show "\<forall>u \<in> U. slot (gm_put v m dist) u \<le> slot dist u"
    by (metis less_or_eq_imp_le)
  show "\<exists>u \<in> U. slot (gm_put v m dist) u < slot dist u"
    using assms(1) less by blast
qed

lemma slot_put_same:
  "gm_get dist v = Some n \<Longrightarrow> sn_distance m = sn_distance n \<Longrightarrow> slot (gm_put v m dist) u = slot dist u"
  by (simp add: slot_def gm_get_put)

lemma relax_work:
  assumes "v \<in> listed_nodes entries"
  shows "work entries (relax systemID adjs entries southNode current d hops (v, e) (dist, pq)) \<le> work entries (dist, pq)"
proof -
  have fresh: "work entries (gm_put v \<lparr>sn_systemID = v, sn_distance = nd, sn_nextHops = hs\<rparr> dist, heap_push pq_key i pq) \<le>
      work entries (dist, pq)"
    if "case gm_get dist v of None \<Rightarrow> True | Some n \<Rightarrow> slt nd (sn_distance n)" for nd hs i
    using slot_put_less [OF assms finite_listed_nodes,
        where dist = dist and m = "\<lparr>sn_systemID = v, sn_distance = nd, sn_nextHops = hs\<rparr>"] that
    by (cases "gm_get dist v") (auto simp: work_def)
  have merge: "work entries (gm_put v (n\<lparr>sn_nextHops := hs\<rparr>) dist, pq) = work entries (dist, pq)"
    if "gm_get dist v = Some n" for n hs
    using slot_put_same [OF that, of "n\<lparr>sn_nextHops := hs\<rparr>"] by (simp add: work_def)
  show ?thesis
    using fresh merge by (simp add: relax_def Let_def split: option.split)
qed

lemma relaxes_work:
  "fst ` set ns \<subseteq> listed_nodes entries \<Longrightarrow>
   work entries (fold (relax systemID adjs entries southNode current d hops) ns s) \<le> work entries s"
proof (induction ns arbitrary: s)
  case (Cons n ns)
  obtain v e where n: "n = (v, e)" by (cases n)
  obtain dist pq where s: "s = (dist, pq)" by (cases s)
  show ?case
    using Cons.IH [of "relax systemID adjs entries southNode current d hops n s"] Cons.prems
      relax_work [of v entries systemID adjs southNode current d hops e dist pq]
    by (simp add: n s)
qed simp

lemma south_step_work:
  assumes "pq \<noteq> []"
  shows "work entries (south_step systemID adjs entries (dist, pq)) < work entries (dist, pq)"
proof -
  obtain item pq' where pop: "heap_pop pq_key pq = (item, pq')" by fastforce
  have "length pq = Suc (length pq')" using assms pop by (rule length_heap_pop)
  then have less: "work entries (dist, pq') < work entries (dist, pq)" by (simp add: work_def)
  moreover have "work entries (fold (relax systemID adjs entries node c d hops) (nt_Neighbors node) (dist, pq')) \<le>
      work entries (dist, pq')" if "FindNodeTIE entries TieDirectionSouth c = Some node" for node c d hops
    using FindNodeTIE_listed [OF that] by (intro relaxes_work) auto
  ultimately show ?thesis
    by (auto simp: south_step_def pop Let_def split: option.split) (meson le_less_trans)
qed

text \<open>\<open>for pq.Len() > 0 { ... }\<close>\<close>

function south_loop ::
  "SystemIDType \<Rightarrow> (SystemIDType, AdjacencyInfo) gomap \<Rightarrow> (TIEID, LSDBEntry) gomap \<Rightarrow>
   dist_map \<times> pqItem list \<Rightarrow> dist_map" where
  "south_loop systemID adjs entries s =
     (if snd s = [] then fst s else south_loop systemID adjs entries (south_step systemID adjs entries s))"
  by pat_completeness auto
termination
  by (relation "measure (\<lambda>(_, _, entries, s). work entries s)") (auto simp: south_step_work split_paired_all)

declare south_loop.simps [simp del]

definition south_init :: "SystemIDType \<Rightarrow> dist_map \<times> pqItem list" where
  "south_init systemID =
     (gm_put systemID \<lparr>sn_systemID = systemID, sn_distance = 0, sn_nextHops = []\<rparr> [],
      heap_push pq_key \<lparr>pq_systemID = systemID, pq_distance = 0\<rparr> [])"

definition south_dist ::
  "SystemIDType \<Rightarrow> (string, AdjacencyInfo) gomap \<Rightarrow> (TIEID, LSDBEntry) gomap \<Rightarrow> dist_map" where
  "south_dist systemID adjacencies entries =
     south_loop systemID (adj_by_neighbor adjacencies) entries (south_init systemID)"

definition ComputeSouthbound ::
  "SystemIDType \<Rightarrow> LevelType \<Rightarrow> (string, AdjacencyInfo) gomap \<Rightarrow> (TIEID, LSDBEntry) gomap \<Rightarrow> RIB" where
  "ComputeSouthbound systemID level adjacencies entries =
     fold (\<lambda>(nodeID, node) rib.
       if nodeID = systemID then rib
       else if sn_nextHops node = [] then rib
       else attach_prefixes (sn_distance node) RouteTypeNorthPrefix (sn_nextHops node)
         (FindPrefixTIEs entries TieDirectionNorth nodeID) rib)
       (south_dist systemID adjacencies entries) []"

end
