(* ===== verification/Spf_Dijkstra.thy ===== *)
theory Spf_Dijkstra
  imports Spf_South
begin

text \<open>
  The Dijkstra computation of \<open>Spf_South\<close> finds the shortest walks: an invariant over the settled
  nodes, which every round keeps, as long as the costs are positive and no sum leaves 32 bits.
\<close>

section \<open>Walks\<close>

text \<open>A walk from \<open>self\<close> to a node, with its cost and its first hop.\<close>

inductive walk :: "('v \<Rightarrow> 'v \<Rightarrow> int \<Rightarrow> bool) \<Rightarrow> 'v \<Rightarrow> 'v \<Rightarrow> int \<Rightarrow> 'v \<Rightarrow> bool" for edge self where
  walk_first: "edge self v c \<Longrightarrow> walk edge self v c v"
| walk_step: "\<lbrakk>walk edge self u d h; edge u v c\<rbrakk> \<Longrightarrow> walk edge self v (d + c) h"

definition shortest :: "('v \<Rightarrow> 'v \<Rightarrow> int \<Rightarrow> bool) \<Rightarrow> 'v \<Rightarrow> 'v \<Rightarrow> int \<Rightarrow> bool" where
  "shortest edge self v d \<longleftrightarrow>
     (if v = self then d = 0
      else (\<exists>h. walk edge self v d h) \<and> (\<forall>d' h. walk edge self v d' h \<longrightarrow> d \<le> d'))"

lemma walk_pos:
  assumes "\<And>u v c. edge u v c \<Longrightarrow> 0 < c" and "walk edge self v d h"
  shows "0 < d"
  using assms(2) by induction (use assms(1) in \<open>force+\<close>)

lemma shortest_le:
  assumes "\<And>u v c. edge u v c \<Longrightarrow> 0 < c" and "shortest edge self v d" and "walk edge self v d' h"
  shows "d \<le> d'"
proof -
  have "0 < d'" using walk_pos [of edge self v d' h] assms(1,3) by blast
  then show ?thesis using assms(2,3) by (auto simp: shortest_def split: if_splits)
qed

section \<open>The graph of the computation\<close>

definition south_edge ::
  "SystemIDType \<Rightarrow> (SystemIDType, AdjacencyInfo) gomap \<Rightarrow> (TIEID, LSDBEntry) gomap \<Rightarrow>
   SystemIDType \<Rightarrow> SystemIDType \<Rightarrow> int \<Rightarrow> bool" where
  "south_edge self adjs entries u v c \<longleftrightarrow>
     (\<exists>south north e. FindNodeTIE entries TieDirectionSouth u = Some south \<and> \<not> is_overloaded south \<and>
        (v, e) \<in> set (nt_Neighbors south) \<and> slt (nn_Level e) (nt_Level south) \<and>
        FindNodeTIE entries TieDirectionNorth v = Some north \<and> gm_get (nt_Neighbors north) u \<noteq> None \<and>
        c = sint (LinkCost e) \<and> (u = self \<longrightarrow> gm_get adjs v \<noteq> None))"

definition hop_to :: "SystemIDType \<Rightarrow> AdjacencyInfo \<Rightarrow> NextHop" where
  "hop_to v adj = \<lparr>nh_NeighborID = v, nh_Address = ai_NeighborAddr adj, nh_Interface = ai_InterfaceName adj\<rparr>"

definition hop_ok :: "(SystemIDType, AdjacencyInfo) gomap \<Rightarrow> NextHop \<Rightarrow> bool" where
  "hop_ok adjs nh \<longleftrightarrow> (\<exists>adj. gm_get adjs (nh_NeighborID nh) = Some adj \<and> nh = hop_to (nh_NeighborID nh) adj)"

abbreviation sdist :: "spfNode \<Rightarrow> int" where "sdist n \<equiv> sint (sn_distance n)"

section \<open>The invariant\<close>

text \<open>
  \<open>S\<close> are the settled nodes, \<open>R\<close> the edges out of them that have been relaxed. The hops that the
  edge from \<open>u\<close> to \<open>v\<close> passes on are \<open>v\<close> itself when \<open>u\<close> is this node, else those of \<open>u\<close>.
\<close>

definition passed :: "SystemIDType \<Rightarrow> SystemIDType \<Rightarrow> spfNode \<Rightarrow> SystemIDType \<Rightarrow> SystemIDType set" where
  "passed self u n v = (if u = self then {v} else nh_ids (sn_nextHops n))"

definition dist_ok :: "(SystemIDType \<Rightarrow> SystemIDType \<Rightarrow> int \<Rightarrow> bool) \<Rightarrow> SystemIDType \<Rightarrow>
    (SystemIDType, AdjacencyInfo) gomap \<Rightarrow> dist_map \<Rightarrow> bool" where
  "dist_ok E self adjs dist \<longleftrightarrow>
     (\<exists>n. gm_get dist self = Some n \<and> sdist n = 0) \<and>
     (\<forall>v n. gm_get dist v = Some n \<longrightarrow> v \<noteq> self \<longrightarrow> (\<exists>h. walk E self v (sdist n) h) \<and>
        (\<forall>nh \<in> set (sn_nextHops n). walk E self v (sdist n) (nh_NeighborID nh) \<and> hop_ok adjs nh))"

definition queue_ok :: "SystemIDType set \<Rightarrow> dist_map \<Rightarrow> pqItem multiset \<Rightarrow> bool" where
  "queue_ok S dist Q \<longleftrightarrow>
     (\<forall>v n. gm_get dist v = Some n \<longrightarrow> v \<notin> S \<longrightarrow> \<lparr>pq_systemID = v, pq_distance = sn_distance n\<rparr> \<in># Q) \<and>
     (\<forall>i \<in># Q. \<exists>n. gm_get dist (pq_systemID i) = Some n \<and> sdist n \<le> pq_key i) \<and>
     (\<forall>i \<in># Q. \<forall>u \<in> S. \<forall>n. gm_get dist u = Some n \<longrightarrow> sdist n \<le> pq_key i)"

definition relaxed_ok :: "(SystemIDType \<Rightarrow> SystemIDType \<Rightarrow> int \<Rightarrow> bool) \<Rightarrow> SystemIDType \<Rightarrow> SystemIDType set \<Rightarrow>
    (SystemIDType \<Rightarrow> SystemIDType \<Rightarrow> int \<Rightarrow> bool) \<Rightarrow> dist_map \<Rightarrow> bool" where
  "relaxed_ok E self S R dist \<longleftrightarrow>
     (\<forall>u \<in> S. \<exists>n. gm_get dist u = Some n \<and> shortest E self u (sdist n)) \<and>
     (\<forall>u v c. R u v c \<longrightarrow> u \<in> S \<and> (\<forall>nu. gm_get dist u = Some nu \<longrightarrow>
        (\<exists>nv. gm_get dist v = Some nv \<and> sdist nv \<le> sdist nu + c \<and>
           (sdist nv = sdist nu + c \<longrightarrow> passed self u nu v \<subseteq> nh_ids (sn_nextHops nv)))))"

definition spf_inv :: "(SystemIDType \<Rightarrow> SystemIDType \<Rightarrow> int \<Rightarrow> bool) \<Rightarrow> SystemIDType \<Rightarrow>
    (SystemIDType, AdjacencyInfo) gomap \<Rightarrow> SystemIDType set \<Rightarrow> (SystemIDType \<Rightarrow> SystemIDType \<Rightarrow> int \<Rightarrow> bool) \<Rightarrow>
    dist_map \<Rightarrow> pqItem multiset \<Rightarrow> bool" where
  "spf_inv E self adjs S R dist Q \<longleftrightarrow>
     dist_ok E self adjs dist \<and> queue_ok S dist Q \<and> relaxed_ok E self S R dist"

section \<open>Relaxing an edge\<close>

text \<open>A new entry for an unsettled node keeps the invariant, if it is not above the old one.\<close>

lemma put_inv:
  assumes inv: "spf_inv E self adjs S R dist Q" and v: "v \<notin> S" "v \<noteq> self"
    and walks: "\<exists>h. walk E self v (sdist m) h"
      "\<forall>nh \<in> set (sn_nextHops m). walk E self v (sdist m) (nh_NeighborID nh) \<and> hop_ok adjs nh"
    and old: "\<And>n. gm_get dist v = Some n \<Longrightarrow> sdist m \<le> sdist n \<and>
      (sdist m = sdist n \<longrightarrow> nh_ids (sn_nextHops n) \<subseteq> nh_ids (sn_nextHops m))"
    and queue: "\<lparr>pq_systemID = v, pq_distance = sn_distance m\<rparr> \<in># Q'" "Q \<subseteq># Q'"
      "\<And>i. i \<in># Q' \<Longrightarrow> i \<in># Q \<or> i = \<lparr>pq_systemID = v, pq_distance = sn_distance m\<rparr>"
    and settled: "\<And>u n. u \<in> S \<Longrightarrow> gm_get dist u = Some n \<Longrightarrow> sdist n \<le> sdist m"
  shows "spf_inv E self adjs S R (gm_put v m dist) Q'"
proof -
  have get: "gm_get (gm_put v m dist) w = (if w = v then Some m else gm_get dist w)" for w
    by (simp add: gm_get_put)
  have d: "dist_ok E self adjs dist" and q: "queue_ok S dist Q" and r: "relaxed_ok E self S R dist"
    using inv by (simp_all add: spf_inv_def)
  have "dist_ok E self adjs (gm_put v m dist)"
    using d v(2) walks unfolding dist_ok_def get by auto
  moreover have "queue_ok S (gm_put v m dist) Q'"
    unfolding queue_ok_def get
  proof (intro conjI allI impI ballI)
    fix w n assume w: "(if w = v then Some m else gm_get dist w) = Some n" "w \<notin> S"
    show "\<lparr>pq_systemID = w, pq_distance = sn_distance n\<rparr> \<in># Q'"
    proof (cases "w = v")
      case False
      then have "\<lparr>pq_systemID = w, pq_distance = sn_distance n\<rparr> \<in># Q" using q w by (simp add: queue_ok_def)
      with queue(2) show ?thesis by (rule mset_subset_eqD)
    qed (use w queue(1) in simp)
  next
    fix i assume "i \<in># Q'"
    then consider "i \<in># Q" | "i = \<lparr>pq_systemID = v, pq_distance = sn_distance m\<rparr>" using queue(3) by blast
    then show "\<exists>n. (if pq_systemID i = v then Some m else gm_get dist (pq_systemID i)) = Some n \<and> sdist n \<le> pq_key i"
    proof cases
      case 1
      then obtain n where n: "gm_get dist (pq_systemID i) = Some n" "sdist n \<le> pq_key i"
        using q unfolding queue_ok_def by blast
      with old show ?thesis by (cases "pq_systemID i = v") force+
    qed (simp add: pq_key_def)
  next
    fix i u n assume i: "i \<in># Q'" and u: "u \<in> S" "(if u = v then Some m else gm_get dist u) = Some n"
    then have n: "gm_get dist u = Some n" using v(1) by (auto split: if_splits)
    show "sdist n \<le> pq_key i"
    proof (cases "i \<in># Q")
      case True
      then show ?thesis using q u(1) n unfolding queue_ok_def by blast
    next
      case False
      then have "i = \<lparr>pq_systemID = v, pq_distance = sn_distance m\<rparr>" using queue(3) i by blast
      then show ?thesis using settled [OF u(1) n] by (simp add: pq_key_def)
    qed
  qed
  moreover have "relaxed_ok E self S R (gm_put v m dist)"
    unfolding relaxed_ok_def
  proof (intro conjI ballI allI impI)
    fix u assume "u \<in> S"
    then show "\<exists>n. gm_get (gm_put v m dist) u = Some n \<and> shortest E self u (sdist n)"
      using r v(1) unfolding relaxed_ok_def get by auto
  next
    fix u w c assume "R u w c"
    then show "u \<in> S" using r unfolding relaxed_ok_def by blast
  next
    fix u w c nu assume R: "R u w c" and nu: "gm_get (gm_put v m dist) u = Some nu"
    have "u \<in> S" using r R unfolding relaxed_ok_def by blast
    then have u: "gm_get dist u = Some nu" using nu v(1) unfolding get by (auto split: if_splits)
    then obtain nw where nw: "gm_get dist w = Some nw" "sdist nw \<le> sdist nu + c"
      "sdist nw = sdist nu + c \<longrightarrow> passed self u nu w \<subseteq> nh_ids (sn_nextHops nw)"
      using r R unfolding relaxed_ok_def by blast
    show "\<exists>nv. gm_get (gm_put v m dist) w = Some nv \<and> sdist nv \<le> sdist nu + c \<and>
        (sdist nv = sdist nu + c \<longrightarrow> passed self u nu w \<subseteq> nh_ids (sn_nextHops nv))"
    proof (cases "w = v")
      case True
      then show ?thesis using old [of nw] nw unfolding get by auto
    next
      case False
      then show ?thesis using nw unfolding get by auto
    qed
  qed
  ultimately show ?thesis by (simp add: spf_inv_def)
qed

lemma relaxed_more:
  assumes "spf_inv E self adjs S R dist Q" and "u \<in> S"
    and "\<And>nu. gm_get dist u = Some nu \<Longrightarrow> \<exists>nv. gm_get dist v = Some nv \<and> sdist nv \<le> sdist nu + c \<and>
      (sdist nv = sdist nu + c \<longrightarrow> passed self u nu v \<subseteq> nh_ids (sn_nextHops nv))"
  shows "spf_inv E self adjs S (\<lambda>x y d. R x y d \<or> x = u \<and> y = v \<and> d = c) dist Q"
  using assms unfolding spf_inv_def relaxed_ok_def by (metis (no_types, lifting))

text \<open>
  The edges out of the node that was popped: what one call of \<open>relax\<close> does to the invariant. The new
  hops are those the edge passes on.
\<close>

definition relax_to :: "SystemIDType \<Rightarrow> MetricType \<Rightarrow> NextHop list \<Rightarrow> dist_map \<times> pqItem list \<Rightarrow> dist_map \<times> pqItem list" where
  "relax_to v newDist nextHops = (\<lambda>(dist, pq).
     let fresh = (gm_put v \<lparr>sn_systemID = v, sn_distance = newDist, sn_nextHops = nextHops\<rparr> dist,
           heap_push pq_key \<lparr>pq_systemID = v, pq_distance = newDist\<rparr> pq)
     in case gm_get dist v of
          None \<Rightarrow> fresh
        | Some existing \<Rightarrow>
            if slt newDist (sn_distance existing) then fresh
            else if newDist = sn_distance existing then
              (gm_put v (existing\<lparr>sn_nextHops := MergeNextHops (sn_nextHops existing) nextHops\<rparr>) dist, pq)
            else (dist, pq))"

definition usable :: "SystemIDType \<Rightarrow> (SystemIDType, AdjacencyInfo) gomap \<Rightarrow> (TIEID, LSDBEntry) gomap \<Rightarrow>
    NodeTIEElement \<Rightarrow> SystemIDType \<Rightarrow> SystemIDType \<Rightarrow> NodeNeighborsTIEElement \<Rightarrow> bool" where
  "usable self adjs entries south u v e \<longleftrightarrow>
     slt (nn_Level e) (nt_Level south) \<and>
     (\<exists>north. FindNodeTIE entries TieDirectionNorth v = Some north \<and> gm_get (nt_Neighbors north) u \<noteq> None) \<and>
     (u = self \<longrightarrow> gm_get adjs v \<noteq> None)"

lemma relax_eq:
  "relax self adjs entries south u d hops (v, e) s =
   (if usable self adjs entries south u v e
    then relax_to v (d + LinkCost e) (if u = self then [hop_to v (the (gm_get adjs v))] else hops) s else s)"
proof -
  obtain dist pq where s: "s = (dist, pq)" by (cases s)
  show ?thesis
    unfolding relax_def relax_to_def hop_to_def usable_def s by (auto simp: Let_def split: option.splits)
qed

lemma south_edge_usable:
  assumes "FindNodeTIE entries TieDirectionSouth u = Some south" and "\<not> is_overloaded south"
  shows "south_edge self adjs entries u v c \<longleftrightarrow>
    (\<exists>e. (v, e) \<in> set (nt_Neighbors south) \<and> usable self adjs entries south u v e \<and> c = sint (LinkCost e))"
  using assms by (auto simp: south_edge_def usable_def)

lemma relax_to_inv:
  assumes inv: "spf_inv E self adjs S R dist (mset pq)" and heap: "is_heap pq_key (length pq) pq"
    and u: "u \<in> S" "gm_get dist u = Some nu" "\<And>w n. w \<in> S \<Longrightarrow> gm_get dist w = Some n \<Longrightarrow> sdist n \<le> sdist nu"
    and edge: "E u v c" and pos: "\<And>u v c. E u v c \<Longrightarrow> 0 < c"
    and newDist: "sint newDist = sdist nu + c"
    and hops: "nh_ids nhs = passed self u nu v" "\<forall>nh \<in> set nhs. hop_ok adjs nh"
    and res: "relax_to v newDist nhs (dist, pq) = (dist', pq')"
  shows "spf_inv E self adjs S (\<lambda>x y d. R x y d \<or> x = u \<and> y = v \<and> d = c) dist' (mset pq') \<and>
    is_heap pq_key (length pq') pq' \<and> (\<forall>w \<in> S. gm_get dist' w = gm_get dist w)"
proof -
  have d: "dist_ok E self adjs dist" and r: "relaxed_ok E self S R dist"
    using inv by (simp_all add: spf_inv_def)
  have c: "0 < c" using edge by (rule pos)
  have self0: "u = self \<Longrightarrow> sdist nu = 0" using d u(2) by (auto simp: dist_ok_def)
  have nonneg: "0 \<le> sdist nu"
    using d u(2) walk_pos [of E self u] pos unfolding dist_ok_def by (cases "u = self") (force simp: self0)+
  have walkv: "walk E self v (sint newDist) (nh_NeighborID nh)" if "nh \<in> set nhs" for nh
  proof (cases "u = self")
    case True
    then have "nh_NeighborID nh = v" using that hops(1) by (auto simp: passed_def)
    then show ?thesis using True edge self0 newDist walk_first [of E self v c] by simp
  next
    case False
    then have "nh_NeighborID nh \<in> nh_ids (sn_nextHops nu)" using that hops(1) by (auto simp: passed_def)
    then have "walk E self u (sdist nu) (nh_NeighborID nh)" using d u(2) False by (auto simp: dist_ok_def)
    then show ?thesis unfolding newDist using edge by (rule walk_step)
  qed
  have walkex: "\<exists>h. walk E self v (sint newDist) h"
  proof (cases "u = self")
    case True
    then show ?thesis using edge self0 newDist walk_first [of E self v c] by auto
  next
    case False
    then obtain h where "walk E self u (sdist nu) h" using d u(2) unfolding dist_ok_def by blast
    then show ?thesis unfolding newDist using edge walk_step by metis
  qed
  have above: "v \<notin> S \<and> v \<noteq> self"
    if "case gm_get dist v of None \<Rightarrow> True | Some n \<Rightarrow> sint newDist \<le> sdist n"
  proof -
    have "\<exists>n. gm_get dist self = Some n \<and> sdist n = 0" using d by (simp add: dist_ok_def)
    then have "v \<noteq> self" using that newDist nonneg c by auto
    moreover have "v \<notin> S"
    proof
      assume "v \<in> S"
      then obtain n where n: "gm_get dist v = Some n" using r by (auto simp: relaxed_ok_def)
      then show False using u(3) [OF \<open>v \<in> S\<close> n] that newDist c by simp
    qed
    ultimately show ?thesis by simp
  qed
  have settled: "sdist n \<le> sint newDist" if "w \<in> S" "gm_get dist w = Some n" for w n
    using u(3) [OF that] newDist c by simp
  have "spf_inv E self adjs S R dist' (mset pq') \<and> is_heap pq_key (length pq') pq' \<and>
      (\<forall>w \<in> S. gm_get dist' w = gm_get dist w) \<and>
      (\<exists>nv. gm_get dist' v = Some nv \<and> sdist nv \<le> sint newDist \<and>
        (sdist nv = sint newDist \<longrightarrow> nh_ids nhs \<subseteq> nh_ids (sn_nextHops nv)))"
  proof (cases "case gm_get dist v of None \<Rightarrow> True | Some n \<Rightarrow> slt newDist (sn_distance n)")
    case True
    let ?m = "\<lparr>sn_systemID = v, sn_distance = newDist, sn_nextHops = nhs\<rparr>"
    let ?i = "\<lparr>pq_systemID = v, pq_distance = newDist\<rparr>"
    have eq: "dist' = gm_put v ?m dist" "pq' = heap_push pq_key ?i pq"
      using res True by (auto simp: relax_to_def Let_def split: option.splits)
    have pq': "mset pq' = add_mset ?i (mset pq)" "is_heap pq_key (length pq') pq'"
      using go_heap.items_push [OF heap] go_heap.invar_push [OF heap] eq(2) by simp_all
    have v: "v \<notin> S" "v \<noteq> self" using above True by (auto split: option.splits)
    have "spf_inv E self adjs S R (gm_put v ?m dist) (mset pq')"
      by (rule put_inv [OF inv v]) (use walkv walkex hops(2) True settled pq'(1) in auto)
    then show ?thesis using eq pq'(2) v(1) by (auto simp: gm_get_put)
  next
    case False
    then obtain n where n: "gm_get dist v = Some n" "\<not> slt newDist (sn_distance n)" by (auto split: option.splits)
    show ?thesis
    proof (cases "newDist = sn_distance n")
      case True
      let ?m = "n\<lparr>sn_nextHops := MergeNextHops (sn_nextHops n) nhs\<rparr>"
      have eq: "dist' = gm_put v ?m dist" "pq' = pq"
        using res True n by (auto simp: relax_to_def Let_def)
      have v: "v \<notin> S" "v \<noteq> self" using above True n(1) by auto
      have old: "walk E self v (sdist n) (nh_NeighborID nh) \<and> hop_ok adjs nh" if "nh \<in> set (sn_nextHops n)" for nh
        using d n(1) v(2) that by (auto simp: dist_ok_def)
      have "\<lparr>pq_systemID = v, pq_distance = sn_distance n\<rparr> \<in># mset pq"
        using inv n(1) v(1) by (auto simp: spf_inv_def queue_ok_def)
      moreover have "walk E self v (sdist n) (nh_NeighborID nh) \<and> hop_ok adjs nh"
        if "nh \<in> set (MergeNextHops (sn_nextHops n) nhs)" for nh
        using that set_merge [of "sn_nextHops n" nhs] old walkv hops(2) True by auto
      ultimately have "spf_inv E self adjs S R (gm_put v ?m dist) (mset pq)"
        by (intro put_inv [OF inv v]) (use walkex n(1) settled True in auto)
      then show ?thesis using eq heap v(1) True by (auto simp: gm_get_put)
    next
      case False
      then have "dist' = dist" "pq' = pq"
        using res n by (auto simp: relax_to_def Let_def)
      moreover have "sdist n < sint newDist" using n(2) False by (auto simp: sint_eq_iff [symmetric])
      ultimately show ?thesis using inv heap n(1) by auto
    qed
  qed
  then show ?thesis
    using relaxed_more [of E self adjs S R dist' "mset pq'" u v c] u(1,2) newDist hops(1) by auto
qed

section \<open>A round of the main loop\<close>

text \<open>The costs are positive, and the sums at the shortest distances stay in 32 bits.\<close>

definition costs_ok :: "(SystemIDType \<Rightarrow> SystemIDType \<Rightarrow> int \<Rightarrow> bool) \<Rightarrow> SystemIDType \<Rightarrow> bool" where
  "costs_ok E self \<longleftrightarrow> (\<forall>u v c. E u v c \<longrightarrow> 0 < c) \<and>
     (\<forall>u v c d. shortest E self u d \<longrightarrow> E u v c \<longrightarrow> d + c < 2 ^ 31)"

lemma sint_sum:
  assumes "0 \<le> sint (a :: int32)" and "0 < sint b" and "sint a + sint b < 2 ^ 31"
  shows "sint (a + b) = sint a + sint b"
  using assms by (simp add: signed_take_bit_int_eq_self sint_word_ariths)

text \<open>Between two rounds the relaxed edges are the edges out of the settled nodes.\<close>

definition round_inv :: "(SystemIDType \<Rightarrow> SystemIDType \<Rightarrow> int \<Rightarrow> bool) \<Rightarrow> SystemIDType \<Rightarrow>
    (SystemIDType, AdjacencyInfo) gomap \<Rightarrow> SystemIDType set \<Rightarrow> dist_map \<times> pqItem list \<Rightarrow> bool" where
  "round_inv E self adjs S = (\<lambda>(dist, pq).
     spf_inv E self adjs S (\<lambda>u v c. u \<in> S \<and> E u v c) dist (mset pq) \<and> is_heap pq_key (length pq) pq)"

lemma relaxed_cong: "(\<And>u v c. R u v c = R' u v c) \<Longrightarrow> spf_inv E self adjs S R dist Q = spf_inv E self adjs S R' dist Q"
  by (simp add: spf_inv_def relaxed_ok_def)

lemma relaxes_inv:
  assumes E: "E = south_edge self adjs entries" and ok: "costs_ok E self"
    and south: "FindNodeTIE entries TieDirectionSouth u = Some south" "\<not> is_overloaded south"
    and u: "u \<in> S"
  shows "\<lbrakk>set ns \<subseteq> set (nt_Neighbors south); spf_inv E self adjs S R dist (mset pq); is_heap pq_key (length pq) pq;
      gm_get dist u = Some nu; \<forall>w \<in> S. \<forall>n. gm_get dist w = Some n \<longrightarrow> sdist n \<le> sdist nu;
      fold (relax self adjs entries south u (sn_distance nu) (sn_nextHops nu)) ns (dist, pq) = (dist', pq')\<rbrakk> \<Longrightarrow>
    spf_inv E self adjs S (\<lambda>x y c. R x y c \<or> x = u \<and> (\<exists>e. (y, e) \<in> set ns \<and>
      usable self adjs entries south u y e \<and> c = sint (LinkCost e))) dist' (mset pq') \<and>
    is_heap pq_key (length pq') pq'"
proof (induction ns arbitrary: R dist pq)
  case Nil
  then show ?case by simp
next
  case (Cons n ns)
  obtain v e where n: "n = (v, e)" by (cases n)
  obtain dist1 pq1 where one: "relax self adjs entries south u (sn_distance nu) (sn_nextHops nu) (v, e) (dist, pq) =
      (dist1, pq1)" by fastforce
  have rest: "fold (relax self adjs entries south u (sn_distance nu) (sn_nextHops nu)) ns (dist1, pq1) = (dist', pq')"
    using Cons.prems(6) one by (simp add: n)
  have sub: "set ns \<subseteq> set (nt_Neighbors south)" using Cons.prems(1) by simp
  show ?case
  proof (cases "usable self adjs entries south u v e")
    case False
    then have "dist1 = dist" "pq1 = pq" using one by (simp_all add: relax_eq)
    with Cons.IH [OF sub Cons.prems(2-5)] rest
    have *: "spf_inv E self adjs S (\<lambda>x y c. R x y c \<or> x = u \<and> (\<exists>e. (y, e) \<in> set ns \<and>
        usable self adjs entries south u y e \<and> c = sint (LinkCost e))) dist' (mset pq') \<and> is_heap pq_key (length pq') pq'"
      by simp
    show ?thesis
      by (rule conjI [OF relaxed_cong [THEN iffD1, OF _ conjunct1 [OF *]] conjunct2 [OF *]]) (use False n in auto)
  next
    case True
    have edge: "E u v (sint (LinkCost e))"
      unfolding E south_edge_usable [OF south] using True Cons.prems(1) n by auto
    have pos: "0 < c" if "E x y c" for x y c using ok that by (auto simp: costs_ok_def)
    have short: "shortest E self u (sdist nu)"
      using Cons.prems(2,4) u by (auto simp: spf_inv_def relaxed_ok_def)
    have nonneg: "0 \<le> sdist nu"
      using short walk_pos [of E self u] pos by (force simp: shortest_def split: if_splits)
    have sum: "sint (sn_distance nu + LinkCost e) = sdist nu + sint (LinkCost e)"
      using short edge ok nonneg pos [OF edge] by (intro sint_sum) (auto simp: costs_ok_def)
    let ?hops = "if u = self then [hop_to v (the (gm_get adjs v))] else sn_nextHops nu"
    have hops: "nh_ids ?hops = passed self u nu v" "\<forall>nh \<in> set ?hops. hop_ok adjs nh"
    proof -
      show "nh_ids ?hops = passed self u nu v" by (simp add: passed_def hop_to_def)
      have "u \<noteq> self \<Longrightarrow> nh \<in> set (sn_nextHops nu) \<Longrightarrow> hop_ok adjs nh" for nh
        using Cons.prems(2,4) unfolding spf_inv_def dist_ok_def by blast
      moreover have "u = self \<Longrightarrow> hop_ok adjs (hop_to v (the (gm_get adjs v)))"
        using True by (auto simp: usable_def hop_ok_def hop_to_def)
      ultimately show "\<forall>nh \<in> set ?hops. hop_ok adjs nh" by simp
    qed
    have to: "relax_to v (sn_distance nu + LinkCost e) ?hops (dist, pq) = (dist1, pq1)"
      using one True by (simp add: relax_eq)
    have step: "spf_inv E self adjs S (\<lambda>x y d. R x y d \<or> x = u \<and> y = v \<and> d = sint (LinkCost e)) dist1 (mset pq1) \<and>
        is_heap pq_key (length pq1) pq1 \<and> (\<forall>w \<in> S. gm_get dist1 w = gm_get dist w)"
      by (rule relax_to_inv [OF Cons.prems(2,3) u Cons.prems(4) _ edge pos sum hops to]) (use Cons.prems(5) in auto)
    then have "gm_get dist1 u = Some nu" "\<forall>w \<in> S. \<forall>n. gm_get dist1 w = Some n \<longrightarrow> sdist n \<le> sdist nu"
      using u Cons.prems(4,5) by simp_all
    from Cons.IH [OF sub conjunct1 [OF step] _ this rest] step
    have *: "spf_inv E self adjs S (\<lambda>x y c. (R x y c \<or> x = u \<and> y = v \<and> c = sint (LinkCost e)) \<or> x = u \<and>
        (\<exists>e. (y, e) \<in> set ns \<and> usable self adjs entries south u y e \<and> c = sint (LinkCost e))) dist' (mset pq') \<and>
        is_heap pq_key (length pq') pq'"
      by simp
    show ?thesis
      by (rule conjI [OF relaxed_cong [THEN iffD1, OF _ conjunct1 [OF *]] conjunct2 [OF *]]) (use True n in auto)
  qed
qed

text \<open>A walk to an unsettled node has passed an unsettled node with an entry that is not longer.\<close>

lemma frontier:
  assumes d: "dist_ok E self adjs dist" and r: "relaxed_ok E self S (\<lambda>u v c. u \<in> S \<and> E u v c) dist"
    and pos: "\<And>u v c. E u v c \<Longrightarrow> 0 < c" and w: "walk E self v d h"
  shows "v \<in> S \<or> (\<exists>y n. y \<notin> S \<and> gm_get dist y = Some n \<and> sdist n \<le> d)"
  using w
proof induction
  case (walk_first v c)
  obtain n0 where n0: "gm_get dist self = Some n0" "sdist n0 = 0" using d by (auto simp: dist_ok_def)
  show ?case
  proof (cases "self \<in> S")
    case True
    then obtain nv where "gm_get dist v = Some nv" "sdist nv \<le> 0 + c"
      using r n0 walk_first unfolding relaxed_ok_def by (metis (no_types, lifting))
    then show ?thesis by auto
  next
    case False
    then show ?thesis using n0 pos [OF walk_first] by fastforce
  qed
next
  case (walk_step u d h v c)
  from walk_step.IH show ?case
  proof
    assume u: "u \<in> S"
    then obtain nu where nu: "gm_get dist u = Some nu" "shortest E self u (sdist nu)"
      using r by (auto simp: relaxed_ok_def)
    moreover have "sdist nu \<le> d" using shortest_le [OF pos nu(2) walk_step.hyps(1)] .
    moreover obtain nv where "gm_get dist v = Some nv" "sdist nv \<le> sdist nu + c"
      using r u nu(1) walk_step.hyps(2) unfolding relaxed_ok_def by blast
    ultimately show ?thesis by fastforce
  next
    assume "\<exists>y n. y \<notin> S \<and> gm_get dist y = Some n \<and> sdist n \<le> d"
    then show ?thesis using pos [OF walk_step.hyps(2)] by force
  qed
qed

lemma popped_shortest:
  assumes inv: "round_inv E self adjs S (dist, pq)" and pos: "\<And>u v c. E u v c \<Longrightarrow> 0 < c"
    and ne: "pq \<noteq> []" and pop: "heap_pop pq_key pq = (item, pq')"
    and nu: "gm_get dist (pq_systemID item) = Some nu" "pq_key item = sdist nu"
  shows "shortest E self (pq_systemID item) (sdist nu)"
proof (cases "pq_systemID item \<in> S")
  case True
  with inv nu show ?thesis by (fastforce simp: round_inv_def spf_inv_def relaxed_ok_def)
next
  case False
  let ?u = "pq_systemID item"
  have d: "dist_ok E self adjs dist" and q: "queue_ok S dist (mset pq)"
    and r: "relaxed_ok E self S (\<lambda>u v c. u \<in> S \<and> E u v c) dist" and heap: "is_heap pq_key (length pq) pq"
    using inv by (simp_all add: round_inv_def spf_inv_def)
  show ?thesis
  proof (cases "?u = self")
    case True
    then show ?thesis using d nu by (auto simp: dist_ok_def shortest_def)
  next
    case nself: False
    have "sdist nu \<le> d'" if w: "walk E self ?u d' h" for d' h
    proof -
      obtain y n where y: "y \<notin> S" "gm_get dist y = Some n" "sdist n \<le> d'"
        using frontier [OF d r _ w] pos False by blast
      then have "\<lparr>pq_systemID = y, pq_distance = sn_distance n\<rparr> \<in># mset pq" using q by (simp add: queue_ok_def)
      from go_heap.pop_min [OF heap _ pop this] ne have "pq_key item \<le> sdist n" by (simp add: pq_key_def)
      with y nu(2) show ?thesis by simp
    qed
    moreover have "\<exists>h. walk E self ?u (sdist nu) h" using d nu(1) nself unfolding dist_ok_def by blast
    ultimately show ?thesis using nself by (auto simp: shortest_def)
  qed
qed

text \<open>Taking an item off the queue, and settling its node when the item is current.\<close>

lemma pop_stale:
  assumes inv: "round_inv E self adjs S (dist, pq)" and ne: "pq \<noteq> []" and pop: "heap_pop pq_key pq = (item, pq')"
    and stale: "\<And>n. gm_get dist (pq_systemID item) = Some n \<Longrightarrow> pq_systemID item \<notin> S \<Longrightarrow> sn_distance n \<noteq> pq_distance item"
  shows "round_inv E self adjs S (dist, pq')"
proof -
  have heap: "is_heap pq_key (length pq) pq" and q: "queue_ok S dist (mset pq)"
    using inv by (simp_all add: round_inv_def spf_inv_def)
  have Q: "mset pq = add_mset item (mset pq')" using go_heap.items_pop [OF heap _ pop] ne by simp
  have "queue_ok S dist (mset pq')"
    using q stale unfolding queue_ok_def Q by fastforce
  then show ?thesis
    using inv go_heap.invar_pop [OF heap _ pop] ne by (simp add: round_inv_def spf_inv_def)
qed

lemma settle:
  assumes inv: "round_inv E self adjs S (dist, pq)" and pos: "\<And>u v c. E u v c \<Longrightarrow> 0 < c"
    and ne: "pq \<noteq> []" and pop: "heap_pop pq_key pq = (item, pq')"
    and nu: "gm_get dist (pq_systemID item) = Some nu" "pq_distance item = sn_distance nu"
  shows "spf_inv E self adjs (insert (pq_systemID item) S) (\<lambda>u v c. u \<in> S \<and> E u v c) dist (mset pq')"
    and "is_heap pq_key (length pq') pq'"
    and "\<forall>w \<in> insert (pq_systemID item) S. \<forall>n. gm_get dist w = Some n \<longrightarrow> sdist n \<le> sdist nu"
proof -
  have d: "dist_ok E self adjs dist" and q: "queue_ok S dist (mset pq)"
    and r: "relaxed_ok E self S (\<lambda>u v c. u \<in> S \<and> E u v c) dist" and heap: "is_heap pq_key (length pq) pq"
    using inv by (simp_all add: round_inv_def spf_inv_def)
  have key: "pq_key item = sdist nu" using nu(2) by (simp add: pq_key_def)
  have Q: "mset pq = add_mset item (mset pq')" using go_heap.items_pop [OF heap _ pop] ne by simp
  have short: "shortest E self (pq_systemID item) (sdist nu)"
    by (rule popped_shortest [OF inv pos ne pop nu(1) key])
  have least: "pq_key item \<le> pq_key i" if "i \<in># mset pq'" for i
    using go_heap.pop_min [OF heap _ pop, of i] ne that Q by simp
  have item: "item = \<lparr>pq_systemID = pq_systemID item, pq_distance = sn_distance nu\<rparr>" using nu(2) by simp
  have "queue_ok (insert (pq_systemID item) S) dist (mset pq')"
    unfolding queue_ok_def
  proof (intro conjI allI impI ballI)
    fix v n assume "gm_get dist v = Some n" "v \<notin> insert (pq_systemID item) S"
    then show "\<lparr>pq_systemID = v, pq_distance = sn_distance n\<rparr> \<in># mset pq'"
      using q unfolding queue_ok_def Q by fastforce
  next
    fix i assume "i \<in># mset pq'"
    then show "\<exists>n. gm_get dist (pq_systemID i) = Some n \<and> sdist n \<le> pq_key i"
      using q unfolding queue_ok_def Q by fastforce
  next
    fix i u n assume "i \<in># mset pq'" "u \<in> insert (pq_systemID item) S" "gm_get dist u = Some n"
    then show "sdist n \<le> pq_key i"
      using q least key nu(1) unfolding queue_ok_def Q by fastforce
  qed
  moreover have "relaxed_ok E self (insert (pq_systemID item) S) (\<lambda>u v c. u \<in> S \<and> E u v c) dist"
    using r short nu(1) unfolding relaxed_ok_def by auto
  ultimately show "spf_inv E self adjs (insert (pq_systemID item) S) (\<lambda>u v c. u \<in> S \<and> E u v c) dist (mset pq')"
    using d by (simp add: spf_inv_def)
  show "is_heap pq_key (length pq') pq'" using go_heap.invar_pop [OF heap _ pop] ne by simp
  show "\<forall>w \<in> insert (pq_systemID item) S. \<forall>n. gm_get dist w = Some n \<longrightarrow> sdist n \<le> sdist nu"
    using q nu(1) key unfolding queue_ok_def Q by auto
qed

lemma south_step_inv:
  assumes E: "E = south_edge self adjs entries" and ok: "costs_ok E self"
    and inv: "round_inv E self adjs S (dist, pq)" and ne: "pq \<noteq> []"
  shows "\<exists>S'. round_inv E self adjs S' (south_step self adjs entries (dist, pq))"
proof -
  have pos: "0 < c" if "E x y c" for x y c using ok that by (auto simp: costs_ok_def)
  obtain item pq' where pop: "heap_pop pq_key pq = (item, pq')" by fastforce
  let ?u = "pq_systemID item"
  have heap: "is_heap pq_key (length pq) pq" and q: "queue_ok S dist (mset pq)"
    using inv by (simp_all add: round_inv_def spf_inv_def)
  have "item \<in># mset pq" using go_heap.pop_member [OF heap _ pop] ne by simp
  then obtain nu where nu: "gm_get dist ?u = Some nu" "sdist nu \<le> pq_key item"
    using q by (auto simp: queue_ok_def)
  show ?thesis
  proof (cases "slt (sn_distance nu) (pq_distance item)")
    case True
    then have "south_step self adjs entries (dist, pq) = (dist, pq')"
      using nu(1) by (simp add: south_step_def pop)
    moreover have "round_inv E self adjs S (dist, pq')"
      by (rule pop_stale [OF inv ne pop]) (use True nu(1) in auto)
    ultimately show ?thesis by auto
  next
    case False
    then have cur: "pq_distance item = sn_distance nu"
      using nu(2) by (simp add: pq_key_def sint_eq_iff [symmetric])
    note settled = settle [OF inv pos ne pop nu(1) cur]
    have noedge: "round_inv E self adjs (insert ?u S) (dist, pq')" if "\<And>v c. \<not> E ?u v c"
    proof -
      have "spf_inv E self adjs (insert ?u S) (\<lambda>u v c. u \<in> insert ?u S \<and> E u v c) dist (mset pq')"
        by (rule relaxed_cong [THEN iffD1, OF _ settled(1)]) (use that in auto)
      then show ?thesis using settled(2) by (simp add: round_inv_def)
    qed
    show ?thesis
    proof (cases "FindNodeTIE entries TieDirectionSouth ?u")
      case None
      then have "south_step self adjs entries (dist, pq) = (dist, pq')"
        using nu(1) False by (simp add: south_step_def pop)
      moreover have "\<And>v c. \<not> E ?u v c" using None by (simp add: E south_edge_def)
      ultimately show ?thesis using noedge by auto
    next
      case (Some south)
      show ?thesis
      proof (cases "is_overloaded south")
        case True
        then have "south_step self adjs entries (dist, pq) = (dist, pq')"
          using nu(1) False Some by (simp add: south_step_def pop)
        moreover have "\<And>v c. \<not> E ?u v c" using Some True by (simp add: E south_edge_def)
        ultimately show ?thesis using noedge by auto
      next
        case nov: False
        obtain dist2 pq2 where step: "fold (relax self adjs entries south ?u (sn_distance nu) (sn_nextHops nu))
            (nt_Neighbors south) (dist, pq') = (dist2, pq2)" by fastforce
        have eq: "south_step self adjs entries (dist, pq) = (dist2, pq2)"
          using nu(1) False Some nov step by (simp add: south_step_def pop cur)
        have *: "spf_inv E self adjs (insert ?u S) (\<lambda>x y c. x \<in> S \<and> E x y c \<or> x = ?u \<and>
            (\<exists>e. (y, e) \<in> set (nt_Neighbors south) \<and> usable self adjs entries south ?u y e \<and> c = sint (LinkCost e)))
            dist2 (mset pq2) \<and> is_heap pq_key (length pq2) pq2"
          by (rule relaxes_inv [OF E ok Some nov _ _ settled(1,2) nu(1) settled(3) step]) simp_all
        have "spf_inv E self adjs (insert ?u S) (\<lambda>u v c. u \<in> insert ?u S \<and> E u v c) dist2 (mset pq2)"
          by (rule relaxed_cong [THEN iffD1, OF _ conjunct1 [OF *]])
            (unfold E south_edge_usable [OF Some nov, symmetric], auto)
        then have "round_inv E self adjs (insert ?u S) (dist2, pq2)" using * by (simp add: round_inv_def)
        then show ?thesis unfolding eq by blast
      qed
    qed
  qed
qed

section \<open>The computation finds the shortest walks\<close>

lemma south_loop_inv:
  assumes E: "E = south_edge self adjs entries" and ok: "costs_ok E self"
  shows "round_inv E self adjs S s \<Longrightarrow> \<exists>S'. round_inv E self adjs S' (south_loop self adjs entries s, [])"
proof (induction s arbitrary: S rule: measure_induct_rule [of "work entries"])
  case (less s)
  obtain dist pq where s: "s = (dist, pq)" by (cases s)
  show ?case
  proof (cases "pq = []")
    case True
    then show ?thesis using less.prems by (subst south_loop.simps) (auto simp: s)
  next
    case False
    obtain S' where "round_inv E self adjs S' (south_step self adjs entries (dist, pq))"
      using south_step_inv [OF E ok less.prems [unfolded s] False] by blast
    from less.IH [OF _ this] show ?thesis
      using False south_step_work by (subst south_loop.simps) (simp add: s)
  qed
qed

lemma south_init_inv: "round_inv E self adjs {} (south_init self)"
proof -
  have push: "heap_push pq_key i [] = [i]" for i by (simp add: heap_push_def heap_up.simps)
  have get: "gm_get (gm_put self n []) v = (if v = self then Some n else None)" for v and n :: spfNode
    by (simp add: gm_get_put)
  show ?thesis
    by (auto simp: push get round_inv_def south_init_def spf_inv_def dist_ok_def queue_ok_def relaxed_ok_def
        pq_key_def is_heap_def split: if_splits)
qed

lemma adj_by_neighbor_wf: "gm_wf m \<Longrightarrow> gm_wf (fold (\<lambda>(_, adj) m. gm_put (ai_NeighborID adj) adj m) as m)"
  by (induction as arbitrary: m) auto

text \<open>What the final map holds: every reachable node, its distance, and exactly the first hops.\<close>

lemma final_dist:
  assumes ok: "costs_ok E self" and inv: "round_inv E self adjs S (dist, [])" and v: "v \<noteq> self"
  shows "(gm_get dist v = None \<longleftrightarrow> (\<forall>d h. \<not> walk E self v d h)) \<and>
    (\<forall>n. gm_get dist v = Some n \<longrightarrow> shortest E self v (sdist n) \<and>
       nh_ids (sn_nextHops n) = {h. walk E self v (sdist n) h} \<and> (\<forall>nh \<in> set (sn_nextHops n). hop_ok adjs nh))"
proof -
  have d: "dist_ok E self adjs dist" and q: "queue_ok S dist {#}"
    and r: "relaxed_ok E self S (\<lambda>u v c. u \<in> S \<and> E u v c) dist"
    using inv by (simp_all add: round_inv_def spf_inv_def)
  have pos: "0 < c" if "E x y c" for x y c using ok that by (auto simp: costs_ok_def)
  have S: "w \<in> S" if "gm_get dist w = Some n" for w n using q that by (auto simp: queue_ok_def)
  have self: "\<exists>n. gm_get dist self = Some n \<and> sdist n = 0" using d by (simp add: dist_ok_def)
  have edge: "\<exists>nv. gm_get dist y = Some nv \<and> sdist nv \<le> sdist nu + c \<and>
      (sdist nv = sdist nu + c \<longrightarrow> passed self u nu y \<subseteq> nh_ids (sn_nextHops nv))"
    if "E u y c" "gm_get dist u = Some nu" for u y c nu
    using r S [OF that(2)] that unfolding relaxed_ok_def by blast
  have reach: "\<exists>n. gm_get dist y = Some n \<and> sdist n \<le> d \<and> (y \<noteq> self \<longrightarrow> sdist n = d \<longrightarrow> h \<in> nh_ids (sn_nextHops n))"
    if "walk E self y d h" for y d h
    using that
  proof induction
    case (walk_first y c)
    obtain n0 where "gm_get dist self = Some n0" "sdist n0 = 0" using self by blast
    with edge [OF walk_first] show ?case by (auto simp: passed_def)
  next
    case (walk_step u d h y c)
    then obtain nu where nu: "gm_get dist u = Some nu" "sdist nu \<le> d"
      "u \<noteq> self \<longrightarrow> sdist nu = d \<longrightarrow> h \<in> nh_ids (sn_nextHops nu)" by blast
    obtain ny where ny: "gm_get dist y = Some ny" "sdist ny \<le> sdist nu + c"
      "sdist ny = sdist nu + c \<longrightarrow> passed self u nu y \<subseteq> nh_ids (sn_nextHops ny)"
      using edge [OF walk_step.hyps(2) nu(1)] by blast
    have "h \<in> nh_ids (sn_nextHops ny)" if "sdist ny = d + c"
    proof -
      have eq: "sdist nu = d" "sdist ny = sdist nu + c" using that nu(2) ny(2) by simp_all
      have "u \<noteq> self"
        using self nu(1) eq(1) walk_pos [OF _ walk_step.hyps(1)] pos by force
      then show ?thesis using nu(3) ny(3) eq by (auto simp: passed_def)
    qed
    with ny nu(2) show ?case by auto
  qed
  have sound: "(\<exists>h. walk E self v (sdist n) h) \<and>
      (\<forall>nh \<in> set (sn_nextHops n). walk E self v (sdist n) (nh_NeighborID nh) \<and> hop_ok adjs nh)"
    if "gm_get dist v = Some n" for n
    using d v that unfolding dist_ok_def by blast
  have "gm_get dist v = None \<longleftrightarrow> (\<forall>d h. \<not> walk E self v d h)"
    using reach sound by (metis not_None_eq)
  moreover have "shortest E self v (sdist n)" if "gm_get dist v = Some n" for n
    using reach sound [OF that] v that by (fastforce simp: shortest_def)
  moreover have "nh_ids (sn_nextHops n) = {h. walk E self v (sdist n) h}" if "gm_get dist v = Some n" for n
    using reach [of v "sdist n"] sound [OF that] v that by auto
  ultimately show ?thesis using sound by blast
qed

lemma south_dist_inv:
  assumes "costs_ok (south_edge systemID (adj_by_neighbor adjacencies) entries) systemID"
  shows "\<exists>S. round_inv (south_edge systemID (adj_by_neighbor adjacencies) entries) systemID
    (adj_by_neighbor adjacencies) S (south_dist systemID adjacencies entries, [])"
  unfolding south_dist_def by (rule south_loop_inv [OF refl assms south_init_inv])

lemmas south_dist_final = final_dist [OF _ exE [OF south_dist_inv]]

lemma adj_by_neighbor_get:
  assumes "gm_get (adj_by_neighbor adjacencies) v = Some adj"
  shows "adj \<in> snd ` set adjacencies \<and> ai_NeighborID adj = v"
proof -
  have "adj \<in> snd ` set as \<and> ai_NeighborID adj = v \<or> gm_get m v = Some adj"
    if "gm_get (fold (\<lambda>(_, adj) m. gm_put (ai_NeighborID adj) adj m) as m) v = Some adj" for as m
    using that
  proof (induction as arbitrary: m)
    case (Cons a as)
    obtain k x where a: "a = (k, x)" by (cases a)
    show ?case
      using Cons.IH [of "gm_put (ai_NeighborID x) x m"] Cons.prems by (auto simp: a gm_get_put split: if_splits)
  qed simp
  from this [of adjacencies "[]"] assms show ?thesis by (simp add: adj_by_neighbor_def gm_get_def)
qed

end
