(* ===== verification/Spf_South_Props.thy ===== *)
theory Spf_South_Props
  imports Spf_Dijkstra
begin

text \<open>
  The properties of the southbound computation: its loop returns, it finds the shortest walks and all
  their first hops, and the routes it installs are the best ones to the nodes that announce a prefix.
\<close>

section \<open>The distance map is a map\<close>

lemma relax_to_wf: "gm_wf (fst s) \<Longrightarrow> gm_wf (fst (relax_to v d nhs s))"
  by (cases s) (simp add: relax_to_def Let_def split: option.split)

lemma relaxes_wf:
  "gm_wf (fst s) \<Longrightarrow> gm_wf (fst (fold (relax self adjs entries south u d hops) ns s))"
proof (induction ns arbitrary: s)
  case (Cons n ns)
  obtain v e where n: "n = (v, e)" by (cases n)
  have "gm_wf (fst (relax self adjs entries south u d hops n s))"
    using Cons.prems relax_to_wf by (simp add: n relax_eq)
  then show ?case using Cons.IH by simp
qed simp

lemma south_step_wf: "gm_wf (fst s) \<Longrightarrow> gm_wf (fst (south_step self adjs entries s))"
proof -
  assume wf: "gm_wf (fst s)"
  obtain dist pq where s: "s = (dist, pq)" by (cases s)
  obtain item pq' where pop: "heap_pop pq_key pq = (item, pq')" by fastforce
  show ?thesis
    using wf relaxes_wf [of "(dist, pq')"]
    by (auto simp: s south_step_def pop Let_def split: option.split)
qed

lemma south_loop_wf: "gm_wf (fst s) \<Longrightarrow> gm_wf (south_loop self adjs entries s)"
proof (induction s rule: measure_induct_rule [of "work entries"])
  case (less s)
  obtain dist pq where s: "s = (dist, pq)" by (cases s)
  show ?case
    using less.IH [of "south_step self adjs entries s"] south_step_work [of pq entries self adjs dist]
      south_step_wf [OF less.prems] less.prems
    by (subst south_loop.simps) (auto simp: s)
qed

lemma south_dist_wf: "gm_wf (south_dist systemID adjacencies entries)"
proof -
  have "gm_wf ([] :: dist_map)" by (simp add: gm_wf_def)
  then show ?thesis
    unfolding south_dist_def by (intro south_loop_wf) (simp add: south_init_def)
qed

section \<open>The routes as offers\<close>

lemma ComputeSouthbound_offers:
  "ComputeSouthbound systemID level adjacencies entries =
   addRoutes (concat (map (\<lambda>(nodeID, node).
     if nodeID = systemID \<or> sn_nextHops node = [] then []
     else prefix_offers (sn_distance node) RouteTypeNorthPrefix (sn_nextHops node)
       (FindPrefixTIEs entries TieDirectionNorth nodeID)) (south_dist systemID adjacencies entries))) []"
proof -
  have "(\<lambda>(nodeID, node :: spfNode) rib.
       if nodeID = systemID then rib
       else if sn_nextHops node = [] then rib
       else attach_prefixes (sn_distance node) RouteTypeNorthPrefix (sn_nextHops node)
         (FindPrefixTIEs entries TieDirectionNorth nodeID) rib) =
     (\<lambda>x :: SystemIDType \<times> spfNode. addRoutes (case x of (nodeID, node) \<Rightarrow>
       if nodeID = systemID \<or> sn_nextHops node = [] then []
       else prefix_offers (sn_distance node) RouteTypeNorthPrefix (sn_nextHops node)
         (FindPrefixTIEs entries TieDirectionNorth nodeID)))"
    by (auto simp: fun_eq_iff attach_prefixes_offers)
  then show ?thesis unfolding ComputeSouthbound_def addRoutes_concat by (simp only:)
qed

lemma announced_North:
  "pe \<in> announced entries TieDirectionNorth orig \<longleftrightarrow>
   (\<exists>pt \<in> set (FindPrefixTIEs entries TieDirectionNorth orig). pe \<in> set (pt_Prefixes pt))"
  unfolding announced_def Bex_def set_FindPrefixTIEs mem_Collect_eq by auto

definition south_offers :: "SystemIDType \<Rightarrow> (TIEID, LSDBEntry) gomap \<Rightarrow> dist_map \<Rightarrow> Offer set" where
  "south_offers systemID entries dist =
     {(PrefixToString (pe_Prefix pe), pa_Metric (pe_Attributes pe) + sn_distance n, RouteTypeNorthPrefix, sn_nextHops n)
        |v n pe. gm_get dist v = Some n \<and> v \<noteq> systemID \<and> sn_nextHops n \<noteq> [] \<and>
        pe \<in> announced entries TieDirectionNorth v \<and> PrefixToString (pe_Prefix pe) \<noteq> []}"

lemma south_rib:
  "rib_for (south_offers systemID entries (south_dist systemID adjacencies entries))
    (ComputeSouthbound systemID level adjacencies entries)"
proof -
  let ?dist = "south_dist systemID adjacencies entries"
  let ?f = "\<lambda>(nodeID, node :: spfNode). if nodeID = systemID \<or> sn_nextHops node = [] then []
     else prefix_offers (sn_distance node) RouteTypeNorthPrefix (sn_nextHops node)
       (FindPrefixTIEs entries TieDirectionNorth nodeID)"
  have eq: "(p, m, t, nhs) \<in> set (concat (map ?f ?dist)) \<longleftrightarrow> (p, m, t, nhs) \<in> south_offers systemID entries ?dist"
    for p m t nhs
  proof -
    have "(p, m, t, nhs) \<in> set (concat (map ?f ?dist)) \<longleftrightarrow>
        (\<exists>v n. gm_get ?dist v = Some n \<and> (p, m, t, nhs) \<in> set (?f (v, n)))"
      unfolding gm_get_in [OF south_dist_wf] by (simp add: Bex_def split_paired_Ex)
    also have "\<dots> \<longleftrightarrow> (p, m, t, nhs) \<in> south_offers systemID entries ?dist"
      unfolding south_offers_def announced_North
      by (auto simp: set_prefix_offers split: if_splits)
    finally show ?thesis .
  qed
  have "set (concat (map ?f ?dist)) = south_offers systemID entries ?dist"
  proof (rule set_eqI)
    fix x :: Offer obtain p m t nhs where "x = (p, m, t, nhs)" by (cases x)
    then show "x \<in> set (concat (map ?f ?dist)) \<longleftrightarrow> x \<in> south_offers systemID entries ?dist" using eq by (simp only:)
  qed
  then show ?thesis
    using rib_for_addRoutes [of "concat (map ?f ?dist)"] unfolding ComputeSouthbound_offers by simp
qed

text \<open>
  What \<open>southbound_best\<close> says of a route: node \<open>v\<close>, at distance \<open>d\<close>, announces prefix \<open>p\<close> so that it would get
  metric \<open>m\<close>. The edges and the distance map are those of one computation.
\<close>

definition south_offer :: "(SystemIDType \<Rightarrow> SystemIDType \<Rightarrow> int \<Rightarrow> bool) \<Rightarrow> SystemIDType \<Rightarrow> (TIEID, LSDBEntry) gomap \<Rightarrow>
    string \<Rightarrow> int32 \<Rightarrow> SystemIDType \<Rightarrow> int32 \<Rightarrow> bool" where
  "south_offer E systemID entries p m v d \<longleftrightarrow> v \<noteq> systemID \<and> shortest E systemID v (sint d) \<and>
     (\<exists>pe \<in> announced entries TieDirectionNorth v. PrefixToString (pe_Prefix pe) = p \<and> p \<noteq> [] \<and>
        m = pa_Metric (pe_Attributes pe) + d)"

definition dist_exact :: "(SystemIDType \<Rightarrow> SystemIDType \<Rightarrow> int \<Rightarrow> bool) \<Rightarrow> SystemIDType \<Rightarrow>
    (SystemIDType, AdjacencyInfo) gomap \<Rightarrow> dist_map \<Rightarrow> bool" where
  "dist_exact E systemID adjs dist \<longleftrightarrow> (\<forall>v. v \<noteq> systemID \<longrightarrow>
     (gm_get dist v = None \<longleftrightarrow> (\<forall>d h. \<not> walk E systemID v d h)) \<and>
     (\<forall>n. gm_get dist v = Some n \<longrightarrow> shortest E systemID v (sint (sn_distance n)) \<and>
        nh_ids (sn_nextHops n) = {h. walk E systemID v (sint (sn_distance n)) h} \<and>
        (\<forall>nh \<in> set (sn_nextHops n). hop_ok adjs nh)))"

lemma south_dist_exact:
  assumes "costs_ok (south_edge systemID (adj_by_neighbor adjacencies) entries) systemID"
  shows "dist_exact (south_edge systemID (adj_by_neighbor adjacencies) entries) systemID
    (adj_by_neighbor adjacencies) (south_dist systemID adjacencies entries)"
proof -
  obtain S where "round_inv (south_edge systemID (adj_by_neighbor adjacencies) entries) systemID
      (adj_by_neighbor adjacencies) S (south_dist systemID adjacencies entries, [])"
    using south_dist_inv [OF assms] by blast
  from final_dist [OF assms this] show ?thesis unfolding dist_exact_def by (intro allI impI)
qed

lemma dist_entry:
  assumes "dist_exact E systemID adjs dist" and "v \<noteq> systemID" and "gm_get dist v = Some n"
  shows "shortest E systemID v (sint (sn_distance n))" and "sn_nextHops n \<noteq> []"
    and "nh_ids (sn_nextHops n) = {h. walk E systemID v (sint (sn_distance n)) h}"
    and "\<forall>nh \<in> set (sn_nextHops n). hop_ok adjs nh"
proof -
  from assms show s: "shortest E systemID v (sint (sn_distance n))"
    and ids: "nh_ids (sn_nextHops n) = {h. walk E systemID v (sint (sn_distance n)) h}"
    and "\<forall>nh \<in> set (sn_nextHops n). hop_ok adjs nh"
    unfolding dist_exact_def by blast+
  from s assms(2) have "nh_ids (sn_nextHops n) \<noteq> {}" unfolding ids by (simp add: shortest_def)
  then show "sn_nextHops n \<noteq> []" by auto
qed

lemma dist_reaches:
  assumes dist: "dist_exact E systemID adjs dist" and v: "v \<noteq> systemID" "shortest E systemID v (sint d)"
  shows "\<exists>n. gm_get dist v = Some n \<and> sn_distance n = d"
proof -
  obtain n where n: "gm_get dist v = Some n"
    using dist v by (fastforce simp: dist_exact_def shortest_def)
  from dist_entry(1) [OF dist v(1) n] v have "sint (sn_distance n) = sint d"
    by (auto simp: shortest_def intro: order_antisym)
  with n show ?thesis by (auto simp: sint_eq_iff)
qed

lemma south_offers_iff:
  assumes "dist_exact E systemID adjs dist"
  shows "(p, m, t, nhs) \<in> south_offers systemID entries dist \<longleftrightarrow> t = RouteTypeNorthPrefix \<and>
    (\<exists>v n. gm_get dist v = Some n \<and> nhs = sn_nextHops n \<and> south_offer E systemID entries p m v (sn_distance n))"
  unfolding south_offers_def south_offer_def using dist_entry(1,2) [OF assms] by auto metis

lemma south_offered:
  assumes "dist_exact E systemID adjs dist"
  shows "(\<exists>nhs. (p, m, t, nhs) \<in> south_offers systemID entries dist) \<longleftrightarrow>
    t = RouteTypeNorthPrefix \<and> (\<exists>v d. south_offer E systemID entries p m v d)"
proof -
  have "\<exists>n. gm_get dist v = Some n \<and> sn_distance n = d" if "south_offer E systemID entries p m v d" for v d
    using that dist_reaches [OF assms] unfolding south_offer_def by (elim conjE) blast
  then show ?thesis unfolding south_offers_iff [OF assms] by metis
qed

lemma south_best_hops:
  assumes dist: "dist_exact E systemID adjs dist"
    and best: "best_route (south_offers systemID entries dist) p r"
  shows "nh_ids (rt_NextHops r) =
      {h. \<exists>v d. south_offer E systemID entries p (rt_Metric r) v d \<and> walk E systemID v (sint d) h}"
    and "\<forall>nh \<in> set (rt_NextHops r). hop_ok adjs nh"
proof -
  let ?o = "south_offer E systemID entries p (rt_Metric r)"
  have "rt_RouteType r = RouteTypeNorthPrefix"
    using best_route_offered [OF best] south_offered [OF dist] by blast
  then have H: "best_hops (south_offers systemID entries dist) p (rt_Metric r) (rt_RouteType r) =
      {sn_nextHops n |v n. gm_get dist v = Some n \<and> ?o v (sn_distance n)}"
    unfolding best_hops_def south_offers_iff [OF dist] by auto
  have "nh_ids (rt_NextHops r) =
      {h. \<exists>v n. gm_get dist v = Some n \<and> ?o v (sn_distance n) \<and> h \<in> nh_ids (sn_nextHops n)}"
    using best unfolding best_route_def H by auto
  also have "\<dots> = {h. \<exists>v n. gm_get dist v = Some n \<and> ?o v (sn_distance n) \<and>
      walk E systemID v (sint (sn_distance n)) h}"
    using dist_entry(3) [OF dist] unfolding south_offer_def by blast
  also have "\<dots> = {h. \<exists>v d. ?o v d \<and> walk E systemID v (sint d) h}"
    using dist_reaches [OF dist] unfolding south_offer_def by (intro Collect_cong) blast
  finally show "nh_ids (rt_NextHops r) = {h. \<exists>v d. ?o v d \<and> walk E systemID v (sint d) h}" .
  show "\<forall>nh \<in> set (rt_NextHops r). hop_ok adjs nh"
    using best dist_entry(4) [OF dist] unfolding best_route_def H south_offer_def by blast
qed

section \<open>Properties\<close>

text \<open>
  C23 \<^bold>\<open>The southbound computation returns.\<close> For every database - whatever costs, levels and cycles
  the received TIEs contain - the main loop empties its queue after finitely many rounds, at most
  \<open>work entries s\<close>, and its result is the distance map of that round.
\<close>

theorem southbound_returns:
  "\<exists>k \<le> work entries s. snd ((south_step systemID adjs entries ^^ k) s) = [] \<and>
     south_loop systemID adjs entries s = fst ((south_step systemID adjs entries ^^ k) s)"
proof (induction s rule: measure_induct_rule [of "work entries"])
  case (less s)
  obtain dist pq where s: "s = (dist, pq)" by (cases s)
  show ?case
  proof (cases "pq = []")
    case True
    then show ?thesis by (intro exI [of _ 0]) (simp add: s south_loop.simps)
  next
    case False
    note step = south_step_work [OF False, of entries systemID adjs dist]
    obtain k where "k \<le> work entries (south_step systemID adjs entries s)"
      "snd ((south_step systemID adjs entries ^^ k) (south_step systemID adjs entries s)) = []"
      "south_loop systemID adjs entries (south_step systemID adjs entries s) =
       fst ((south_step systemID adjs entries ^^ k) (south_step systemID adjs entries s))"
      using less.IH [of "south_step systemID adjs entries s"] step s by blast
    with step False show ?thesis
      by (intro exI [of _ "Suc k"]) (simp add: s funpow_swap1 [symmetric] south_loop.simps [of _ _ _ "(dist, pq)"])
  qed
qed

text \<open>
  C1 \<^bold>\<open>The southbound computation finds the shortest walks.\<close> With positive link costs whose sums at
  the shortest distances stay in 32 bits, the distance map holds exactly the nodes that walks over
  backlinked edges down from nodes that are not overloaded reach, each with the cost of its shortest walk,
  and its next hops are the first hops of all its shortest walks, each with the address and interface of
  the adjacency to it.
\<close>

theorem southbound_shortest:
  assumes "costs_ok (south_edge systemID (adj_by_neighbor adjacencies) entries) systemID" and "v \<noteq> systemID"
  shows "let E = south_edge systemID (adj_by_neighbor adjacencies) entries;
             dist = south_dist systemID adjacencies entries in
    (gm_get dist v = None \<longleftrightarrow> (\<forall>d h. \<not> walk E systemID v d h)) \<and>
    (\<forall>n. gm_get dist v = Some n \<longrightarrow> shortest E systemID v (sint (sn_distance n)) \<and>
       nh_ids (sn_nextHops n) = {h. walk E systemID v (sint (sn_distance n)) h} \<and>
       (\<forall>nh \<in> set (sn_nextHops n). hop_ok (adj_by_neighbor adjacencies) nh))"
  using south_dist_exact [OF assms(1)] assms(2) unfolding dist_exact_def Let_def by blast

text \<open>
  C22 \<^bold>\<open>Southbound routes are the best ones to the nodes that announce a prefix.\<close> Under the same
  conditions, a prefix has a southbound route exactly when a reachable node below announces it in a North
  Prefix TIE; the metric is the least sum of announced metric and distance (in 32-bit arithmetic), and the
  next hops are the first hops of the shortest walks to the nodes that attain it.
\<close>

theorem southbound_best:
  assumes "costs_ok (south_edge systemID (adj_by_neighbor adjacencies) entries) systemID"
  shows "let E = south_edge systemID (adj_by_neighbor adjacencies) entries;
             rib = ComputeSouthbound systemID level adjacencies entries;
             offer = (\<lambda>p m v d. v \<noteq> systemID \<and> shortest E systemID v (sint d) \<and>
               (\<exists>pe \<in> announced entries TieDirectionNorth v. PrefixToString (pe_Prefix pe) = p \<and> p \<noteq> [] \<and>
                  m = pa_Metric (pe_Attributes pe) + d)) in
    (gm_get rib p = None \<longleftrightarrow> (\<nexists>m v d. offer p m v d)) \<and>
    (\<forall>r. gm_get rib p = Some r \<longrightarrow> rt_RouteType r = RouteTypeNorthPrefix \<and>
       (\<exists>v d. offer p (rt_Metric r) v d) \<and> (\<forall>m v d. offer p m v d \<longrightarrow> sint (rt_Metric r) \<le> sint m) \<and>
       nh_ids (rt_NextHops r) = {h. \<exists>v d. offer p (rt_Metric r) v d \<and> walk E systemID v (sint d) h} \<and>
       (\<forall>nh \<in> set (rt_NextHops r). hop_ok (adj_by_neighbor adjacencies) nh))"
proof -
  let ?E = "south_edge systemID (adj_by_neighbor adjacencies) entries"
  let ?offers = "south_offers systemID entries (south_dist systemID adjacencies entries)"
  let ?offer = "south_offer ?E systemID entries p"
  note dist = south_dist_exact [OF assms]
  note rib = south_rib [of systemID entries adjacencies level]
  note offered = south_offered [OF dist]
  have "gm_get (ComputeSouthbound systemID level adjacencies entries) p = None \<longleftrightarrow> (\<nexists>m v d. ?offer m v d)"
    unfolding rib_for_None [OF rib] using offered by blast
  moreover have "rt_RouteType r = RouteTypeNorthPrefix \<and> (\<exists>v d. ?offer (rt_Metric r) v d) \<and>
      (\<forall>m v d. ?offer m v d \<longrightarrow> sint (rt_Metric r) \<le> sint m) \<and>
      nh_ids (rt_NextHops r) = {h. \<exists>v d. ?offer (rt_Metric r) v d \<and> walk ?E systemID v (sint d) h} \<and>
      (\<forall>nh \<in> set (rt_NextHops r). hop_ok (adj_by_neighbor adjacencies) nh)"
    if "gm_get (ComputeSouthbound systemID level adjacencies entries) p = Some r" for r
  proof -
    note best = rib_for_get [OF rib that]
    have type: "rt_RouteType r = RouteTypeNorthPrefix \<and> (\<exists>v d. ?offer (rt_Metric r) v d)"
      using best_route_offered [OF best] offered by blast
    have "sint (rt_Metric r) \<le> sint m" if "?offer m v d" for m v d
    proof -
      from that offered [of p m RouteTypeNorthPrefix entries] obtain nhs
        where "(p, m, RouteTypeNorthPrefix, nhs) \<in> ?offers" by blast
      from best_route_le [OF best this] type show ?thesis by (simp add: rank_le_def)
    qed
    then show ?thesis
      using type south_best_hops [OF dist best] by (intro conjI) blast+
  qed
  ultimately show ?thesis
    unfolding Let_def south_offer_def [symmetric] by blast
qed

definition ex_node_tie :: "TieDirectionType \<Rightarrow> SystemIDType \<Rightarrow> LevelType \<Rightarrow>
    (SystemIDType, NodeNeighborsTIEElement) gomap \<Rightarrow> TIEID \<times> LSDBEntry" where
  "ex_node_tie dir s l ns = (TIEID dir s TIETypeNodeTIEType 1,
     \<lparr>le_Packet = zero_TIEPacket\<lparr>tie_Element := zero_TIEElement\<lparr>el_Node := Some (zero_NodeTIEElement
        \<lparr>nt_Level := l, nt_Neighbors := ns\<rparr>)\<rparr>\<rparr>,
      le_RemainingLifetime = 600, le_LastReceived = 0, le_SelfOriginated = False\<rparr>)"

definition ex_prefix_tie :: "SystemIDType \<Rightarrow> TIEID \<times> LSDBEntry" where
  "ex_prefix_tie s = (TIEID TieDirectionNorth s TIETypePrefixTIEType 1,
     \<lparr>le_Packet = zero_TIEPacket\<lparr>tie_Element := zero_TIEElement\<lparr>el_Prefixes := Some \<lparr>pt_Prefixes =
        [\<lparr>pe_Prefix = zero_IPPrefix\<lparr>ip_IPv4Prefix := Some \<lparr>p4_Address = 0x0A000003, p4_PrefixLen = 32\<rparr>\<rparr>,
          pe_Attributes = zero_PrefixAttributes\<lparr>pa_Metric := 1\<rparr>\<rparr>]\<rparr>\<rparr>\<rparr>,
      le_RemainingLifetime = 600, le_LastReceived = 0, le_SelfOriginated = False\<rparr>)"

text \<open>Spine 1 above leaf 3, which announces \<open>10.0.0.3/32\<close>.\<close>

definition ex_entries :: "(TIEID, LSDBEntry) gomap" where
  "ex_entries = [ex_node_tie TieDirectionSouth 1 1 [(3, zero_NodeNeighbors)],
     ex_node_tie TieDirectionNorth 3 0 [(1, zero_NodeNeighbors)], ex_prefix_tie 3]"

definition ex_adjs :: "(string, AdjacencyInfo) gomap" where
  "ex_adjs = [(''ethernet-1/1'', \<lparr>ai_InterfaceName = ''ethernet-1/1'', ai_NeighborID = 3, ai_NeighborLevel = 0,
     ai_NeighborAddr = Addr4 9, ai_FloodPort = 915, ai_LocalLinkID = 10, ai_NeighborLinkID = 20\<rparr>)]"

lemma ex_FindNodeTIE:
  "FindNodeTIE ex_entries TieDirectionSouth u =
     (if u = 1 then Some (zero_NodeTIEElement\<lparr>nt_Level := 1, nt_Neighbors := [(3, zero_NodeNeighbors)]\<rparr>) else None)"
  "FindNodeTIE ex_entries TieDirectionNorth u =
     (if u = 3 then Some (zero_NodeTIEElement\<lparr>nt_Level := 0, nt_Neighbors := [(1, zero_NodeNeighbors)]\<rparr>) else None)"
  by (simp_all add: FindNodeTIE_def ex_entries_def ex_node_tie_def ex_prefix_tie_def gm_get_def zero_TIEPacket_def
      zero_TIEElement_def)

lemma ex_adj_by: "gm_get (adj_by_neighbor ex_adjs) v = (if v = 3 then Some (snd (hd ex_adjs)) else None)"
  by (simp add: adj_by_neighbor_def ex_adjs_def gm_get_put)

lemma ex_edge: "south_edge 1 (adj_by_neighbor ex_adjs) ex_entries u v c \<longleftrightarrow> u = 1 \<and> v = 3 \<and> c = 1"
  unfolding south_edge_def ex_FindNodeTIE ex_adj_by
  by (auto simp: is_overloaded_def zero_NodeTIEElement_def zero_NodeNeighbors_def LinkCost_def gm_get_def split: if_splits)

lemma ex_walk: "walk (south_edge 1 (adj_by_neighbor ex_adjs) ex_entries) 1 v d h \<longleftrightarrow> v = 3 \<and> d = 1 \<and> h = 3"
proof
  show "walk (south_edge 1 (adj_by_neighbor ex_adjs) ex_entries) 1 v d h \<Longrightarrow> v = 3 \<and> d = 1 \<and> h = 3"
    by (induction rule: walk.induct) (simp_all add: ex_edge)
qed (auto intro: walk_first simp: ex_edge)

lemma ex_costs_ok: "costs_ok (south_edge 1 (adj_by_neighbor ex_adjs) ex_entries) 1"
  by (auto simp: costs_ok_def ex_edge shortest_def)

theorem southbound_shortest_witness:
  "\<exists>n. gm_get (south_dist 1 ex_adjs ex_entries) 3 = Some n \<and> nh_ids (sn_nextHops n) = {3}"
  using southbound_shortest [OF ex_costs_ok, of 3]
  by (cases "gm_get (south_dist 1 ex_adjs ex_entries) 3") (auto simp: Let_def ex_walk shortest_def)

definition ex_pe :: PrefixEntry where
  "ex_pe = \<lparr>pe_Prefix = zero_IPPrefix\<lparr>ip_IPv4Prefix := Some \<lparr>p4_Address = 0x0A000003, p4_PrefixLen = 32\<rparr>\<rparr>,
     pe_Attributes = zero_PrefixAttributes\<lparr>pa_Metric := 1\<rparr>\<rparr>"

theorem southbound_best_witness:
  "gm_get (ComputeSouthbound 1 1 ex_adjs ex_entries) (PrefixToString (pe_Prefix ex_pe)) \<noteq> None"
proof -
  have "ex_pe \<in> announced ex_entries TieDirectionNorth 3"
    by (simp add: announced_North FindPrefixTIEs_def ex_entries_def ex_node_tie_def ex_prefix_tie_def
        zero_TIEPacket_def zero_TIEElement_def ex_pe_def)
  moreover have "PrefixToString (pe_Prefix ex_pe) \<noteq> []"
    by (simp add: PrefixToString_def ex_pe_def)
  moreover have "shortest (south_edge 1 (adj_by_neighbor ex_adjs) ex_entries) 1 3 (sint (1 :: int32))"
    by (auto simp: shortest_def ex_walk)
  moreover have "(3 :: SystemIDType) \<noteq> 1" by simp
  ultimately show ?thesis
    using southbound_best [OF ex_costs_ok, of 1 "PrefixToString (pe_Prefix ex_pe)"] unfolding Let_def by blast
qed

end
