(* ===== verification/Spf_Disagg.thy ===== *)
theory Spf_Disagg
  imports Spf_South_Props
begin

text \<open>
  Positive disaggregation, \<open>src/internal/spf/disagg.go\<close>: a spine compares its neighbors below with those
  its peers of the same level list in their South Node TIEs (which the leaves reflect), and announces
  the prefixes whose routes go through a neighbor that some peer does not reach.
\<close>

section \<open>The computation\<close>

record DisaggPrefix =
  dp_Prefix :: IPPrefixType
  dp_Distance :: MetricType

text \<open>Step 1: the own neighbors below.\<close>

definition own_south_neighbors :: "LevelType \<Rightarrow> (string, AdjacencyInfo) gomap \<Rightarrow> SystemIDType goset" where
  "own_south_neighbors level adjacencies =
     fold (\<lambda>(_, adj) s. if slt (ai_NeighborLevel adj) level then gs_add (ai_NeighborID adj) s else s) adjacencies []"

text \<open>Step 2: the peers, each with the neighbors below that its South Node TIE lists.\<close>

definition peer_south_neighbors :: "LevelType \<Rightarrow> NodeTIEElement \<Rightarrow> SystemIDType goset" where
  "peer_south_neighbors level node =
     fold (\<lambda>(neighborID, neighborEntry) s. if slt (nn_Level neighborEntry) level then gs_add neighborID s else s)
       (nt_Neighbors node) []"

definition same_level_peers ::
  "SystemIDType \<Rightarrow> LevelType \<Rightarrow> (TIEID, LSDBEntry) gomap \<Rightarrow> (SystemIDType, SystemIDType goset) gomap" where
  "same_level_peers systemID level entries =
     fold (\<lambda>(tid, entry) peers.
       if Direction tid \<noteq> TieDirectionSouth \<or> TIEType tid \<noteq> TIETypeNodeTIEType \<or> Originator tid = systemID then peers
       else case el_Node (tie_Element (le_Packet entry)) of
           None \<Rightarrow> peers
         | Some node \<Rightarrow>
             if nt_Level node \<noteq> level then peers
             else gm_put (Originator tid) (peer_south_neighbors level node) peers) entries []"

text \<open>Step 3: the own neighbors that some peer, which shares another one, does not list.\<close>

definition mark_partial ::
  "SystemIDType goset \<Rightarrow> SystemIDType \<Rightarrow> SystemIDType goset \<Rightarrow>
   (SystemIDType, SystemIDType goset) gomap \<Rightarrow> (SystemIDType, SystemIDType goset) gomap" where
  "mark_partial southNeighbors peerID peer =
     fold (\<lambda>n partial.
       if n \<in> set peer then partial
       else gm_put n (gs_add peerID (case gm_get partial n of None \<Rightarrow> [] | Some s \<Rightarrow> s)) partial) southNeighbors"

definition partial_neighbors ::
  "SystemIDType goset \<Rightarrow> (SystemIDType, SystemIDType goset) gomap \<Rightarrow> (SystemIDType, SystemIDType goset) gomap" where
  "partial_neighbors southNeighbors peers =
     fold (\<lambda>(peerID, peer) partial.
       if \<exists>n \<in> set peer. n \<in> set southNeighbors then mark_partial southNeighbors peerID peer partial
       else partial) peers []"

text \<open>Step 4: the prefixes of the southbound routes through them.\<close>

definition disagg_prefixes :: "(SystemIDType, SystemIDType goset) gomap \<Rightarrow> RIB \<Rightarrow> DisaggPrefix list" where
  "disagg_prefixes partialNeighbors southRIB =
     fold (\<lambda>(_, route) result.
       if \<not> (\<exists>nh \<in> set (rt_NextHops route). gm_get partialNeighbors (nh_NeighborID nh) \<noteq> None) then result
       else let ipPrefix = StringToPrefix (rt_Prefix route)
            in if ip_IPv4Prefix ipPrefix = None then result
               else result @ [\<lparr>dp_Prefix = ipPrefix, dp_Distance = rt_Metric route\<rparr>]) southRIB []"

definition ComputeDisaggregation ::
  "SystemIDType \<Rightarrow> LevelType \<Rightarrow> (string, AdjacencyInfo) gomap \<Rightarrow> (TIEID, LSDBEntry) gomap \<Rightarrow> RIB \<Rightarrow>
   DisaggPrefix list" where
  "ComputeDisaggregation systemID level adjacencies entries southRIB =
     (let southNeighbors = own_south_neighbors level adjacencies
      in if southNeighbors = [] then []
         else
           (let peers = same_level_peers systemID level entries
            in if peers = [] then []
               else
                 (let partialNeighbors = partial_neighbors southNeighbors peers
                  in if partialNeighbors = [] then [] else disagg_prefixes partialNeighbors southRIB)))"

section \<open>What each step computes\<close>

lemma set_fold_add:
  "set (fold (\<lambda>x s. if P x then gs_add (f x) s else s) xs s) = set s \<union> f ` {x \<in> set xs. P x}"
  by (induction xs arbitrary: s) auto

lemma set_own_south_neighbors:
  "n \<in> set (own_south_neighbors level adjacencies) \<longleftrightarrow>
   (\<exists>adj \<in> snd ` set adjacencies. slt (ai_NeighborLevel adj) level \<and> ai_NeighborID adj = n)"
  using set_fold_add [of "\<lambda>x. slt (ai_NeighborLevel (snd x)) level" "\<lambda>x. ai_NeighborID (snd x)" adjacencies "[]"]
  by (auto simp: own_south_neighbors_def case_prod_unfold)

lemma set_peer_south_neighbors:
  "n \<in> set (peer_south_neighbors level node) \<longleftrightarrow> (\<exists>e. (n, e) \<in> set (nt_Neighbors node) \<and> slt (nn_Level e) level)"
  using set_fold_add [of "\<lambda>x. slt (nn_Level (snd x)) level" fst "nt_Neighbors node" "[]"]
  by (force simp: peer_south_neighbors_def case_prod_unfold)

text \<open>
  The South Node TIEs of an originator at the own level, in the order in which the map is read. Of several the
  one that is read last counts.
\<close>

definition south_node :: "SystemIDType \<Rightarrow> LevelType \<Rightarrow> TIEID \<times> LSDBEntry \<Rightarrow> NodeTIEElement option" where
  "south_node peerID level =
     (\<lambda>(tid, entry).
        if Direction tid = TieDirectionSouth \<and> TIEType tid = TIETypeNodeTIEType \<and> Originator tid = peerID
        then (case el_Node (tie_Element (le_Packet entry)) of
                None \<Rightarrow> None
              | Some node \<Rightarrow> if nt_Level node = level then Some node else None)
        else None)"

definition nodes_read :: "LevelType \<Rightarrow> (TIEID, LSDBEntry) gomap \<Rightarrow> SystemIDType \<Rightarrow> NodeTIEElement list" where
  "nodes_read level entries peerID = List.map_filter (south_node peerID level) entries"

definition peer_node :: "SystemIDType \<Rightarrow> LevelType \<Rightarrow> (TIEID, LSDBEntry) gomap \<Rightarrow> SystemIDType \<Rightarrow> NodeTIEElement \<Rightarrow> bool" where
  "peer_node systemID level entries peerID node \<longleftrightarrow>
     peerID \<noteq> systemID \<and> nodes_read level entries peerID \<noteq> [] \<and> last (nodes_read level entries peerID) = node"

lemma nodes_read_simps [simp]:
  "nodes_read level [] p = []"
  "nodes_read level (xs @ ys) p = nodes_read level xs p @ nodes_read level ys p"
  "nodes_read level [x] p = (case south_node p level x of None \<Rightarrow> [] | Some node \<Rightarrow> [node])"
  by (auto simp: nodes_read_def map_filter_def split: option.split)

lemma set_nodes_read: "node \<in> set (nodes_read level entries p) \<longleftrightarrow> (\<exists>x \<in> set entries. south_node p level x = Some node)"
  by (force simp: nodes_read_def map_filter_def)

lemma same_level_peers_get:
  "gm_get (same_level_peers systemID level entries) p =
     (if p = systemID \<or> nodes_read level entries p = [] then None
      else Some (peer_south_neighbors level (last (nodes_read level entries p))))"
proof (induction entries rule: rev_induct)
  case Nil
  show ?case by (simp add: same_level_peers_def gm_get_def)
next
  case (snoc x xs)
  obtain tid entry where x: "x = (tid, entry)" by (cases x)
  have "same_level_peers systemID level (xs @ [x]) =
    (if Direction tid \<noteq> TieDirectionSouth \<or> TIEType tid \<noteq> TIETypeNodeTIEType \<or> Originator tid = systemID
     then same_level_peers systemID level xs
     else case el_Node (tie_Element (le_Packet entry)) of
         None \<Rightarrow> same_level_peers systemID level xs
       | Some node \<Rightarrow>
           if nt_Level node \<noteq> level then same_level_peers systemID level xs
           else gm_put (Originator tid) (peer_south_neighbors level node) (same_level_peers systemID level xs))"
    unfolding same_level_peers_def x by (simp only: fold_append comp_apply fold_simps prod.case)
  with snoc.IH show ?case
    by (auto simp: x south_node_def gm_get_put split: option.split)
qed

lemma same_level_peers_wf: "gm_wf (same_level_peers systemID level entries)"
proof -
  have "gm_wf peers \<Longrightarrow> gm_wf (fold (\<lambda>(tid, entry) peers.
       if Direction tid \<noteq> TieDirectionSouth \<or> TIEType tid \<noteq> TIETypeNodeTIEType \<or> Originator tid = systemID then peers
       else case el_Node (tie_Element (le_Packet entry)) of
           None \<Rightarrow> peers
         | Some node \<Rightarrow>
             if nt_Level node \<noteq> level then peers
             else gm_put (Originator tid) (peer_south_neighbors level node) peers) es peers)" for es peers
  proof (induction es arbitrary: peers)
    case (Cons a es)
    show ?case unfolding fold_simps by (rule Cons.IH) (use Cons.prems in \<open>auto split: prod.split option.split\<close>)
  qed simp
  from this [of "[]" entries] show ?thesis unfolding same_level_peers_def by (simp add: gm_wf_def [of "[]"])
qed

lemma same_level_peers_exact:
  "(p, s) \<in> set (same_level_peers systemID level entries) \<longleftrightarrow>
    (\<exists>node. peer_node systemID level entries p node \<and> s = peer_south_neighbors level node)"
  by (auto simp: peer_node_def same_level_peers_get simp flip: gm_get_in [OF same_level_peers_wf])

text \<open>With one South Node TIE for each originator, the order in which the map is read does not matter.\<close>

definition one_node_tie :: "(TIEID, LSDBEntry) gomap \<Rightarrow> bool" where
  "one_node_tie entries \<longleftrightarrow>
     (\<forall>tid \<in> fst ` set entries. Direction tid = TieDirectionSouth \<and> TIEType tid = TIETypeNodeTIEType \<longrightarrow> TIENr tid = 1)"

lemma TIEID_eqI: "Direction a = Direction b \<Longrightarrow> Originator a = Originator b \<Longrightarrow> TIEType a = TIEType b \<Longrightarrow>
    TIENr a = TIENr b \<Longrightarrow> a = b"
  by (cases a; cases b) simp

lemma south_node_unique:
  assumes "one_node_tie entries" and "gm_wf entries" and "x \<in> set entries" and "y \<in> set entries"
    and "south_node p level x = Some node" and "south_node p level y = Some node'"
  shows "node = node'"
proof -
  obtain tx ex ty ey where xy: "x = (tx, ex)" "y = (ty, ey)" by (cases x; cases y)
  have tx: "Direction tx = TieDirectionSouth" "TIEType tx = TIETypeNodeTIEType" "Originator tx = p"
    and ty: "Direction ty = TieDirectionSouth" "TIEType ty = TIETypeNodeTIEType" "Originator ty = p"
    using assms(5,6) by (auto simp: xy south_node_def split: if_splits)
  then have "TIENr tx = 1" "TIENr ty = 1" using assms(1,3,4) by (force simp: one_node_tie_def xy)+
  with tx ty have "tx = ty" by (intro TIEID_eqI) simp_all
  with assms(2-4) have "ex = ey" unfolding xy by (metis gm_get_in option.inject)
  with \<open>tx = ty\<close> assms(5,6) show ?thesis by (simp add: xy)
qed

lemma peer_node_one:
  assumes "one_node_tie entries" and "gm_wf entries"
  shows "peer_node systemID level entries p node \<longleftrightarrow> p \<noteq> systemID \<and> (\<exists>x \<in> set entries. south_node p level x = Some node)"
proof (cases "nodes_read level entries p = []")
  case True
  then show ?thesis unfolding peer_node_def using set_nodes_read [of _ level entries p] by auto
next
  case False
  then have "last (nodes_read level entries p) \<in> set (nodes_read level entries p)" by simp
  then show ?thesis
    unfolding peer_node_def set_nodes_read using False south_node_unique [OF assms] by blast
qed

lemma mark_partial_dom:
  "gm_get (mark_partial south p peer partial) n \<noteq> None \<longleftrightarrow>
   gm_get partial n \<noteq> None \<or> n \<in> set south \<and> n \<notin> set peer"
proof -
  have "gm_get (fold (\<lambda>n partial.
       if n \<in> set peer then partial
       else gm_put n (gs_add p (case gm_get partial n of None \<Rightarrow> [] | Some s \<Rightarrow> s)) partial) ns partial) n \<noteq> None \<longleftrightarrow>
     gm_get partial n \<noteq> None \<or> n \<in> set ns \<and> n \<notin> set peer" for ns
    by (induction ns arbitrary: partial) (auto simp: gm_get_put)
  then show ?thesis by (simp add: mark_partial_def)
qed

lemma partial_neighbors_dom:
  "gm_get (partial_neighbors south peers) n \<noteq> None \<longleftrightarrow>
   n \<in> set south \<and> (\<exists>(p, peer) \<in> set peers. set peer \<inter> set south \<noteq> {} \<and> n \<notin> set peer)"
proof -
  have "gm_get (fold (\<lambda>(peerID, peer) partial.
       if \<exists>n \<in> set peer. n \<in> set south then mark_partial south peerID peer partial
       else partial) ps partial) n \<noteq> None \<longleftrightarrow>
     gm_get partial n \<noteq> None \<or>
     n \<in> set south \<and> (\<exists>(p, peer) \<in> set ps. set peer \<inter> set south \<noteq> {} \<and> n \<notin> set peer)" for ps partial
  proof (induction ps arbitrary: partial)
    case (Cons a ps)
    obtain p peer where a: "a = (p, peer)" by (cases a)
    have one: "gm_get (if \<exists>n \<in> set peer. n \<in> set south then mark_partial south p peer partial else partial) n \<noteq> None \<longleftrightarrow>
        gm_get partial n \<noteq> None \<or> n \<in> set south \<and> set peer \<inter> set south \<noteq> {} \<and> n \<notin> set peer"
      using mark_partial_dom [of south p peer partial n] by auto
    show ?case unfolding a fold_simps prod.case Cons.IH one by (auto simp del: not_None_eq)
  qed simp
  from this [of peers "[]"] show ?thesis by (simp add: partial_neighbors_def gm_get_def)
qed

lemma fold_collect:
  "set (fold (\<lambda>x result. if \<not> P x then result else if Q x then result else result @ [f x]) xs r) =
   set r \<union> f ` {x \<in> set xs. P x \<and> \<not> Q x}"
  by (induction xs arbitrary: r) auto
lemma set_disagg_prefixes:
  "dp \<in> set (disagg_prefixes partial southRIB) \<longleftrightarrow>
   (\<exists>r \<in> snd ` set southRIB. dp_Distance dp = rt_Metric r \<and> dp_Prefix dp = StringToPrefix (rt_Prefix r) \<and>
      ip_IPv4Prefix (dp_Prefix dp) \<noteq> None \<and>
      (\<exists>nh \<in> set (rt_NextHops r). gm_get partial (nh_NeighborID nh) \<noteq> None))"
proof -
  let ?P = "\<lambda>r :: Route. \<exists>nh \<in> set (rt_NextHops r). gm_get partial (nh_NeighborID nh) \<noteq> None"
  let ?Q = "\<lambda>r :: Route. ip_IPv4Prefix (StringToPrefix (rt_Prefix r)) = None"
  let ?f = "\<lambda>r :: Route. \<lparr>dp_Prefix = StringToPrefix (rt_Prefix r), dp_Distance = rt_Metric r\<rparr>"
  have "set (disagg_prefixes partial southRIB) = (\<lambda>x. ?f (snd x)) ` {x \<in> set southRIB. ?P (snd x) \<and> \<not> ?Q (snd x)}"
    using fold_collect [of "\<lambda>x. ?P (snd x)" "\<lambda>x. ?Q (snd x)" "\<lambda>x. ?f (snd x)" southRIB "[]"]
    unfolding disagg_prefixes_def Let_def case_prod_unfold by (simp only: list.set Un_empty_left)
  then show ?thesis by (cases dp) (auto simp: image_iff Bex_def simp del: not_None_eq)
qed

lemma disagg_prefixes_none: "(\<And>n. gm_get partial n = None) \<Longrightarrow> disagg_prefixes partial southRIB = []"
proof -
  assume "\<And>n. gm_get partial n = None"
  then have "set (disagg_prefixes partial southRIB) = {}" by (intro equals0I) (simp add: set_disagg_prefixes)
  then show "disagg_prefixes partial southRIB = []" by simp
qed

section \<open>Properties\<close>

text \<open>
  A neighbor below is partial when a peer of the same level, which has another neighbor below in common
  with this node, does not list it.
\<close>

definition partially_reached ::
  "SystemIDType \<Rightarrow> LevelType \<Rightarrow> (string, AdjacencyInfo) gomap \<Rightarrow> (TIEID, LSDBEntry) gomap \<Rightarrow> SystemIDType \<Rightarrow> bool" where
  "partially_reached systemID level adjacencies entries n \<longleftrightarrow>
     (let below = {m. \<exists>adj \<in> snd ` set adjacencies. slt (ai_NeighborLevel adj) level \<and> ai_NeighborID adj = m};
          listed = (\<lambda>node. {m. \<exists>e. (m, e) \<in> set (nt_Neighbors node) \<and> slt (nn_Level e) level})
      in n \<in> below \<and> (\<exists>p node. peer_node systemID level entries p node \<and> listed node \<inter> below \<noteq> {} \<and> n \<notin> listed node))"

lemma partial_neighbors_exact:
  "gm_get (partial_neighbors (own_south_neighbors level adjacencies) (same_level_peers systemID level entries)) n \<noteq> None \<longleftrightarrow>
    partially_reached systemID level adjacencies entries n"
proof -
  have below: "set (own_south_neighbors level adjacencies) =
      {m. \<exists>adj \<in> snd ` set adjacencies. slt (ai_NeighborLevel adj) level \<and> ai_NeighborID adj = m}"
    by (rule set_eqI) (simp only: set_own_south_neighbors mem_Collect_eq)
  have listed: "set (peer_south_neighbors level node) = {m. \<exists>e. (m, e) \<in> set (nt_Neighbors node) \<and> slt (nn_Level e) level}"
    for node by (rule set_eqI) (simp only: set_peer_south_neighbors mem_Collect_eq)
  have peers: "(\<exists>(p, peer) \<in> set (same_level_peers systemID level entries). Q peer) \<longleftrightarrow>
      (\<exists>p node. peer_node systemID level entries p node \<and> Q (peer_south_neighbors level node))" for Q
    unfolding Bex_def split_paired_Ex prod.case same_level_peers_exact by blast
  show ?thesis
    unfolding partial_neighbors_dom peers partially_reached_def Let_def below listed by (rule refl)
qed

lemma ComputeDisaggregation_exact:
  "dp \<in> set (ComputeDisaggregation systemID level adjacencies entries southRIB) \<longleftrightarrow>
    (\<exists>r \<in> snd ` set southRIB. dp_Distance dp = rt_Metric r \<and> dp_Prefix dp = StringToPrefix (rt_Prefix r) \<and>
       ip_IPv4Prefix (dp_Prefix dp) \<noteq> None \<and>
       (\<exists>nh \<in> set (rt_NextHops r). partially_reached systemID level adjacencies entries (nh_NeighborID nh)))"
proof -
  let ?south = "own_south_neighbors level adjacencies" and ?peers = "same_level_peers systemID level entries"
  let ?partial = "partial_neighbors ?south ?peers"
  have "gm_get ?partial n = None" if "?south = [] \<or> ?peers = [] \<or> ?partial = []" for n
    using that
  proof (elim disjE)
    show "?south = [] \<Longrightarrow> ?thesis" using partial_neighbors_dom [of ?south ?peers n] by simp
    show "?peers = [] \<Longrightarrow> ?thesis" using partial_neighbors_dom [of ?south ?peers n] by simp
  qed (simp add: gm_get_def)
  then have "disagg_prefixes ?partial southRIB = []" if "?south = [] \<or> ?peers = [] \<or> ?partial = []"
    using that by (intro disagg_prefixes_none) blast
  then have "ComputeDisaggregation systemID level adjacencies entries southRIB = disagg_prefixes ?partial southRIB"
    unfolding ComputeDisaggregation_def Let_def by presburger
  then show ?thesis
    by (simp only: set_disagg_prefixes partial_neighbors_exact)
qed

lemma partially_reached_order:
  assumes "one_node_tie entries" and "gm_wf entries" and "gm_wf entries'" and "set entries' = set entries"
    and "set adjacencies' = set adjacencies"
  shows "partially_reached systemID level adjacencies' entries' n = partially_reached systemID level adjacencies entries n"
proof -
  have "one_node_tie entries'" using assms(1,4) by (simp add: one_node_tie_def)
  then have "peer_node systemID level entries' = peer_node systemID level entries"
    using assms(2-4) by (intro ext) (simp only: peer_node_one [OF assms(1,2)] peer_node_one)
  with assms(5) show ?thesis by (simp add: partially_reached_def)
qed

text \<open>
  C8 \<^bold>\<open>Disaggregation announces exactly the prefixes behind partially reached neighbors.\<close> A prefix is
  disaggregated, at the metric of its southbound route, exactly when it is an IPv4 prefix and a next hop of
  that route is a neighbor below that a peer with a common neighbor does not list. What a peer lists is what its
  South Node TIE at this level lists; if the database holds several of them, the one that is read last. So if every
  South Node TIE has the number 1, as the ones this program originates, the announced prefixes do not depend on the
  order in which any of the maps is read.
\<close>

theorem disaggregation_exact:
  "(dp \<in> set (ComputeDisaggregation systemID level adjacencies entries southRIB) \<longleftrightarrow>
    (\<exists>r \<in> snd ` set southRIB. dp_Distance dp = rt_Metric r \<and> dp_Prefix dp = StringToPrefix (rt_Prefix r) \<and>
       ip_IPv4Prefix (dp_Prefix dp) \<noteq> None \<and>
       (\<exists>nh \<in> set (rt_NextHops r). partially_reached systemID level adjacencies entries (nh_NeighborID nh)))) \<and>
   (one_node_tie entries \<and> gm_wf entries \<and> gm_wf entries' \<and> set entries' = set entries \<and>
    set adjacencies' = set adjacencies \<and> set southRIB' = set southRIB \<longrightarrow>
      set (ComputeDisaggregation systemID level adjacencies' entries' southRIB') =
      set (ComputeDisaggregation systemID level adjacencies entries southRIB))"
proof (intro conjI impI)
  assume same: "one_node_tie entries \<and> gm_wf entries \<and> gm_wf entries' \<and> set entries' = set entries \<and>
    set adjacencies' = set adjacencies \<and> set southRIB' = set southRIB"
  then show "set (ComputeDisaggregation systemID level adjacencies' entries' southRIB') =
      set (ComputeDisaggregation systemID level adjacencies entries southRIB)"
    using partially_reached_order [of entries entries' adjacencies' adjacencies systemID level]
    by (intro set_eqI) (simp only: ComputeDisaggregation_exact simp_thms)
qed (rule ComputeDisaggregation_exact)

text \<open>
  Spines 1 and 2 share leaf 3; leaf 4 has lost its link to spine 2. Spine 1 disaggregates the prefix
  of leaf 4.
\<close>

definition ex_peer_adj :: "string \<Rightarrow> SystemIDType \<Rightarrow> string \<times> AdjacencyInfo" where
  "ex_peer_adj ifn s = (ifn, \<lparr>ai_InterfaceName = ifn, ai_NeighborID = s, ai_NeighborLevel = 0,
     ai_NeighborAddr = Addr4 9, ai_FloodPort = 915, ai_LocalLinkID = 10, ai_NeighborLinkID = 20\<rparr>)"

definition ex_peer_entries :: "(TIEID, LSDBEntry) gomap" where
  "ex_peer_entries = [ex_node_tie TieDirectionSouth 2 1 [(3, zero_NodeNeighbors)]]"

definition ex_leaf4_rib :: RIB where
  "ex_leaf4_rib = [(''10.0.0.4/32'', \<lparr>rt_Prefix = ''10.0.0.4/32'', rt_Metric = 2, rt_RouteType = 6,
     rt_NextHops = [\<lparr>nh_NeighborID = 4, nh_Address = Addr4 9, nh_Interface = ''e2''\<rparr>]\<rparr>)]"

theorem disaggregation_exact_witness:
  "\<lparr>dp_Prefix = StringToPrefix ''10.0.0.4/32'', dp_Distance = 2\<rparr> \<in>
     set (ComputeDisaggregation 1 1 [ex_peer_adj ''e2'' 4, ex_peer_adj ''e1'' 3] ex_peer_entries ex_leaf4_rib)"
proof -
  have "one_node_tie ex_peer_entries" "gm_wf ex_peer_entries"
    by (simp_all add: one_node_tie_def ex_peer_entries_def ex_node_tie_def gm_wf_def)
  then have order: "set (ComputeDisaggregation 1 1 [ex_peer_adj ''e2'' 4, ex_peer_adj ''e1'' 3] ex_peer_entries ex_leaf4_rib) =
      set (ComputeDisaggregation 1 1 [ex_peer_adj ''e1'' 3, ex_peer_adj ''e2'' 4] ex_peer_entries ex_leaf4_rib)"
    by (intro disaggregation_exact [THEN conjunct2, rule_format] conjI) auto
  have "partially_reached 1 1 [ex_peer_adj ''e1'' 3, ex_peer_adj ''e2'' 4] ex_peer_entries 4"
    by (auto simp: partially_reached_def peer_node_def nodes_read_def map_filter_def south_node_def ex_peer_adj_def
        ex_peer_entries_def ex_node_tie_def zero_NodeTIEElement_def zero_NodeNeighbors_def Let_def)
  moreover have "ip_IPv4Prefix (StringToPrefix ''10.0.0.4/32'') \<noteq> None"
    by code_simp
  ultimately show ?thesis unfolding order by (subst disaggregation_exact [THEN conjunct1]) (simp_all add: ex_leaf4_rib_def)
qed

text \<open>
  If the neighbors of spine 2 are split over two South Node TIEs, leaf 3 in one and leaf 4 in the other, it depends
  on the order of the map whether spine 1 disaggregates leaf 4, which spine 2 does reach.
\<close>

definition ex_split_entry :: "TIEID \<times> LSDBEntry" where
  "ex_split_entry = (TIEID TieDirectionSouth 2 TIETypeNodeTIEType 2,
     snd (ex_node_tie TieDirectionSouth 2 1 [(4, zero_NodeNeighbors)]))"

lemma split_node_ties_depend_on_order:
  "ComputeDisaggregation 1 1 [ex_peer_adj ''e1'' 3, ex_peer_adj ''e2'' 4] (ex_split_entry # ex_peer_entries) ex_leaf4_rib \<noteq> []"
  "ComputeDisaggregation 1 1 [ex_peer_adj ''e1'' 3, ex_peer_adj ''e2'' 4] (ex_peer_entries @ [ex_split_entry]) ex_leaf4_rib = []"
  by code_simp+

end
