(* ===== verification/Spf_Engine.thy ===== *)
theory Spf_Engine
  imports Spf_Disagg
begin

text \<open>
  The SPF engine, \<open>src/internal/spf/spf.go\<close>: a run computes the RIB of a leaf northbound, and that of any
  other node southbound with the northbound routes added. Its lock orders the readers only, so a run is one
  step of the model.
\<close>

section \<open>The engine\<close>

record Engine =
  en_systemID :: SystemIDType
  en_level :: LevelType
  en_rib :: RIB
  en_southRIB :: "RIB option"

definition NewEngine :: "SystemIDType \<Rightarrow> LevelType \<Rightarrow> Engine" where
  "NewEngine systemID level = \<lparr>en_systemID = systemID, en_level = level, en_rib = [], en_southRIB = None\<rparr>"

text \<open>The routes of one RIB added to another.\<close>

definition add_rib :: "RIB \<Rightarrow> RIB \<Rightarrow> RIB" where
  "add_rib northRIB rib =
     fold (\<lambda>(prefix, route) rib. addRoute prefix (rt_Metric route) (rt_RouteType route) (rt_NextHops route) rib)
       northRIB rib"

text \<open>A run over a snapshot of the database and the adjacencies of the flood engine.\<close>

definition Engine_Run :: "FloodEngine \<Rightarrow> Engine \<Rightarrow> Engine" where
  "Engine_Run fe e =
     (let entries = LSDB_Snapshot (fe_lsdb fe); adjacencies = Adjacencies fe
      in if en_level e = LeafLevel then
           e\<lparr>en_rib := ComputeNorthbound (en_systemID e) (en_level e) adjacencies entries, en_southRIB := None\<rparr>
         else
           (let sRIB = ComputeSouthbound (en_systemID e) (en_level e) adjacencies entries;
                northRIB = ComputeNorthbound (en_systemID e) (en_level e) adjacencies entries
            in e\<lparr>en_rib := add_rib northRIB sRIB, en_southRIB := Some sRIB\<rparr>))"

definition Engine_RIB :: "Engine \<Rightarrow> RIB" where
  "Engine_RIB e = en_rib e"

definition Engine_SouthRIB :: "Engine \<Rightarrow> RIB option" where
  "Engine_SouthRIB e = en_southRIB e"

section \<open>Southbound routes win\<close>

lemma add_rib_get:
  assumes "distinct (map fst rs)"
    and "\<forall>(p, r) \<in> set rs. rt_Prefix r = p \<and> rt_RouteType r = RouteTypeSouthPrefix"
    and "\<forall>p r. p \<in> fst ` set rs \<longrightarrow> gm_get rib p = Some r \<longrightarrow> rt_RouteType r = RouteTypeNorthPrefix"
  shows "gm_get (add_rib rs rib) p = (case gm_get rib p of None \<Rightarrow> gm_get rs p | Some r \<Rightarrow> Some r)"
  using assms
proof (induction rs arbitrary: rib)
  case Nil
  then show ?case by (simp add: add_rib_def gm_get_def split: option.split)
next
  case (Cons a rs)
  obtain q r where a: "a = (q, r)" by (cases a)
  let ?rib = "addRoute q (rt_Metric r) (rt_RouteType r) (rt_NextHops r) rib"
  have r: "rt_Prefix r = q" "rt_RouteType r = RouteTypeSouthPrefix" using Cons.prems(2) by (auto simp: a)
  have get: "gm_get ?rib p' = (if p' = q \<and> gm_get rib q = None then Some r else gm_get rib p')" for p'
  proof (cases "gm_get rib q")
    case None
    have "r = \<lparr>rt_Prefix = q, rt_Metric = rt_Metric r, rt_RouteType = rt_RouteType r, rt_NextHops = rt_NextHops r\<rparr>"
      using r(1) by (cases r) simp
    with None show ?thesis by (simp add: addRoute_def gm_get_put Let_def)
  next
    case (Some x)
    then have "rt_RouteType x = RouteTypeNorthPrefix" using Cons.prems(3) by (force simp: a)
    with Some r show ?thesis by (simp add: addRoute_def Let_def)
  qed
  have q: "q \<notin> fst ` set rs" using Cons.prems(1) by (simp add: a)
  have "gm_get (add_rib rs ?rib) p = (case gm_get ?rib p of None \<Rightarrow> gm_get rs p | Some r \<Rightarrow> Some r)"
  proof (rule Cons.IH)
    show "\<forall>p r. p \<in> fst ` set rs \<longrightarrow> gm_get ?rib p = Some r \<longrightarrow> rt_RouteType r = RouteTypeNorthPrefix"
    proof (intro allI impI)
      fix p' x assume "p' \<in> fst ` set rs" "gm_get ?rib p' = Some x"
      then show "rt_RouteType x = RouteTypeNorthPrefix"
        using Cons.prems(3) q by (cases "p' = q") (auto simp: a get)
    qed
  qed (use Cons.prems in \<open>simp_all add: a\<close>)
  moreover have "gm_get rs q = None" using q by (simp add: gm_get_def map_of_eq_None_iff)
  moreover have "gm_get (a # rs) p = (if p = q then Some r else gm_get rs p)" by (simp add: a gm_get_def)
  moreover have "add_rib (a # rs) rib = add_rib rs ?rib" by (simp add: a add_rib_def)
  ultimately show ?case by (cases "p = q"; cases "gm_get rib p") (simp_all add: get)
qed

lemma south_route_type:
  assumes "gm_get (ComputeSouthbound systemID level adjacencies entries) p = Some r"
  shows "rt_RouteType r = RouteTypeNorthPrefix"
  using best_route_offered [OF rib_for_get [OF south_rib assms]] by (auto simp: south_offers_def)

lemma north_route:
  assumes "gm_get (ComputeNorthbound systemID level adjacencies entries) p = Some r"
  shows "rt_Prefix r = p \<and> rt_RouteType r = RouteTypeSouthPrefix"
  using best_route_offered [OF rib_for_get [OF north_rib assms]] rib_for_get [OF north_rib assms]
  by (auto simp: north_offers_def best_route_def)

lemma add_north_south:
  "gm_get (add_rib (ComputeNorthbound systemID level adjs entries) (ComputeSouthbound systemID level adjs entries)) p =
   (case gm_get (ComputeSouthbound systemID level adjs entries) p of
      None \<Rightarrow> gm_get (ComputeNorthbound systemID level adjs entries) p | Some r \<Rightarrow> Some r)"
proof (rule add_rib_get)
  let ?north = "ComputeNorthbound systemID level adjs entries"
  have wf: "gm_wf ?north" using north_rib [of systemID level adjs entries] by (simp add: rib_for_def)
  then show "distinct (map fst ?north)" by (simp add: gm_wf_def)
  show "\<forall>(p, r) \<in> set ?north. rt_Prefix r = p \<and> rt_RouteType r = RouteTypeSouthPrefix"
    using north_route by (fastforce simp flip: gm_get_in [OF wf])
qed (auto dest: south_route_type)

section \<open>Next hops are adjacencies\<close>

definition hops_ok :: "(SystemIDType, AdjacencyInfo) gomap \<Rightarrow> dist_map \<Rightarrow> bool" where
  "hops_ok adjs dist \<longleftrightarrow> (\<forall>v n. gm_get dist v = Some n \<longrightarrow> (\<forall>nh \<in> set (sn_nextHops n). hop_ok adjs nh))"

lemma relax_to_hops:
  assumes "hops_ok adjs (fst s)" and "\<forall>nh \<in> set nhs. hop_ok adjs nh"
  shows "hops_ok adjs (fst (relax_to v d nhs s))"
proof -
  obtain dist pq where s: "s = (dist, pq)" by (cases s)
  have "\<forall>nh \<in> set (MergeNextHops (sn_nextHops n) nhs). hop_ok adjs nh" if "gm_get dist v = Some n" for n
    using that set_merge [of "sn_nextHops n" nhs] assms by (force simp: hops_ok_def s)
  then show ?thesis
    using assms by (auto simp: s relax_to_def Let_def hops_ok_def gm_get_put split: option.split if_splits)
qed

lemma relaxes_hops:
  "hops_ok adjs (fst s) \<Longrightarrow> \<forall>nh \<in> set hops. hop_ok adjs nh \<Longrightarrow>
   hops_ok adjs (fst (fold (relax self adjs entries south u d hops) ns s))"
proof (induction ns arbitrary: s)
  case (Cons n ns)
  obtain v e where n: "n = (v, e)" by (cases n)
  have "usable self adjs entries south u v e \<Longrightarrow> u = self \<Longrightarrow> hop_ok adjs (hop_to v (the (gm_get adjs v)))"
    by (auto simp: usable_def hop_ok_def hop_to_def)
  then have "hops_ok adjs (fst (relax self adjs entries south u d hops n s))"
    using Cons.prems by (auto simp: n relax_eq intro!: relax_to_hops)
  then show ?case using Cons.IH Cons.prems(2) by simp
qed simp

lemma south_step_hops: "hops_ok adjs (fst s) \<Longrightarrow> hops_ok adjs (fst (south_step self adjs entries s))"
proof -
  assume ok: "hops_ok adjs (fst s)"
  obtain dist pq where s: "s = (dist, pq)" by (cases s)
  obtain item pq' where pop: "heap_pop pq_key pq = (item, pq')" by fastforce
  have "\<forall>nh \<in> set (sn_nextHops node). hop_ok adjs nh" if "gm_get dist (pq_systemID item) = Some node" for node
    using ok that by (simp add: hops_ok_def s)
  then show ?thesis
    using ok relaxes_hops [of adjs "(dist, pq')"]
    by (auto simp: s south_step_def pop Let_def split: option.split)
qed

lemma south_loop_hops: "hops_ok adjs (fst s) \<Longrightarrow> hops_ok adjs (south_loop self adjs entries s)"
proof (induction s rule: measure_induct_rule [of "work entries"])
  case (less s)
  obtain dist pq where s: "s = (dist, pq)" by (cases s)
  show ?case
    using less.IH [of "south_step self adjs entries s"] south_step_work [of pq entries self adjs dist]
      south_step_hops [OF less.prems] less.prems
    by (subst south_loop.simps) (auto simp: s)
qed

lemma south_dist_hops: "hops_ok (adj_by_neighbor adjacencies) (south_dist systemID adjacencies entries)"
  unfolding south_dist_def
  by (intro south_loop_hops) (auto simp: south_init_def hops_ok_def gm_get_put gm_get_def [of "[]"])

lemma hop_ok_adj: "hop_ok (adj_by_neighbor adjacencies) nh \<Longrightarrow> \<exists>adj \<in> snd ` set adjacencies. nh = adj_hop adj"
proof -
  assume "hop_ok (adj_by_neighbor adjacencies) nh"
  then obtain adj where "gm_get (adj_by_neighbor adjacencies) (nh_NeighborID nh) = Some adj"
    and nh: "nh = hop_to (nh_NeighborID nh) adj" by (auto simp: hop_ok_def)
  from adj_by_neighbor_get [OF this(1)] have adj: "adj \<in> snd ` set adjacencies" "ai_NeighborID adj = nh_NeighborID nh"
    by blast+
  have "nh = adj_hop adj" by (subst nh) (simp add: hop_to_def adj_hop_def adj(2))
  with adj(1) show ?thesis by blast
qed

definition live_hops :: "(string, AdjacencyInfo) gomap \<Rightarrow> Route \<Rightarrow> bool" where
  "live_hops adjacencies r \<longleftrightarrow>
     rt_NextHops r \<noteq> [] \<and> (\<forall>nh \<in> set (rt_NextHops r). \<exists>adj \<in> snd ` set adjacencies. nh = adj_hop adj)"

lemma best_route_live:
  assumes "best_route offers p r"
    and "\<And>p m t nhs. (p, m, t, nhs) \<in> offers \<Longrightarrow> nhs \<noteq> [] \<and> (\<forall>nh \<in> set nhs. \<exists>adj \<in> snd ` set adjacencies. nh = adj_hop adj)"
  shows "live_hops adjacencies r"
proof -
  obtain nhs where nhs: "nhs \<in> best_hops offers p (rt_Metric r) (rt_RouteType r)"
    using assms(1) by (auto simp: best_route_def)
  then have "nhs \<noteq> []" using assms(2) by (auto simp: best_hops_def)
  then have "nh_ids nhs \<noteq> {}" by simp
  moreover have "nh_ids nhs \<subseteq> nh_ids (rt_NextHops r)" using nhs assms(1) unfolding best_route_def by auto
  ultimately have "nh_ids (rt_NextHops r) \<noteq> {}" by (metis subset_empty)
  moreover have "\<exists>adj \<in> snd ` set adjacencies. nh = adj_hop adj" if nh: "nh \<in> set (rt_NextHops r)" for nh
  proof -
    from assms(1) nh obtain nhs where o: "(p, rt_Metric r, rt_RouteType r, nhs) \<in> offers" "nh \<in> set nhs"
      by (rule best_route_hop)
    from assms(2) [OF o(1)] o(2) show ?thesis by simp
  qed
  ultimately show ?thesis by (simp add: live_hops_def)
qed

lemma south_live:
  assumes "gm_get (ComputeSouthbound systemID level adjacencies entries) p = Some r"
  shows "live_hops adjacencies r"
proof (rule best_route_live [OF rib_for_get [OF south_rib assms]])
  fix q m t nhs
  assume "(q, m, t, nhs) \<in> south_offers systemID entries (south_dist systemID adjacencies entries)"
  then obtain v n where "gm_get (south_dist systemID adjacencies entries) v = Some n" "nhs = sn_nextHops n" "nhs \<noteq> []"
    by (auto simp: south_offers_def)
  then show "nhs \<noteq> [] \<and> (\<forall>nh \<in> set nhs. \<exists>adj \<in> snd ` set adjacencies. nh = adj_hop adj)"
    using south_dist_hops [of adjacencies systemID entries] hop_ok_adj unfolding hops_ok_def by blast
qed

lemma north_live:
  assumes "gm_get (ComputeNorthbound systemID level adjacencies entries) p = Some r"
  shows "live_hops adjacencies r"
proof (rule best_route_live [OF rib_for_get [OF north_rib assms]])
  fix q m t nhs assume "(q, m, t, nhs) \<in> north_offers systemID level adjacencies entries"
  then obtain adj where "nhs = [adj_hop adj]" "adj \<in> snd ` set adjacencies"
    unfolding north_offers_def north_link_def by blast
  then show "nhs \<noteq> [] \<and> (\<forall>nh \<in> set nhs. \<exists>adj \<in> snd ` set adjacencies. nh = adj_hop adj)" by auto
qed

lemma engine_live:
  assumes "gm_get (Engine_RIB (Engine_Run fe e)) p = Some r"
  shows "live_hops (Adjacencies fe) r"
proof -
  have "gm_get (ComputeNorthbound (en_systemID e) (en_level e) (Adjacencies fe) (LSDB_Snapshot (fe_lsdb fe))) p = Some r \<or>
      gm_get (ComputeSouthbound (en_systemID e) (en_level e) (Adjacencies fe) (LSDB_Snapshot (fe_lsdb fe))) p = Some r"
    using assms by (auto simp: Engine_Run_def Engine_RIB_def Let_def add_north_south split: if_splits option.splits)
  then show ?thesis using north_live south_live by blast
qed

section \<open>Properties\<close>

text \<open>
  \<^bold>\<open>A run combines the two computations.\<close> On a leaf the RIB is the northbound one and there is no
  southbound RIB. On any other node the southbound RIB is the southbound computation, and the RIB has
  its route for every prefix it knows and the northbound route for the others - also when the northbound
  one is cheaper. System id and level do not change.
\<close>

theorem engine_run:
  "let entries = LSDB_Snapshot (fe_lsdb fe); adjs = Adjacencies fe; e' = Engine_Run fe e;
       north = ComputeNorthbound (en_systemID e) (en_level e) adjs entries;
       south = ComputeSouthbound (en_systemID e) (en_level e) adjs entries in
   en_systemID e' = en_systemID e \<and> en_level e' = en_level e \<and>
   Engine_SouthRIB e' = (if en_level e = LeafLevel then None else Some south) \<and>
   gm_get (Engine_RIB e') p =
     (if en_level e = LeafLevel then gm_get north p
      else case gm_get south p of None \<Rightarrow> gm_get north p | Some r \<Rightarrow> Some r)"
  by (simp add: Engine_Run_def Engine_RIB_def Engine_SouthRIB_def Let_def add_north_south)

text \<open>
  C11 \<^bold>\<open>Every route leads to an adjacency.\<close> Whatever the database holds and whatever the costs, after a run
  every route of the RIB has a next hop, and all its next hops are the neighbor, address and interface of
  a current adjacency.
\<close>

theorem engine_hops_live:
  assumes "gm_get (Engine_RIB (Engine_Run fe e)) p = Some r"
  shows "rt_NextHops r \<noteq> [] \<and> (\<forall>nh \<in> set (rt_NextHops r). \<exists>adj \<in> snd ` set (Adjacencies fe).
    nh_NeighborID nh = ai_NeighborID adj \<and> nh_Address nh = ai_NeighborAddr adj \<and> nh_Interface nh = ai_InterfaceName adj)"
  using engine_live [OF assms] unfolding live_hops_def by (metis adj_hop_simps)

text \<open>Leaf 7 under spine 1.\<close>

definition ex_leaf :: FloodEngine where
  "ex_leaf = (NewFloodEngine 7 0 ''leaf'' [] 0)
     \<lparr>fe_lsdb := NewLSDB\<lparr>db_entries := [ex_south_node 1]\<rparr>,
      fe_adjacencies := [(''e1'', newAdjFloodState (ex_spine ''e1'' 1 (Addr4 1)))]\<rparr>"

theorem engine_hops_live_witness:
  "\<exists>r. gm_get (Engine_RIB (Engine_Run ex_leaf (NewEngine 7 0))) ''0.0.0.0/0'' = Some r \<and> rt_NextHops r \<noteq> []"
proof -
  let ?r = "\<lparr>rt_Prefix = ''0.0.0.0/0'', rt_Metric = 1, rt_RouteType = 8,
    rt_NextHops = [\<lparr>nh_NeighborID = 1, nh_Address = Addr4 1, nh_Interface = ''e1''\<rparr>]\<rparr>"
  have "gm_get (Engine_RIB (Engine_Run ex_leaf (NewEngine 7 0))) ''0.0.0.0/0'' = Some ?r"
    by (simp add: Engine_Run_def Engine_RIB_def NewEngine_def ex_leaf_def LSDB_Snapshot_def Adjacencies_def gm_map_def
        NewFloodEngine_def newAdjFloodState_def NewLSDB_def
        ComputeNorthbound_def validated_neighbors_def ex_spine_def ex_south_node_def FindNodeTIE_def
        gm_get_def zero_TIEPacket_def zero_TIEElement_def zero_NodeTIEElement_def link_cost_to_def min_cost_def
        default_next_hops_def addRoute_def gm_put_def FindPrefixTIEs_def FindPositiveDisaggPrefixTIEs_def
        attach_prefixes_def Let_def)
  with engine_hops_live [OF this] show ?thesis by blast
qed

end
