(* ===== verification/Telemetry.thy ===== *)
theory Telemetry
  imports Config Lie_FSM Spf_Engine
begin

text \<open>
  What the agent reports, \<open>src/internal/agent/agent.go\<close>: the state of an adjacency, and the summaries of the
  link-state database, of the RIB and of the disaggregated prefixes. The values are those given to
  \<open>UpdateTelemetry\<close>, before they are marshalled to JSON; an omitted field is \<open>None\<close>.
\<close>

section \<open>Texts\<close>

text \<open>\<open>netip.Addr.String\<close>\<close>

definition hex_digit :: "nat \<Rightarrow> char" where
  "hex_digit d = (if d < 10 then char_of (48 + d) else char_of (87 + d))"

fun hex :: "nat \<Rightarrow> string" where
  "hex n = (if n < 16 then [hex_digit n] else hex (n div 16) @ [hex_digit (n mod 16)])"

declare hex.simps [simp del]

definition zero_span :: "nat list \<Rightarrow> nat \<times> nat" where
  "zero_span ws =
     fold (\<lambda>i (zeroStart, zeroEnd).
       let l = length (takeWhile (\<lambda>w. w = 0) (drop i ws))
       in if 2 \<le> l \<and> zeroEnd - zeroStart < l then (i, i + l) else (zeroStart, zeroEnd)) [0..<8] (255, 255)"

definition text6 :: "nat list \<Rightarrow> string" where
  "text6 ws =
     (let (zeroStart, zeroEnd) = zero_span ws
      in concat (map (\<lambda>i.
           if i = zeroStart then ''::'' else if zeroStart < i \<and> i < zeroEnd then ''''
           else (if i = 0 \<or> i = zeroEnd then '''' else '':'') @ hex (ws ! i)) [0..<8]))"

definition text4 :: "32 word \<Rightarrow> string" where
  "text4 w = addr_text (ucast (drop_bit 24 w)) (ucast (drop_bit 16 w)) (ucast (drop_bit 8 w)) (ucast w)"

definition Addr_String :: "Addr \<Rightarrow> string" where
  "Addr_String a =
     (case a of
        ZeroAddr \<Rightarrow> ''invalid IP''
      | Addr4 w \<Rightarrow> text4 w
      | Addr6 w \<Rightarrow>
          if drop_bit 32 w = 0xFFFF then ''::ffff:'' @ text4 (ucast w)
          else text6 (map (\<lambda>i. unat (take_bit 16 (drop_bit (16 * (7 - i)) w))) [0..<8]))"

text \<open>The verb \<open>%q\<close> on ASCII text.\<close>

definition quote_char :: "char \<Rightarrow> string" where
  "quote_char c =
     (let n = (of_char c :: nat)
      in if n = 34 \<or> n = 92 then [char_of (92 :: nat), c]
         else if n = 7 then [char_of (92 :: nat), CHR ''a'']
         else if n = 8 then [char_of (92 :: nat), CHR ''b'']
         else if n = 12 then [char_of (92 :: nat), CHR ''f'']
         else if n = 10 then [char_of (92 :: nat), CHR ''n'']
         else if n = 13 then [char_of (92 :: nat), CHR ''r'']
         else if n = 9 then [char_of (92 :: nat), CHR ''t'']
         else if n = 11 then [char_of (92 :: nat), CHR ''v'']
         else if n < 32 \<or> n = 127 then [char_of (92 :: nat), CHR ''x'', hex_digit (n div 16), hex_digit (n mod 16)]
         else [c])"

definition Quote :: "string \<Rightarrow> string" where
  "Quote s = CHR 0x22 # concat (map quote_char s) @ [CHR 0x22]"

fun Join :: "string \<Rightarrow> string list \<Rightarrow> string" where
  "Join sep [] = []"
| "Join sep [s] = s"
| "Join sep (s # ss) = s @ sep @ Join sep ss"

section \<open>Adjacencies\<close>

fun State_String :: "State \<Rightarrow> string" where
  "State_String OneWay = ''one-way''"
| "State_String TwoWay = ''two-way''"
| "State_String ThreeWay = ''three-way''"
| "State_String MultipleNeighborsWait = ''multiple-neighbors-wait''"

record adjacencyTelemetry =
  at_State :: string
  at_NeighborSystemID :: "int64 option"
  at_NeighborLevel :: "int8 option"
  at_NeighborAddress :: "string option"

definition updateAdjacencyTelemetry :: "AdjacencyEvent \<Rightarrow> string \<times> adjacencyTelemetry" where
  "updateAdjacencyTelemetry ev =
     (''.rift.interface{.name=='' @ Quote (ae_InterfaceName ev) @ ''}'',
      \<lparr>at_State = State_String (ae_State ev),
       at_NeighborSystemID = map_option ns_SystemID (ae_Neighbor ev),
       at_NeighborLevel = map_option ns_Level (ae_Neighbor ev),
       at_NeighborAddress = map_option (\<lambda>n. Addr_String (ns_Address n)) (ae_Neighbor ev)\<rparr>)"

section \<open>Summaries\<close>

record lsdbTIESummary =
  sm_Direction :: string
  sm_Originator :: int64
  sm_TIEType :: string
  sm_TIENr :: int32
  sm_SequenceNumber :: int64
  sm_RemainingLifetime :: int32
  sm_SelfOriginated :: bool

definition formatLSDBSummary :: "lsdbTIESummary list \<Rightarrow> string" where
  "formatLSDBSummary ties =
     (if length ties = 0 then ''empty''
      else snd (fold (\<lambda>t (i :: nat, s).
        (let s = (if i > 0 then s @ '' | '' else s);
             origin = (if sm_SelfOriginated t then '' (self)'' else '''')
         in (Suc i, s @ sm_Direction t @ ''-'' @ sm_TIEType t @ '':'' @ fmt_d (sint (sm_Originator t)) @ ''#'' @
               fmt_d (sint (sm_TIENr t)) @ ''-seq'' @ fmt_d (sint (sm_SequenceNumber t)) @ ''-lt'' @
               fmt_d (sint (sm_RemainingLifetime t)) @ origin))) ties (0, '''')))"

definition disaggSummaryString :: "PrefixEntry list \<Rightarrow> string" where
  "disaggSummaryString prefixes =
     (if length prefixes = 0 then ''none''
      else Join '' | '' (map (\<lambda>pe. PrefixToString (pe_Prefix pe) @ '' metric='' @
             fmt_d (sint (pa_Metric (pe_Attributes pe)))) prefixes))"

definition ribSummaryString :: "RIB \<Rightarrow> string" where
  "ribSummaryString rib =
     (if length rib = 0 then ''''
      else fold (\<lambda>(prefix, route) summary.
        (let summary = (if summary \<noteq> '''' then summary @ '' | '' else summary);
             nhAddrs = map (\<lambda>nh. Addr_String (nh_Address nh)) (rt_NextHops route)
         in summary @ prefix @ '' metric='' @ fmt_d (sint (rt_Metric route)) @ '' nh=['' @ Join '' '' nhAddrs @ '']''))
        rib '''')"

definition tie_summary :: "TIEID \<Rightarrow> LSDBEntry \<Rightarrow> lsdbTIESummary" where
  "tie_summary tid entry =
     \<lparr>sm_Direction = (if Direction tid = TieDirectionNorth then ''north'' else ''south''),
      sm_Originator = Originator tid,
      sm_TIEType =
        (if TIEType tid = TIETypePrefixTIEType then ''prefix''
         else if TIEType tid = TIETypePositiveDisaggregationPrefixTIEType then ''positive-disaggregation''
         else ''node''),
      sm_TIENr = TIENr tid,
      sm_SequenceNumber = th_SeqNr (tie_Header (le_Packet entry)),
      sm_RemainingLifetime = le_RemainingLifetime entry,
      sm_SelfOriginated = le_SelfOriginated entry\<rparr>"

definition lsdb_summaries :: "LSDB \<Rightarrow> lsdbTIESummary list option" where
  "lsdb_summaries db =
     map_option snd
       (ForEachSorted (\<lambda>(db, _). db) (\<lambda>f (db, ties). (f db, ties))
          (\<lambda>tid entry (db, ties). Some (True, (db, ties @ [tie_summary tid entry]))) (db, []))"

record stateTelemetry =
  st_LSDBSummary :: string
  st_RIBSummary :: string
  st_SPFRuns :: "64 word"
  st_AdjacencyCount :: "32 word"
  st_LSDBTIECount :: "32 word"
  st_RouteCount :: "32 word"
  st_DisaggregationSummary :: string

definition updateStateTelemetry ::
  "FloodEngine \<Rightarrow> Engine \<Rightarrow> 64 word \<Rightarrow> PrefixEntry list \<Rightarrow> stateTelemetry option" where
  "updateStateTelemetry fe e spfRuns lastDisaggPrefixes =
     map_option (\<lambda>ties.
       \<lparr>st_LSDBSummary = formatLSDBSummary ties,
        st_RIBSummary = ribSummaryString (Engine_RIB e),
        st_SPFRuns = spfRuns,
        st_AdjacencyCount = of_nat (length (Adjacencies fe)),
        st_LSDBTIECount = of_nat (LSDB_Len (fe_lsdb fe)),
        st_RouteCount = of_nat (length (Engine_RIB e)),
        st_DisaggregationSummary = disaggSummaryString lastDisaggPrefixes\<rparr>)
     (lsdb_summaries (fe_lsdb fe))"

datatype telemetry = AdjacencyTelemetry string adjacencyTelemetry | StateTelemetry stateTelemetry

section \<open>The summary of the database\<close>

lemma lsdb_summaries_loop:
  "ForEachSorted_loop (\<lambda>(db, _). db)
     (\<lambda>tid entry (db, ties). Some (True, (db, ties @ [tie_summary tid entry]))) ids (db, ties) =
   Some (db, ties @ map (\<lambda>i. tie_summary i (the (LSDB_Get db i))) (filter (\<lambda>i. LSDB_Get db i \<noteq> None) ids))"
  by (induction ids arbitrary: ties) (auto split: option.split)

lemma lsdb_summaries_eq:
  "lsdb_summaries db = Some (map (\<lambda>i. tie_summary i (the (LSDB_Get db i))) (sorted_ids db))"
proof -
  have "filter (\<lambda>i. LSDB_Get db i \<noteq> None) (sorted_ids db) = sorted_ids db"
    by (rule filter_True) (simp add: set_sorted_ids)
  moreover have "LSDB_Get (RLock db) i = LSDB_Get db i" for i by (simp add: LSDB_Get_def RLock_def)
  ultimately show ?thesis
    unfolding lsdb_summaries_def ForEachSorted_def by (simp add: lsdb_summaries_loop del: filter_True)
qed

section \<open>The paths of interfaces\<close>

lemma quote_char_id:
  "(of_char c :: nat) < 128 \<Longrightarrow> quote_char c = [c] \<longleftrightarrow>
     32 \<le> (of_char c :: nat) \<and> (of_char c :: nat) < 127 \<and> c \<noteq> CHR 0x22 \<and> c \<noteq> CHR 0x5C"
proof -
  have c: "(of_char c :: nat) = 34 \<longleftrightarrow> c = CHR 0x22" "(of_char c :: nat) = 92 \<longleftrightarrow> c = CHR 0x5C"
    using of_char_eq_iff [where 'a = nat, of c "CHR 0x22"] of_char_eq_iff [where 'a = nat, of c "CHR 0x5C"] by simp_all
  assume "(of_char c :: nat) < 128"
  with c show ?thesis by (auto simp: quote_char_def Let_def)
qed

lemma quote_char_length: "quote_char c = [c] \<or> 2 \<le> length (quote_char c)"
  by (auto simp: quote_char_def Let_def)

lemma concat_quote_length: "length s \<le> length (concat (map quote_char s))"
proof (induction s)
  case (Cons c s)
  then show ?case using quote_char_length [of c] by auto
qed simp

lemma concat_quote_id: "concat (map quote_char s) = s \<longleftrightarrow> (\<forall>c \<in> set s. quote_char c = [c])"
proof (induction s)
  case (Cons c s)
  show ?case
  proof (cases "quote_char c = [c]")
    case True
    with Cons.IH show ?thesis by simp
  next
    case False
    then have "length (c # s) < length (concat (map quote_char (c # s)))"
      using quote_char_length [of c] concat_quote_length [of s] by auto
    then have "concat (map quote_char (c # s)) \<noteq> c # s" by (metis less_irrefl)
    with False show ?thesis by auto
  qed
qed simp

lemma telemetry_path:
  "fst (updateAdjacencyTelemetry ev) =
     ''.rift.interface{.name=='' @ [CHR 0x22] @ concat (map quote_char (ae_InterfaceName ev)) @ CHR 0x22 # ''}''"
  by (simp add: updateAdjacencyTelemetry_def Quote_def)

text \<open>
  C39 \<^bold>\<open>Interface names are read back.\<close> A path with the key of an interface in quotes gives the name back, and a
  name is only ever read from such a path; the path whose opening quote is also its closing quote, and no other, makes
  the function panic. From the path that the telemetry of an adjacency is pushed to, which is made with \<open>%q\<close>, an
  ASCII name is read back exactly if it has only printable characters and no quote or backslash; otherwise
  its escaped text is read.
\<close>

theorem interface_name_roundtrip:
  "(ExtractInterfaceName s = Some (name, True) \<longleftrightarrow> s = ''.rift.interface{.name=='' @ [CHR 0x22] @ name @ CHR 0x22 # ''}'') \<and>
   (ExtractInterfaceName s = None \<longleftrightarrow> s = ''.rift.interface{.name=='' @ CHR 0x22 # ''}'') \<and>
   ((\<forall>c \<in> set (ae_InterfaceName ev). (of_char c :: nat) < 128) \<longrightarrow>
      ExtractInterfaceName (fst (updateAdjacencyTelemetry ev)) =
        Some (concat (map quote_char (ae_InterfaceName ev)), True) \<and>
      (ExtractInterfaceName (fst (updateAdjacencyTelemetry ev)) = Some (ae_InterfaceName ev, True) \<longleftrightarrow>
        (\<forall>c \<in> set (ae_InterfaceName ev).
           32 \<le> (of_char c :: nat) \<and> (of_char c :: nat) < 127 \<and> c \<noteq> CHR 0x22 \<and> c \<noteq> CHR 0x5C)))"
proof -
  have read: "ExtractInterfaceName (fst (updateAdjacencyTelemetry ev)) =
      Some (concat (map quote_char (ae_InterfaceName ev)), True)"
    unfolding telemetry_path by (simp only: ExtractInterfaceName_iff [THEN conjunct1])
  have "concat (map quote_char (ae_InterfaceName ev)) = ae_InterfaceName ev \<longleftrightarrow>
      (\<forall>c \<in> set (ae_InterfaceName ev). 32 \<le> (of_char c :: nat) \<and> (of_char c :: nat) < 127 \<and> c \<noteq> CHR 0x22 \<and> c \<noteq> CHR 0x5C)"
    if "\<forall>c \<in> set (ae_InterfaceName ev). (of_char c :: nat) < 128"
    unfolding concat_quote_id using that by (intro ball_cong refl quote_char_id) blast
  with read show ?thesis using ExtractInterfaceName_iff [of s name] by simp
qed

theorem interface_name_roundtrip_witness:
  "ExtractInterfaceName (fst (updateAdjacencyTelemetry
      \<lparr>ae_InterfaceName = ''ethernet-1/1'', ae_State = OneWay, ae_Neighbor = None\<rparr>)) = Some (''ethernet-1/1'', True) \<and>
   ExtractInterfaceName (fst (updateAdjacencyTelemetry
      \<lparr>ae_InterfaceName = [CHR 0x5C], ae_State = OneWay, ae_Neighbor = None\<rparr>)) \<noteq> Some ([CHR 0x5C], True)"
proof -
  let ?plain = "\<lparr>ae_InterfaceName = ''ethernet-1/1'', ae_State = OneWay, ae_Neighbor = None\<rparr>"
    and ?odd = "\<lparr>ae_InterfaceName = [CHR 0x5C], ae_State = OneWay, ae_Neighbor = None\<rparr>"
  note exact = interface_name_roundtrip [of "[]" "[]", THEN conjunct2, THEN conjunct2, THEN mp, THEN conjunct2]
  have "ExtractInterfaceName (fst (updateAdjacencyTelemetry ?plain)) = Some (ae_InterfaceName ?plain, True)"
    by (subst exact) simp_all
  moreover have "ExtractInterfaceName (fst (updateAdjacencyTelemetry ?odd)) \<noteq> Some (ae_InterfaceName ?odd, True)"
    by (subst exact) simp_all
  ultimately show ?thesis by (simp only: AdjacencyEvent.select_convs) simp
qed

end
