(* ===== verification/Ndk_Client.thy ===== *)
theory Ndk_Client
  imports Rift_Prelude
begin

text \<open>
  The NDK client, \<open>src/internal/ndk/client.go\<close>, and its notifications, \<open>src/internal/ndk/notifications.go\<close>:
  registration, subscriptions, and the dispatch of notifications to the two event channels of the agent. The
  service manager is not part of the repository: it is the parameter \<open>call\<close>, which answers a request and
  changes a state of its own. The gRPC connection is an object of that state too: \<open>Dial\<close> and \<open>HangUp\<close> are
  what \<open>grpc.Dial\<close> and \<open>conn.Close\<close> ask of it.
\<close>

section \<open>Requests and answers\<close>

datatype subscription = SubInterface | SubConfig

datatype mgr_request =
    Dial
  | HangUp
  | AgentRegister "32 word"
  | StreamCreate
  | AddSubscription "64 word" subscription
  | OpenStream "64 word"
  | KeepAliveRequest
  | TelemetryAddOrUpdate string string

text \<open>An error of the call, or an answer: its status, the identifier of the agent and that of the stream.\<close>

datatype mgr_reply = MgrError | MgrReply (mgr_success: bool) (mgr_appId: "32 word") (mgr_streamId: "64 word")

datatype client_error =
    ErrDial | ErrRegister | ErrRegisterStatus | ErrCreate | ErrCreateStatus
  | ErrSubscribe subscription | ErrSubscribeStatus subscription | ErrStream | ErrKeepAlive | ErrTelemetry

record Client =
  cl_streamID :: "64 word"
  cl_appID :: "32 word"

type_synonym 's mgr = "mgr_request \<Rightarrow> 's \<Rightarrow> mgr_reply \<times> 's"

section \<open>The client\<close>

abbreviation (input) keepaliveSeconds :: "32 word" where "keepaliveSeconds \<equiv> 10"

definition client_New :: "'s mgr \<Rightarrow> 's \<Rightarrow> (client_error + Client) \<times> 's" where
  "client_New call s =
     (let (conn, s) = call Dial s
      in if conn = MgrError then (Inl ErrDial, s)
         else let (regResp, s) = call (AgentRegister (keepaliveSeconds * 3)) s
         in if regResp = MgrError then (Inl ErrRegister, snd (call HangUp s))
         else if \<not> mgr_success regResp then (Inl ErrRegisterStatus, snd (call HangUp s))
         else let (createResp, s) = call StreamCreate s
         in if createResp = MgrError then (Inl ErrCreate, snd (call HangUp s))
         else if \<not> mgr_success createResp then (Inl ErrCreateStatus, snd (call HangUp s))
         else (Inr \<lparr>cl_streamID = mgr_streamId createResp, cl_appID = mgr_appId regResp\<rparr>, s))"

definition Subscribe :: "'s mgr \<Rightarrow> subscription \<Rightarrow> Client \<Rightarrow> 's \<Rightarrow> client_error option \<times> 's" where
  "Subscribe call sub c s =
     (let (resp, s) = call (AddSubscription (cl_streamID c) sub) s
      in if resp = MgrError then (Some (ErrSubscribe sub), s)
         else if \<not> mgr_success resp then (Some (ErrSubscribeStatus sub), s)
         else (None, s))"

definition SubscribeInterfaces :: "'s mgr \<Rightarrow> Client \<Rightarrow> 's \<Rightarrow> client_error option \<times> 's" where
  "SubscribeInterfaces call = Subscribe call SubInterface"

definition SubscribeConfig :: "'s mgr \<Rightarrow> Client \<Rightarrow> 's \<Rightarrow> client_error option \<times> 's" where
  "SubscribeConfig call = Subscribe call SubConfig"

definition NotificationStream :: "'s mgr \<Rightarrow> Client \<Rightarrow> 's \<Rightarrow> client_error option \<times> 's" where
  "NotificationStream call c s =
     (let (resp, s) = call (OpenStream (cl_streamID c)) s
      in (if resp = MgrError then Some ErrStream else None, s))"

definition KeepAlive :: "'s mgr \<Rightarrow> 's \<Rightarrow> client_error option \<times> 's" where
  "KeepAlive call s =
     (let (resp, s) = call KeepAliveRequest s in (if resp = MgrError then Some ErrKeepAlive else None, s))"

definition UpdateTelemetry :: "'s mgr \<Rightarrow> string \<Rightarrow> string \<Rightarrow> 's \<Rightarrow> client_error option \<times> 's" where
  "UpdateTelemetry call jsPath jsonBytes s =
     (let (resp, s) = call (TelemetryAddOrUpdate jsPath jsonBytes) s
      in (if resp = MgrError then Some ErrTelemetry else None, s))"

definition client_Close :: "'s mgr \<Rightarrow> 's \<Rightarrow> 's" where
  "client_Close call s = snd (call HangUp s)"

text \<open>The part of \<open>agent.New\<close> that talks to the service.\<close>

definition agent_connect :: "'s mgr \<Rightarrow> 's \<Rightarrow> (client_error + Client) \<times> 's" where
  "agent_connect call s =
     (case client_New call s of
        (Inl err, s) \<Rightarrow> (Inl err, s)
      | (Inr ndkClient, s) \<Rightarrow>
          (case SubscribeInterfaces call ndkClient s of
             (Some err, s) \<Rightarrow> (Inl err, client_Close call s)
           | (None, s) \<Rightarrow>
               (case SubscribeConfig call ndkClient s of
                  (Some err, s) \<Rightarrow> (Inl err, client_Close call s)
                | (None, s) \<Rightarrow> (Inr ndkClient, s))))"

section \<open>Notifications\<close>

text \<open>
  A notification, as far as its getters are used; a getter on an absent message gives the zero value.
\<close>

record InterfaceNotification =
  in_Name :: string
  in_AdminIsUp :: "32 word"
  in_OperIsUp :: "32 word"
  in_Mtu :: "32 word"

record ConfigNotification =
  cn_JsPath :: string
  cn_JsPathWithKeys :: string
  cn_Keys :: "string list"
  cn_Json :: string

record Notification =
  no_Interface :: "InterfaceNotification option"
  no_Config :: "ConfigNotification option"

record InterfaceEvent =
  ie_Name :: string
  ie_AdminUp :: bool
  ie_OperUp :: bool
  ie_MTU :: "32 word"

record ConfigEvent =
  ce_JSPath :: string
  ce_PathWithKeys :: string
  ce_Keys :: "string list"
  ce_Data :: string

text \<open>The two channels: what waits in them, oldest first. A send to a full channel waits for the agent.\<close>

record NotificationHandler =
  nh_InterfaceCh :: "InterfaceEvent list"
  nh_ConfigCh :: "ConfigEvent list"

definition NewNotificationHandler :: NotificationHandler where
  "NewNotificationHandler = \<lparr>nh_InterfaceCh = [], nh_ConfigCh = []\<rparr>"

definition notification_handle :: "Notification \<Rightarrow> NotificationHandler \<Rightarrow> NotificationHandler" where
  "notification_handle notif h =
     (case no_Interface notif of
        Some n \<Rightarrow>
          h\<lparr>nh_InterfaceCh := nh_InterfaceCh h @
            [\<lparr>ie_Name = in_Name n, ie_AdminUp = in_AdminIsUp n = 1, ie_OperUp = in_OperIsUp n = 1,
              ie_MTU = in_Mtu n\<rparr>]\<rparr>
      | None \<Rightarrow>
          (case no_Config notif of
             Some n \<Rightarrow>
               h\<lparr>nh_ConfigCh := nh_ConfigCh h @
                 [\<lparr>ce_JSPath = cn_JsPath n, ce_PathWithKeys = cn_JsPathWithKeys n, ce_Keys = cn_Keys n,
                   ce_Data = cn_Json n\<rparr>]\<rparr>
           | None \<Rightarrow> h))"

text \<open>\<open>Run\<close> on the responses the stream gives before it ends.\<close>

definition notification_Run :: "Notification list list \<Rightarrow> NotificationHandler \<Rightarrow> NotificationHandler" where
  "notification_Run resps h = fold (\<lambda>notifs h. fold notification_handle notifs h) resps h"

section \<open>Properties\<close>

text \<open>The requests a client sends, for a service that records them.\<close>

definition recording :: "(mgr_request \<Rightarrow> mgr_reply) \<Rightarrow> mgr_request list mgr" where
  "recording answer req log = (answer req, log @ [req])"

lemma recording_simps [simp]: "recording answer req log = (answer req, log @ [req])"
  by (simp add: recording_def)

text \<open>
  C40 \<^bold>\<open>Connecting is all or nothing.\<close> Whatever the service answers, connecting sends a prefix of one fixed
  sequence of requests - dial, register, create a stream, subscribe to interfaces and to the configuration
  on that very stream - and succeeds exactly if all of them were answered with success; if it fails after the
  dial, hanging up is its last request, and it is sent once.
\<close>

theorem connect_all_or_nothing:
  "let reqs = [Dial, AgentRegister 30, StreamCreate, AddSubscription (mgr_streamId (answer StreamCreate)) SubInterface,
          AddSubscription (mgr_streamId (answer StreamCreate)) SubConfig];
       good = (\<lambda>req. answer req \<noteq> MgrError \<and> (mgr_success (answer req) \<or> req = Dial));
       sent = takeWhile good reqs;
       (result, log) = agent_connect (recording answer) []
   in if sent = reqs
      then result = Inr \<lparr>cl_streamID = mgr_streamId (answer StreamCreate), cl_appID = mgr_appId (answer (AgentRegister 30))\<rparr>
        \<and> log = reqs
      else (\<exists>err. result = Inl err) \<and>
        log = take (Suc (length sent)) reqs @ (if sent = [] then [] else [HangUp])"
  by (simp add: agent_connect_def client_New_def SubscribeInterfaces_def SubscribeConfig_def Subscribe_def
      client_Close_def Let_def)

text \<open>What a notification adds to each channel.\<close>

definition interface_events :: "Notification list \<Rightarrow> InterfaceEvent list" where
  "interface_events notifs = concat (map (\<lambda>notif. nh_InterfaceCh (notification_handle notif NewNotificationHandler)) notifs)"

definition config_events :: "Notification list \<Rightarrow> ConfigEvent list" where
  "config_events notifs = concat (map (\<lambda>notif. nh_ConfigCh (notification_handle notif NewNotificationHandler)) notifs)"

lemma handle_all:
  "fold notification_handle notifs h =
   h\<lparr>nh_InterfaceCh := nh_InterfaceCh h @ interface_events notifs, nh_ConfigCh := nh_ConfigCh h @ config_events notifs\<rparr>"
proof (induction notifs arbitrary: h)
  case (Cons n notifs)
  then show ?case
    by (simp add: interface_events_def config_events_def notification_handle_def NewNotificationHandler_def
        split: option.split)
qed (simp add: interface_events_def config_events_def)

lemma notification_Run_order:
  "notification_Run resps h =
   h\<lparr>nh_InterfaceCh := nh_InterfaceCh h @ interface_events (concat resps),
     nh_ConfigCh := nh_ConfigCh h @ config_events (concat resps)\<rparr>"
proof (induction resps arbitrary: h)
  case (Cons r resps)
  then show ?case
    by (simp add: notification_Run_def handle_all interface_events_def config_events_def)
qed (simp add: notification_Run_def interface_events_def config_events_def)

end
