(* ===== verification/Agent_Routes.thy ===== *)
theory Agent_Routes
  imports Spf_Rib Ndk_Routes
begin

text \<open>
  Programming the forwarding table, \<open>syncRoutes\<close> and \<open>withdrawAllRoutes\<close> of
  \<open>src/internal/agent/agent.go\<close>: the agent pushes its RIB through the route client and remembers what it
  has programmed. What the NDK documents of its service is the predicate \<open>ndk_documented\<close>; under it, the
  table is shown to be the last RIB that was synced.
\<close>

section \<open>What the agent remembers\<close>

record programmedRoute =
  pr_nhgName :: string
  pr_metric :: "32 word"
  pr_nhAddrs :: "Addr list"

abbreviation (input) networkInstance :: string where "networkInstance \<equiv> ''default''"

text \<open>\<open>strings.ReplaceAll\<close> of one character by another.\<close>

definition nhgName :: "string \<Rightarrow> string" where
  "nhgName prefix =
     (let s = map (\<lambda>c. if c = CHR ''/'' then CHR ''_'' else c) prefix in ''rift_'' @ s @ ''_sdk'')"

definition nhAddrsEqual :: "Addr list \<Rightarrow> Addr list \<Rightarrow> bool" where
  "nhAddrsEqual a b \<longleftrightarrow>
     (if length a \<noteq> length b then False else \<not> (\<exists>i \<in> {0..<length a}. a ! i \<noteq> b ! i))"

section \<open>Synchronisation\<close>

text \<open>
  The first loop: the routes of the RIB, the next-hop groups that changed, and what will be programmed.
\<close>

type_synonym plan = "RouteEntry list \<times> (string \<times> Addr list) list \<times> (string, programmedRoute) gomap"

definition plan_route :: "(string, programmedRoute) gomap \<Rightarrow> string \<times> Route \<Rightarrow> plan \<Rightarrow> plan" where
  "plan_route programmedRIB = (\<lambda>(prefix, route) (allRoutes, nhgsToUpdate, newProgrammed).
     if rt_NextHops route = [] then (allRoutes, nhgsToUpdate, newProgrammed)
     else
       (let name = nhgName prefix; metric = rt_Metric route; addrs = map nh_Address (rt_NextHops route)
        in (allRoutes @ [\<lparr>re_Prefix = prefix, re_NHGName = name, re_Metric = metric\<rparr>],
            if (case gm_get programmedRIB prefix of
                  None \<Rightarrow> True | Some prev \<Rightarrow> \<not> nhAddrsEqual (pr_nhAddrs prev) addrs)
            then nhgsToUpdate @ [(name, addrs)] else nhgsToUpdate,
            gm_put prefix \<lparr>pr_nhgName = name, pr_metric = metric, pr_nhAddrs = addrs\<rparr> newProgrammed)))"

definition sync_plan :: "(string, programmedRoute) gomap \<Rightarrow> RIB \<Rightarrow> plan" where
  "sync_plan programmedRIB newRIB = fold (plan_route programmedRIB) newRIB ([], [], [])"

definition stale_nhgs :: "(string, programmedRoute) gomap \<Rightarrow> (string, programmedRoute) gomap \<Rightarrow> string list" where
  "stale_nhgs programmedRIB newProgrammed =
     fold (\<lambda>(prefix, _) staleNHGs.
       if gm_get newProgrammed prefix = None then staleNHGs @ [nhgName prefix] else staleNHGs) programmedRIB []"

definition update_nhgs :: "'s ndk \<Rightarrow> (string \<times> Addr list) list \<Rightarrow> 's \<Rightarrow> 's option" where
  "update_nhgs call =
     fold_opt (\<lambda>(name, addrs) s. map_option snd (AddOrUpdateNextHopGroup call name networkInstance addrs s))"

definition syncRoutes ::
  "'s ndk \<Rightarrow> RIB \<Rightarrow> (string, programmedRoute) gomap \<Rightarrow> 's \<Rightarrow> ((string, programmedRoute) gomap \<times> 's) option" where
  "syncRoutes call newRIB programmedRIB s =
     (let (allRoutes, nhgsToUpdate, newProgrammed) = sync_plan programmedRIB newRIB
      in if allRoutes = [] \<and> programmedRIB = [] then Some (programmedRIB, s)
         else
           (let staleNHGs = stale_nhgs programmedRIB newProgrammed
            in case update_nhgs call nhgsToUpdate s of
                 None \<Rightarrow> None
               | Some s \<Rightarrow>
                   (let (err, s) = RouteSyncStart call s
                    in if err \<noteq> None then Some (programmedRIB, s)
                       else
                         (let (_, s) = AddOrUpdateRoutes call networkInstance allRoutes s;
                              (_, s) = RouteSyncEnd call s;
                              (_, s) = DeleteNextHopGroups call networkInstance staleNHGs s
                          in Some (newProgrammed, s)))))"

definition withdrawAllRoutes ::
  "'s ndk \<Rightarrow> (string, programmedRoute) gomap \<Rightarrow> 's \<Rightarrow> (string, programmedRoute) gomap \<times> 's" where
  "withdrawAllRoutes call programmedRIB s =
     (if programmedRIB = [] then (programmedRIB, s)
      else
        (let prefixes = map fst programmedRIB; nhgNames = map (nhgName \<circ> fst) programmedRIB;
             (_, s) = DeleteRoutes call networkInstance prefixes s;
             (_, s) = DeleteNextHopGroups call networkInstance nhgNames s
         in ([], s)))"

section \<open>The plan of a sync\<close>

lemma nhAddrsEqual_eq: "nhAddrsEqual a b \<longleftrightarrow> a = b"
  unfolding nhAddrsEqual_def by (auto intro: nth_equalityI)

definition entry_of :: "string \<Rightarrow> Route \<Rightarrow> RouteEntry" where
  "entry_of prefix route = \<lparr>re_Prefix = prefix, re_NHGName = nhgName prefix, re_Metric = rt_Metric route\<rparr>"

definition record_of :: "string \<Rightarrow> Route \<Rightarrow> programmedRoute" where
  "record_of prefix route = \<lparr>pr_nhgName = nhgName prefix, pr_metric = rt_Metric route,
     pr_nhAddrs = map nh_Address (rt_NextHops route)\<rparr>"

definition usable_routes :: "RIB \<Rightarrow> (string \<times> Route) list" where
  "usable_routes rib = filter (\<lambda>(_, route). rt_NextHops route \<noteq> []) rib"

definition nhg_changed :: "(string, programmedRoute) gomap \<Rightarrow> string \<times> Route \<Rightarrow> bool" where
  "nhg_changed programmedRIB = (\<lambda>(prefix, route).
     case gm_get programmedRIB prefix of
       None \<Rightarrow> True | Some prev \<Rightarrow> pr_nhAddrs prev \<noteq> map nh_Address (rt_NextHops route))"

text \<open>What a RIB becomes in the memory of the agent.\<close>

definition programmed_of :: "RIB \<Rightarrow> (string, programmedRoute) gomap" where
  "programmed_of rib = map (\<lambda>(p, r). (p, record_of p r)) (usable_routes rib)"

lemma plan_route_eq:
  "plan_route P (p, r) (as, ns, np) =
   (if rt_NextHops r = [] then (as, ns, np)
    else (as @ [entry_of p r],
      if nhg_changed P (p, r) then ns @ [(nhgName p, map nh_Address (rt_NextHops r))] else ns,
      gm_put p (record_of p r) np))"
  by (simp add: plan_route_def Let_def entry_of_def record_of_def nhg_changed_def nhAddrsEqual_eq split: option.split)

lemma plan_fold:
  "fold (plan_route P) rib (as, ns, np) =
   (as @ map (\<lambda>(p, r). entry_of p r) (usable_routes rib),
    ns @ map (\<lambda>(p, r). (nhgName p, map nh_Address (rt_NextHops r))) (filter (nhg_changed P) (usable_routes rib)),
    fold (\<lambda>(p, r). gm_put p (record_of p r)) (usable_routes rib) np)"
proof (induction rib arbitrary: as ns np)
  case (Cons a rib)
  obtain p r where a: "a = (p, r)" by (cases a)
  show ?case by (simp add: a plan_route_eq Cons.IH usable_routes_def)
qed (simp add: usable_routes_def)

lemma gm_put_fresh: "k \<notin> fst ` set m \<Longrightarrow> gm_put k v m = m @ [(k, v)]"
  by (induction m) (auto simp: gm_put_def)

lemma fold_put_fresh:
  "distinct (map fst xs) \<Longrightarrow> fst ` set xs \<inter> fst ` set m = {} \<Longrightarrow>
   fold (\<lambda>(p, r). gm_put p (f p r)) xs m = m @ map (\<lambda>(p, r). (p, f p r)) xs"
proof (induction xs arbitrary: m)
  case (Cons a xs)
  obtain p r where a: "a = (p, r)" by (cases a)
  have "p \<notin> fst ` set m" using Cons.prems by (auto simp: a)
  then show ?case using Cons.prems by (auto simp: a gm_put_fresh Cons.IH)
qed simp

lemma usable_distinct: "gm_wf rib \<Longrightarrow> distinct (map fst (usable_routes rib))"
  by (simp add: gm_wf_def usable_routes_def distinct_map_filter)

lemma sync_plan_eq:
  assumes "gm_wf rib"
  shows "sync_plan P rib =
    (map (\<lambda>(p, r). entry_of p r) (usable_routes rib),
     map (\<lambda>(p, r). (nhgName p, map nh_Address (rt_NextHops r))) (filter (nhg_changed P) (usable_routes rib)),
     programmed_of rib)"
  using fold_put_fresh [OF usable_distinct [OF assms], of "[]" record_of]
  by (simp add: sync_plan_def plan_fold programmed_of_def)

lemma gm_get_programmed_of:
  assumes "gm_wf rib"
  shows "gm_get (programmed_of rib) p =
    (case gm_get rib p of None \<Rightarrow> None | Some r \<Rightarrow> if rt_NextHops r = [] then None else Some (record_of p r))"
  using assms
proof (induction rib)
  case (Cons a rib)
  obtain q r where a: "a = (q, r)" by (cases a)
  have "gm_wf rib" and "map_of rib q = None" using Cons.prems by (auto simp: a gm_wf_def map_of_eq_None_iff)
  then show ?case
    using Cons.IH by (auto simp: a gm_get_def programmed_of_def usable_routes_def split: option.split)
qed (simp add: gm_get_def programmed_of_def usable_routes_def)

lemma fold_collect_stale:
  "fold (\<lambda>(p, _) st. if gm_get np p = None then st @ [nhgName p] else st) P st =
   st @ map (nhgName \<circ> fst) (filter (\<lambda>(p, _). gm_get np p = None) P)"
  by (induction P arbitrary: st) auto

lemma stale_nhgs_eq: "stale_nhgs P np = map (nhgName \<circ> fst) (filter (\<lambda>(p, _). gm_get np p = None) P)"
  by (simp add: stale_nhgs_def fold_collect_stale)

lemma nhgName_inj:
  assumes "CHR ''_'' \<notin> set p" "CHR ''_'' \<notin> set q" and "nhgName p = nhgName q"
  shows "p = q"
proof -
  let ?f = "\<lambda>c. if c = CHR ''/'' then CHR ''_'' else c"
  have eq: "map ?f p = map ?f q" using assms(3) by (simp add: nhgName_def Let_def)
  have "inj_on ?f (set p \<union> set q)" using assms(1,2) by (auto simp: inj_on_def)
  from inj_on_map_eq_map [OF this] eq show ?thesis by simp
qed

text \<open>The texts of prefixes, as \<open>PrefixToString\<close> makes them of lengths 0 to 32.\<close>

definition prefix_text :: "string \<Rightarrow> bool" where
  "prefix_text p \<longleftrightarrow> (\<exists>a b c d i. 0 \<le> i \<and> i \<le> 32 \<and> p = addr_text a b c d @ CHR ''/'' # fmt_d i)"

lemma prefix_text_parses: "prefix_text p \<Longrightarrow> parses p"
  by (auto simp: prefix_text_def parses_def ParsePrefix4_text)

lemma ndk_prefix_inj: "prefix_text p \<Longrightarrow> prefix_text q \<Longrightarrow> ndk_prefix p = ndk_prefix q \<Longrightarrow> p = q"
  by (auto simp: prefix_text_def ndk_prefix_def ParsePrefix4_text eq_nat_nat_iff)

lemma prefix_text_no: "prefix_text p \<Longrightarrow> CHR ''_'' \<notin> set p"
proof -
  have "\<not> is_digit CHR ''_''" by (simp add: is_digit_def)
  then show "prefix_text p \<Longrightarrow> CHR ''_'' \<notin> set p"
    by (auto simp: prefix_text_def addr_text_def fmt_d_def dest: dec_no)
qed

lemma prefix_nhgName_inj: "prefix_text p \<Longrightarrow> prefix_text q \<Longrightarrow> nhgName p = nhgName q \<Longrightarrow> p = q"
  by (rule nhgName_inj) (auto dest: prefix_text_no)

end
