(* ===== verification/Agent.thy ===== *)
theory Agent
  imports Config Transport Telemetry Ndk_Client Agent_Routes Lie_Props Tie_Flood
begin

text \<open>
  The agent, \<open>src/internal/agent/agent.go\<close> and \<open>disagg.go\<close>: configuration events, the interfaces it starts
  and stops, adjacency events, the SPF timer, and the goroutines around it.

  The configurations are behind pointers, and \<open>handleConfigChange\<close> compares them: a configuration is a pair of
  an address and a value. What the Linux kernel answers to the socket calls of the transport is the
  parameter \<open>lx\<close>, the NDK service the parameter \<open>call\<close>. \<open>None\<close> is a panic or a call that does not return.
\<close>

unbundle bit_operations_syntax

section \<open>The state\<close>

text \<open>
  \<open>floodCancel != nil\<close> is \<open>is_floodActive\<close>; the LIE interface is its state machine, whose notifications are
  moved to \<open>adjEventCh\<close>. The channels of the flood engine that the agent writes are fields of the agent,
  \<open>ag_telemetry\<close> is what has been pushed as telemetry, and \<open>ag_engineBlocked\<close> says that the goroutine of the
  flood engine waits for the lock of the database for ever. A LIE interface or receive loop that waits for
  room in a channel is one whose message is in it already; \<open>ag_floodRecvCh\<close> is that channel and the
  engine's \<open>FloodRecvCh\<close> behind it.
\<close>

record interfaceState =
  is_transport :: InterfaceTransport
  is_lieIface :: FSM
  is_floodActive :: bool

record Agent =
  ag_cfg :: "(nat \<times> Config) option"
  ag_pendingCfg :: "(nat \<times> Config) option"
  ag_allocs :: nat
  ag_interfaces :: "(string, interfaceState) gomap"
  ag_adjEventCh :: "AdjacencyEvent list"
  ag_floodEngine :: "FloodEngine option"
  ag_engineBlocked :: bool
  ag_floodRecvCh :: "ReceivedPacket list"
  ag_AdjChangeCh :: "AdjacencyChange list"
  ag_DisaggUpdateCh :: "PrefixEntry list option"
  ag_spfEngine :: "Engine option"
  ag_programmedRIB :: "(string, programmedRoute) gomap"
  ag_spfRuns :: "64 word"
  ag_lastDisaggPrefixes :: "PrefixEntry list"
  ag_spfTimer :: "int option"
  ag_now :: int
  ag_telemetry :: "telemetry list"

definition agent_New :: "int \<Rightarrow> Agent" where
  "agent_New now =
     \<lparr>ag_cfg = None, ag_pendingCfg = None, ag_allocs = 0, ag_interfaces = [], ag_adjEventCh = [],
      ag_floodEngine = None, ag_engineBlocked = False, ag_floodRecvCh = [], ag_AdjChangeCh = [],
      ag_DisaggUpdateCh = None, ag_spfEngine = None, ag_programmedRIB = [], ag_spfRuns = 0,
      ag_lastDisaggPrefixes = [], ag_spfTimer = None, ag_now = now, ag_telemetry = []\<rparr>"

section \<open>Configuration events\<close>

abbreviation (input) add_iface :: "string \<Rightarrow> nat \<times> Config \<Rightarrow> nat \<times> Config" where
  "add_iface ifName \<equiv> map_prod id (\<lambda>c. c\<lparr>cfg_Interfaces := gs_add ifName (cfg_Interfaces c)\<rparr>)"

definition processConfigEvent ::
  "(string \<Rightarrow> riftJSON option) \<Rightarrow> ConfigEvent \<Rightarrow> Agent \<Rightarrow> Agent option" where
  "processConfigEvent unmarshal ev a =
     (if ce_JSPath ev = ''.rift'' then
        (case ParseRiftData unmarshal (ce_Data ev) of
           Inl _ \<Rightarrow> Some a
         | Inr cfg \<Rightarrow> Some (a\<lparr>ag_pendingCfg := Some (ag_allocs a, cfg), ag_allocs := Suc (ag_allocs a)\<rparr>))
      else if ce_JSPath ev = ''.rift.interface'' then
        (case ExtractInterfaceName (ce_PathWithKeys ev) of
           None \<Rightarrow> None
         | Some (ifName, ok) \<Rightarrow>
             (let (ifName, ok) = (if \<not> ok \<and> length (ce_Keys ev) > 0 then (ce_Keys ev ! 0, True) else (ifName, ok))
              in if ok \<and> ag_pendingCfg a \<noteq> None then
                   Some (a\<lparr>ag_pendingCfg := map_option (add_iface ifName) (ag_pendingCfg a)\<rparr>)
                 else if ok \<and> ag_cfg a \<noteq> None then
                   Some (a\<lparr>ag_cfg := map_option (add_iface ifName) (ag_cfg a)\<rparr>)
                 else Some a))
      else if ce_JSPath ev = ''.commit.end'' then
        (if ag_pendingCfg a \<noteq> None then Some (a\<lparr>ag_cfg := ag_pendingCfg a, ag_pendingCfg := None\<rparr>)
         else Some a)
      else Some a)"

section \<open>Interfaces\<close>

abbreviation cfg_of :: "Agent \<Rightarrow> Config" where
  "cfg_of a \<equiv> snd (the (ag_cfg a))"

text \<open>The state of a new interface, if the kernel lets it start; an error leaves it down.\<close>

definition new_interface :: "linux \<Rightarrow> Agent \<Rightarrow> string \<Rightarrow> interfaceState option" where
  "new_interface lx a srlName =
     (let (_, sub) = LinuxInterfaceNames srlName
      in case DiscoverInterfaceAddr lx sub of
           None \<Rightarrow> None
         | Some localAddr \<Rightarrow>
             (case transport_New lx srlName localAddr of
                None \<Rightarrow> None
              | Some tr \<Rightarrow>
                  Some \<lparr>is_transport = tr,
                    is_lieIface = NewFSM (cfg_SystemID (cfg_of a)) (cfg_Level (cfg_of a))
                      (''rift-'' @ fmt_d (sint (cfg_SystemID (cfg_of a)))) srlName (tr_linkID tr) (ag_now a),
                    is_floodActive = False\<rparr>))"

definition startInterfaceLocked :: "linux \<Rightarrow> string \<Rightarrow> Agent \<Rightarrow> Agent" where
  "startInterfaceLocked lx srlName a =
     (if gm_get (ag_interfaces a) srlName \<noteq> None then a
      else case new_interface lx a srlName of
          None \<Rightarrow> a
        | Some iface \<Rightarrow> a\<lparr>ag_interfaces := gm_put srlName iface (ag_interfaces a)\<rparr>)"

definition stopInterfaceLocked :: "string \<Rightarrow> Agent \<Rightarrow> Agent" where
  "stopInterfaceLocked name a =
     (if gm_get (ag_interfaces a) name = None then a
      else a\<lparr>ag_interfaces := gm_del name (ag_interfaces a)\<rparr>)"

definition startConfiguredInterfaces :: "linux \<Rightarrow> Agent \<Rightarrow> Agent" where
  "startConfiguredInterfaces lx a = fold (startInterfaceLocked lx) (cfg_Interfaces (cfg_of a)) a"

definition handleInterfaceEvent :: "linux \<Rightarrow> InterfaceEvent \<Rightarrow> Agent \<Rightarrow> Agent" where
  "handleInterfaceEvent lx ev a =
     (if ag_cfg a = None \<or> \<not> HasInterface (ie_Name ev) (cfg_of a) then a
      else
        let running = gm_get (ag_interfaces a) (ie_Name ev) \<noteq> None
        in if \<not> ie_AdminUp ev \<and> \<not> ie_OperUp ev \<and> ie_MTU ev = 0 then a
           else if ie_OperUp ev \<and> \<not> running then startInterfaceLocked lx (ie_Name ev) a
           else if \<not> ie_OperUp ev \<and> running then stopInterfaceLocked (ie_Name ev) a
           else a)"

definition handleConfigChange ::
  "linux \<Rightarrow> (string \<Rightarrow> riftJSON option) \<Rightarrow> ConfigEvent \<Rightarrow> Agent \<Rightarrow> Agent option" where
  "handleConfigChange lx unmarshal ev a =
     (let oldCfg = map_option fst (ag_cfg a)
      in case processConfigEvent unmarshal ev a of
           None \<Rightarrow> None
         | Some a \<Rightarrow>
             if ce_JSPath ev \<noteq> ''.commit.end'' \<or> map_option fst (ag_cfg a) = oldCfg then Some a
             else if ag_cfg a = None \<or> \<not> Valid (cfg_of a) then Some a
             else
               let a = fold (\<lambda>name a. if \<not> HasInterface name (cfg_of a) then stopInterfaceLocked name a else a)
                     (gm_keys (ag_interfaces a)) a;
                   a = fold (\<lambda>ifName a. if gm_get (ag_interfaces a) ifName = None then startInterfaceLocked lx ifName a else a)
                     (cfg_Interfaces (cfg_of a)) a
               in Some a)"

text \<open>\<open>waitForConfig\<close>: configuration events are processed until the configuration is valid.\<close>

fun waitForConfig :: "(string \<Rightarrow> riftJSON option) \<Rightarrow> ConfigEvent list \<Rightarrow> Agent \<Rightarrow> (bool \<times> Agent) option" where
  "waitForConfig unmarshal [] a = Some (False, a)"
| "waitForConfig unmarshal (ev # evs) a =
     (case processConfigEvent unmarshal ev a of
        None \<Rightarrow> None
      | Some a \<Rightarrow>
          if ag_cfg a \<noteq> None \<and> Valid (cfg_of a) then Some (True, a) else waitForConfig unmarshal evs a)"

section \<open>Starting\<close>

text \<open>\<open>IPv4ToPrefix\<close> of \<open>src/internal/tie/originate.go\<close>\<close>

definition IPv4ToPrefix :: "Addr \<Rightarrow> int8 \<Rightarrow> IPPrefixType option" where
  "IPv4ToPrefix addr prefixLen =
     map_option (\<lambda>raw.
       let ipv4 = push_bit 24 (ucast (raw ! 0)) OR push_bit 16 (ucast (raw ! 1)) OR
             push_bit 8 (ucast (raw ! 2)) OR ucast (raw ! 3)
       in \<lparr>ip_IPv4Prefix = Some \<lparr>p4_Address = ipv4, p4_PrefixLen = prefixLen\<rparr>, ip_IPv6Prefix = None\<rparr>)
       (As4 addr)"

text \<open>The set of interface names it builds is only used in messages.\<close>

definition discoverLocalPrefixes :: "linux \<Rightarrow> LocalPrefix list option" where
  "discoverLocalPrefixes lx =
     (let allPrefixes = (case DiscoverAllPrefixes lx of None \<Rightarrow> [] | Some m \<Rightarrow> m)
      in fold_opt (\<lambda>(ifName, (addr, bits)) prefixes.
           if ifName = ''system0.0'' then
             map_option (\<lambda>p. prefixes @ [\<lparr>lpx_Prefix = p, lpx_Loopback = True, lpx_Metric = 1\<rparr>]) (IPv4ToPrefix addr 32)
           else
             map_option (\<lambda>p. prefixes @ [\<lparr>lpx_Prefix = p, lpx_Loopback = False, lpx_Metric = 1\<rparr>])
               (IPv4ToPrefix addr (of_nat bits)))
         allPrefixes [])"

text \<open>\<open>Run\<close> once it has a configuration, up to the event loop.\<close>

definition start_engines :: "linux \<Rightarrow> Agent \<Rightarrow> Agent option" where
  "start_engines lx a =
     map_option (\<lambda>localPrefixes.
       startConfiguredInterfaces lx
         (a\<lparr>ag_floodRecvCh := [],
            ag_floodEngine := Some (NewFloodEngine (cfg_SystemID (cfg_of a)) (cfg_Level (cfg_of a))
              (''rift-'' @ fmt_d (sint (cfg_SystemID (cfg_of a)))) localPrefixes (ag_now a)),
            ag_spfEngine := Some (NewEngine (cfg_SystemID (cfg_of a)) (cfg_Level (cfg_of a)))\<rparr>))
       (discoverLocalPrefixes lx)"

section \<open>Adjacency events\<close>

definition upd_iface :: "string \<Rightarrow> (interfaceState \<Rightarrow> interfaceState) \<Rightarrow> Agent \<Rightarrow> Agent" where
  "upd_iface ifName f a =
     a\<lparr>ag_interfaces := gm_map (\<lambda>k iface. if k = ifName then f iface else iface) (ag_interfaces a)\<rparr>"

definition sendAdjChange :: "AdjacencyChange \<Rightarrow> Agent \<Rightarrow> Agent option" where
  "sendAdjChange change a =
     (if length (ag_AdjChangeCh a) < 16 then Some (a\<lparr>ag_AdjChangeCh := ag_AdjChangeCh a @ [change]\<rparr>) else None)"

definition push_telemetry :: "telemetry \<Rightarrow> Agent \<Rightarrow> Agent" where
  "push_telemetry t a = a\<lparr>ag_telemetry := ag_telemetry a @ [t]\<rparr>"

definition adjacency_info :: "string \<Rightarrow> NeighborState \<Rightarrow> InterfaceTransport \<Rightarrow> AdjacencyInfo" where
  "adjacency_info ifName n t =
     \<lparr>ai_InterfaceName = ifName, ai_NeighborID = ns_SystemID n, ai_NeighborLevel = ns_Level n,
      ai_NeighborAddr = ns_Address n, ai_FloodPort = ns_FloodPort n, ai_LocalLinkID = tr_linkID t,
      ai_NeighborLinkID = ns_LinkID n\<rparr>"

definition handleAdjacencyEvent :: "linux \<Rightarrow> AdjacencyEvent \<Rightarrow> Agent \<Rightarrow> Agent option" where
  "handleAdjacencyEvent lx ev a =
     (let a = push_telemetry (case_prod AdjacencyTelemetry (updateAdjacencyTelemetry ev)) a
      in if ag_floodEngine a = None then Some a
      else case gm_get (ag_interfaces a) (ae_InterfaceName ev) of
          None \<Rightarrow> Some a
        | Some iface \<Rightarrow>
            (case (ae_State ev = ThreeWay, ae_Neighbor ev) of
               (True, Some n) \<Rightarrow>
                 (case OpenFloodSocket lx (is_transport iface) of
                    None \<Rightarrow> Some a
                  | Some tr \<Rightarrow>
                      sendAdjChange \<lparr>ac_InterfaceName = ae_InterfaceName ev,
                          ac_Info = Some (adjacency_info (ae_InterfaceName ev) n tr)\<rparr>
                        (upd_iface (ae_InterfaceName ev)
                          (\<lambda>iface. iface\<lparr>is_transport := tr, is_floodActive := True\<rparr>) a))
             | (True, None) \<Rightarrow> Some a
             | (False, _) \<Rightarrow>
                 map_option
                   (upd_iface (ae_InterfaceName ev)
                     (\<lambda>iface. iface\<lparr>is_floodActive := False, is_transport := CloseFloodSocket (is_transport iface)\<rparr>))
                   (sendAdjChange \<lparr>ac_InterfaceName = ae_InterfaceName ev, ac_Info = None\<rparr> a)))"

section \<open>Disaggregation and routes\<close>

definition runDisaggregation :: "FloodEngine \<Rightarrow> Engine \<Rightarrow> Agent \<Rightarrow> Agent" where
  "runDisaggregation fe e a =
     (case Engine_SouthRIB e of
        None \<Rightarrow> a
      | Some southRIB \<Rightarrow>
          let disaggPrefixes = ComputeDisaggregation (cfg_SystemID (cfg_of a)) (cfg_Level (cfg_of a))
                (Adjacencies fe) (LSDB_Snapshot (fe_lsdb fe)) southRIB;
              prefixEntries = map (\<lambda>dp. \<lparr>pe_Prefix = dp_Prefix dp,
                pe_Attributes = zero_PrefixAttributes\<lparr>pa_Metric := dp_Distance dp\<rparr>\<rparr>) disaggPrefixes
          in a\<lparr>ag_lastDisaggPrefixes := prefixEntries, ag_DisaggUpdateCh := Some prefixEntries\<rparr>)"

definition state_telemetry :: "Agent \<Rightarrow> Agent option" where
  "state_telemetry a =
     (case (ag_floodEngine a, ag_spfEngine a) of
        (None, _) \<Rightarrow> Some a
      | (Some fe, None) \<Rightarrow> None
      | (Some fe, Some e) \<Rightarrow>
          if ag_engineBlocked a then None
          else map_option (\<lambda>t. push_telemetry (StateTelemetry t) a)
                 (updateStateTelemetry fe e (ag_spfRuns a) (ag_lastDisaggPrefixes a)))"

text \<open>
  The timer case of the event loop. A run reads the database: while the flood engine waits for the write
  lock it does not return.
\<close>

definition spf_round :: "'s ndk \<Rightarrow> Agent \<Rightarrow> 's \<Rightarrow> (Agent \<times> 's) option" where
  "spf_round call a s =
     (case (ag_floodEngine a, ag_spfEngine a) of
        (Some fe, Some e) \<Rightarrow>
          if ag_engineBlocked a then None
          else
            let e = Engine_Run fe e;
                a = a\<lparr>ag_spfEngine := Some e, ag_spfRuns := ag_spfRuns a + 1\<rparr>;
                a = (if slt LeafLevel (cfg_Level (cfg_of a)) then runDisaggregation fe e a else a)
            in (case syncRoutes call (Engine_RIB e) (ag_programmedRIB a) s of
                  None \<Rightarrow> None
                | Some (P, s) \<Rightarrow> map_option (\<lambda>a. (a, s)) (state_telemetry (a\<lparr>ag_programmedRIB := P\<rparr>)))
      | _ \<Rightarrow> None)"

definition Agent_Close :: "'s ndk \<Rightarrow> Agent \<Rightarrow> 's \<Rightarrow> Agent \<times> 's" where
  "Agent_Close call a s =
     (let (P, s) = withdrawAllRoutes call (ag_programmedRIB a) s;
          a = a\<lparr>ag_programmedRIB := P\<rparr>;
          a = fold stopInterfaceLocked (gm_keys (ag_interfaces a)) a
      in (a, s))"

section \<open>The event loop\<close>

text \<open>What the \<open>select\<close> of \<open>eventLoop\<close> serves.\<close>

datatype agent_event =
    InterfaceEv InterfaceEvent
  | ConfigEv ConfigEvent
  | AdjacencyEv
  | LSDBChangeEv
  | SpfTimerEv
  | LSDBTickEv

abbreviation (input) spf_delay :: int where "spf_delay \<equiv> 100000000"

fun eventLoop ::
  "linux \<Rightarrow> (string \<Rightarrow> riftJSON option) \<Rightarrow> 's ndk \<Rightarrow> agent_event \<Rightarrow> Agent \<times> 's \<Rightarrow> (Agent \<times> 's) option" where
  "eventLoop lx unmarshal call (InterfaceEv ev) (a, s) = Some (handleInterfaceEvent lx ev a, s)"
| "eventLoop lx unmarshal call (ConfigEv ev) (a, s) = map_option (\<lambda>a. (a, s)) (handleConfigChange lx unmarshal ev a)"
| "eventLoop lx unmarshal call AdjacencyEv (a, s) =
     (case ag_adjEventCh a of
        [] \<Rightarrow> Some (a, s)
      | ev # evs \<Rightarrow> map_option (\<lambda>a. (a, s)) (handleAdjacencyEvent lx ev (a\<lparr>ag_adjEventCh := evs\<rparr>)))"
| "eventLoop lx unmarshal call LSDBChangeEv (a, s) =
     (case ag_floodEngine a of
        None \<Rightarrow> Some (a, s)
      | Some fe \<Rightarrow>
          if fe_LSDBChangeCh fe
          then Some (a\<lparr>ag_floodEngine := Some (fe\<lparr>fe_LSDBChangeCh := False\<rparr>),
            ag_spfTimer := Some (ag_now a + spf_delay)\<rparr>, s)
          else Some (a, s))"
| "eventLoop lx unmarshal call SpfTimerEv (a, s) =
     (case ag_spfTimer a of
        None \<Rightarrow> Some (a, s)
      | Some deadline \<Rightarrow>
          if deadline \<le> ag_now a then spf_round call (a\<lparr>ag_spfTimer := None\<rparr>) s else Some (a, s))"
| "eventLoop lx unmarshal call LSDBTickEv (a, s) = map_option (\<lambda>a. (a, s)) (state_telemetry a)"

section \<open>The goroutines around it\<close>

text \<open>\<open>floodSendLoop\<close> takes a packet and hands it to the transport of its interface, if that runs.\<close>

definition floodSendLoop :: "Agent \<Rightarrow> datagram option \<times> Agent" where
  "floodSendLoop a =
     (case ag_floodEngine a of
        None \<Rightarrow> (None, a)
      | Some fe \<Rightarrow>
          (case fe_FloodSendCh fe of
             [] \<Rightarrow> (None, a)
           | fp # fps \<Rightarrow>
               (let a = a\<lparr>ag_floodEngine := Some (fe\<lparr>fe_FloodSendCh := fps\<rparr>)\<rparr>
                in case gm_get (ag_interfaces a) (fp_InterfaceName fp) of
                     None \<Rightarrow> (None, a)
                   | Some iface \<Rightarrow>
                       (case SendFlood (fp_Packet fp) (fp_DestAddr fp) (fp_DestPort fp) (fp_RemainingLifetime fp)
                           (is_transport iface) of
                          Inl _ \<Rightarrow> (None, a)
                        | Inr d \<Rightarrow> (Some d, a)))))"

text \<open>\<open>floodRecvRelay\<close> hands a packet of an interface to the flood engine.\<close>

definition floodRecvRelay :: "ReceivedPacket \<Rightarrow> ReceivedFloodPkt" where
  "floodRecvRelay rp =
     \<lparr>rf_Packet = rp_Packet rp, rf_SrcAddr = Addr_String (rp_SrcAddr rp), rf_IfName = rp_IfName rp\<rparr>"

text \<open>A LIE interface reacts to a tick or a packet; its notifications go to the agent.\<close>

definition lie_step :: "string \<Rightarrow> Input \<Rightarrow> Agent \<Rightarrow> Agent" where
  "lie_step ifName inp a =
     (case gm_get (ag_interfaces a) ifName of
        None \<Rightarrow> a
      | Some iface \<Rightarrow>
          let f = react inp (is_lieIface iface)
          in (upd_iface ifName (\<lambda>iface. iface\<lparr>is_lieIface := f\<rparr>) a)
               \<lparr>ag_adjEventCh := ag_adjEventCh a @
                  drop (length (fsm_stateChangeCh (is_lieIface iface))) (fsm_stateChangeCh f)\<rparr>)"

text \<open>The flood engine serves an event, and may never come back from it.\<close>

definition engine_step :: "flood_event \<Rightarrow> Agent \<Rightarrow> Agent" where
  "engine_step ev a =
     (case ag_floodEngine a of
        None \<Rightarrow> a
      | Some fe \<Rightarrow>
          if ag_engineBlocked a then a
          else case serve ev fe of
              None \<Rightarrow> a\<lparr>ag_engineBlocked := True\<rparr>
            | Some fe \<Rightarrow> a\<lparr>ag_floodEngine := Some fe\<rparr>)"

text \<open>
  A step of the process: a turn of the event loop, whatever the kernel answers; a LIE interface reacting to
  its ticker or to a datagram; a datagram reaching a flood socket; the flood engine taking an event; the
  send loop taking a packet; time passing. A blocked engine takes nothing.
\<close>

inductive process_step ::
  "(string \<Rightarrow> riftJSON option) \<Rightarrow> 's ndk \<Rightarrow> Agent \<times> 's \<Rightarrow> Agent \<times> 's \<Rightarrow> bool"
  for unmarshal call where
  loop: "eventLoop lx unmarshal call ev (a, s) = Some (a', s') \<Longrightarrow> process_step unmarshal call (a, s) (a', s')"
| lie_tick: "process_step unmarshal call (a, s) (lie_step ifName (Tick_at (ag_now a)) a, s)"
| lie_packet: "\<lbrakk>gm_get (ag_interfaces a) ifName = Some iface; RecvLoop (is_transport iface) ip data = Some rp\<rbrakk> \<Longrightarrow>
    process_step unmarshal call (a, s) (lie_step ifName (Packet_at (ag_now a) (rp_Packet rp) (rp_SrcAddr rp)) a, s)"
| flood_packet: "\<lbrakk>gm_get (ag_interfaces a) ifName = Some iface; is_floodActive iface;
      FloodRecvLoop (is_transport iface) ip data = Some rp\<rbrakk> \<Longrightarrow>
    process_step unmarshal call (a, s) (a\<lparr>ag_floodRecvCh := ag_floodRecvCh a @ [rp]\<rparr>, s)"
| adj_change: "\<lbrakk>\<not> ag_engineBlocked a; ag_AdjChangeCh a = ch # chs\<rbrakk> \<Longrightarrow>
    process_step unmarshal call (a, s) (engine_step (AdjChangeEv ch) (a\<lparr>ag_AdjChangeCh := chs\<rparr>), s)"
| disagg: "\<lbrakk>\<not> ag_engineBlocked a; ag_DisaggUpdateCh a = Some pes\<rbrakk> \<Longrightarrow>
    process_step unmarshal call (a, s) (engine_step (DisaggUpdateEv pes) (a\<lparr>ag_DisaggUpdateCh := None\<rparr>), s)"
| received: "\<lbrakk>\<not> ag_engineBlocked a; ag_floodRecvCh a = rp # rps\<rbrakk> \<Longrightarrow>
    process_step unmarshal call (a, s) (engine_step (FloodRecvEv (floodRecvRelay rp)) (a\<lparr>ag_floodRecvCh := rps\<rparr>), s)"
| ticked: "ev \<in> {TIDETickEv, LifetimeTickEv, TXTickEv} \<Longrightarrow>
    process_step unmarshal call (a, s) (engine_step ev a, s)"
| sent: "process_step unmarshal call (a, s) (snd (floodSendLoop a), s)"
| time: "ag_now a \<le> t \<Longrightarrow> process_step unmarshal call (a, s)
    (a\<lparr>ag_now := t, ag_floodEngine := map_option (\<lambda>fe. fe\<lparr>fe_clock := t\<rparr>) (ag_floodEngine a)\<rparr>, s)"

text \<open>What the process reaches from its start.\<close>

inductive process_reachable ::
  "(string \<Rightarrow> riftJSON option) \<Rightarrow> 's ndk \<Rightarrow> Agent \<times> 's \<Rightarrow> bool"
  for unmarshal call where
  started: "\<lbrakk>waitForConfig unmarshal evs (agent_New t) = Some (True, a); start_engines lx a = Some a'\<rbrakk> \<Longrightarrow>
    process_reachable unmarshal call (a', s)"
| stepped: "\<lbrakk>process_reachable unmarshal call x; process_step unmarshal call x y\<rbrakk> \<Longrightarrow>
    process_reachable unmarshal call y"

end
