(* ===== verification/Agent_Inv.thy ===== *)
theory Agent_Inv
  imports Agent Tie_Frame Tie_Sync
begin

text \<open>
  Well-formed states of the agent, and that every step keeps them: the interface table, the
  configurations behind their pointers, the queues between the goroutines, and the two engines.
\<close>

section \<open>Well-formed states\<close>

definition iface_ok :: "string \<Rightarrow> interfaceState \<Rightarrow> bool" where
  "iface_ok name iface \<longleftrightarrow>
     tr_ifName (is_transport iface) = name \<and> fsm_ifName (is_lieIface iface) = name \<and>
     fsm_localID (is_lieIface iface) = tr_linkID (is_transport iface) \<and>
     is_floodActive iface = tr_floodConn (is_transport iface) \<and> lie_inv (is_lieIface iface)"

definition interfaces_ok :: "Agent \<Rightarrow> bool" where
  "interfaces_ok a \<longleftrightarrow> gm_wf (ag_interfaces a) \<and>
     (\<forall>name iface. gm_get (ag_interfaces a) name = Some iface \<longrightarrow> iface_ok name iface)"

definition config_ok :: "Agent \<Rightarrow> bool" where
  "config_ok a \<longleftrightarrow>
     (\<forall>p c. ag_cfg a = Some (p, c) \<longrightarrow> p < ag_allocs a \<and> distinct (cfg_Interfaces c)) \<and>
     (\<forall>p c. ag_pendingCfg a = Some (p, c) \<longrightarrow> p < ag_allocs a \<and> distinct (cfg_Interfaces c) \<and>
        (\<forall>q d. ag_cfg a = Some (q, d) \<longrightarrow> p \<noteq> q))"

definition queues_ok :: "Agent \<Rightarrow> bool" where
  "queues_ok a \<longleftrightarrow> length (ag_AdjChangeCh a) \<le> 16 \<and>
     (\<forall>ch \<in> set (ag_AdjChangeCh a). \<forall>info. ac_Info ch = Some info \<longrightarrow> ai_InterfaceName info = ac_InterfaceName ch) \<and>
     (\<forall>ev \<in> set (ag_adjEventCh a). ae_State ev = OneWay \<longleftrightarrow> ae_Neighbor ev = None)"

definition engines_ok :: "FloodEngine \<Rightarrow> Engine \<Rightarrow> bool" where
  "engines_ok fe e \<longleftrightarrow> fe_ok fe \<and> en_systemID e = fe_systemID fe \<and> en_level e = fe_level fe \<and>
     (\<forall>name info. gm_get (Adjacencies fe) name = Some info \<longrightarrow> ai_InterfaceName info = name)"

definition agent_wf :: "Agent \<Rightarrow> bool" where
  "agent_wf a \<longleftrightarrow> interfaces_ok a \<and> config_ok a \<and> queues_ok a \<and>
     (\<exists>fe e. ag_floodEngine a = Some fe \<and> ag_spfEngine a = Some e \<and> engines_ok fe e)"

text \<open>The parts a step does not touch.\<close>

lemma interfaces_ok_cong: "ag_interfaces b = ag_interfaces a \<Longrightarrow> interfaces_ok b = interfaces_ok a"
  by (simp add: interfaces_ok_def)

lemma config_ok_cong:
  "\<lbrakk>ag_cfg b = ag_cfg a; ag_pendingCfg b = ag_pendingCfg a; ag_allocs b = ag_allocs a\<rbrakk> \<Longrightarrow> config_ok b = config_ok a"
  by (simp add: config_ok_def)

lemma queues_ok_cong:
  "\<lbrakk>ag_AdjChangeCh b = ag_AdjChangeCh a; ag_adjEventCh b = ag_adjEventCh a\<rbrakk> \<Longrightarrow> queues_ok b = queues_ok a"
  by (simp add: queues_ok_def)

section \<open>Interfaces\<close>

lemma react_identity:
  "lie_inv f \<Longrightarrow> fsm_ifName (react i f) = fsm_ifName f \<and> fsm_localID (react i f) = fsm_localID f \<and>
     fsm_systemID (react i f) = fsm_systemID f \<and> fsm_level (react i f) = fsm_level f"
proof -
  assume "lie_inv f"
  then have "react i f = react_spec i f" by (intro react_refines) (simp add: lie_inv_def)
  moreover have "fsm_ifName (handle_spec h lie src f) = fsm_ifName f \<and> fsm_localID (handle_spec h lie src f) = fsm_localID f \<and>
      fsm_systemID (handle_spec h lie src f) = fsm_systemID f \<and> fsm_level (handle_spec h lie src f) = fsm_level f" for h lie src f
    by (auto simp: handle_spec_def heard_def wait_for_neighbors_def fsm_procs split: option.split)
  moreover have "fsm_ifName (tick_spec f) = fsm_ifName f \<and> fsm_localID (tick_spec f) = fsm_localID f \<and>
      fsm_systemID (tick_spec f) = fsm_systemID f \<and> fsm_level (tick_spec f) = fsm_level f" for f
    by (auto simp: tick_spec_def fsm_procs split: State.split option.split)
  ultimately show ?thesis by (cases i) (auto simp: with_pending_def split: option.split)
qed

text \<open>A machine only appends to its notifications.\<close>

lemma react_appends:
  assumes "lie_inv f"
  shows "\<exists>evs. fsm_stateChangeCh (react i f) = fsm_stateChangeCh f @ evs"
proof -
  have react: "react i f = react_spec i f" using assms by (intro react_refines) (simp add: lie_inv_def)
  have handle: "\<exists>evs. fsm_stateChangeCh (handle_spec h lie src f) = fsm_stateChangeCh f @ evs" for h lie src f
    by (auto simp: handle_spec_def heard_def wait_for_neighbors_def fsm_procs split: option.split)
  have tick: "\<exists>evs. fsm_stateChangeCh (tick_spec f) = fsm_stateChangeCh f @ evs" for f
    by (auto simp: tick_spec_def fsm_procs split: State.split option.split)
  show ?thesis
  proof (cases i)
    case (Tick_at t)
    then show ?thesis using tick [of "f\<lparr>fsm_now := t\<rparr>"] unfolding react by simp
  next
    case (Packet_at t pkt src)
    show ?thesis
    proof (cases "pc_LIE (pp_Content pkt)")
      case (Some lie)
      then show ?thesis
        using handle [of "pp_Header pkt" lie src "with_pending pkt lie src (f\<lparr>fsm_now := t\<rparr>)"] Packet_at
        unfolding react by (simp add: with_pending_def)
    qed (simp add: react [unfolded Packet_at] Packet_at del: react.simps)
  qed
qed

lemma new_interface_ok: "new_interface lx a name = Some iface \<Longrightarrow> iface_ok name iface"
  by (auto simp: new_interface_def transport_New_def iface_ok_def Let_def NewFSM_inv split: prod.splits option.splits if_splits)
    (simp_all add: NewFSM_def)

lemma interfaces_ok_put: "\<lbrakk>interfaces_ok a; iface_ok name iface\<rbrakk> \<Longrightarrow> interfaces_ok (a\<lparr>ag_interfaces := gm_put name iface (ag_interfaces a)\<rparr>)"
  by (auto simp: interfaces_ok_def go_map_laws)

lemma interfaces_ok_del: "interfaces_ok a \<Longrightarrow> interfaces_ok (a\<lparr>ag_interfaces := gm_del name (ag_interfaces a)\<rparr>)"
  by (auto simp: interfaces_ok_def go_map_laws)

lemma start_ok: "interfaces_ok a \<Longrightarrow> interfaces_ok (startInterfaceLocked lx name a)"
  by (auto simp: startInterfaceLocked_def interfaces_ok_put new_interface_ok split: option.split)

lemma stop_ok: "interfaces_ok a \<Longrightarrow> interfaces_ok (stopInterfaceLocked name a)"
  by (simp add: stopInterfaceLocked_def interfaces_ok_del)

lemma upd_iface_ok:
  assumes "interfaces_ok a" and "\<And>iface. gm_get (ag_interfaces a) name = Some iface \<Longrightarrow> iface_ok name (f iface)"
  shows "interfaces_ok (upd_iface name f a)"
  using assms by (auto simp: interfaces_ok_def upd_iface_def go_map_laws)

text \<open>Starting and stopping changes the interface table only.\<close>

lemma start_stop_frame:
  "\<exists>is. startInterfaceLocked lx name a = a\<lparr>ag_interfaces := is\<rparr>"
  "\<exists>is. stopInterfaceLocked name a = a\<lparr>ag_interfaces := is\<rparr>"
  by (auto simp: startInterfaceLocked_def stopInterfaceLocked_def split: option.split intro: exI [of _ "ag_interfaces a"])

lemma start_stop_simps [simp]:
  "ag_cfg (startInterfaceLocked lx name a) = ag_cfg a" "ag_cfg (stopInterfaceLocked name a) = ag_cfg a"
  "ag_pendingCfg (startInterfaceLocked lx name a) = ag_pendingCfg a" "ag_pendingCfg (stopInterfaceLocked name a) = ag_pendingCfg a"
  "ag_allocs (startInterfaceLocked lx name a) = ag_allocs a" "ag_allocs (stopInterfaceLocked name a) = ag_allocs a"
  "ag_AdjChangeCh (startInterfaceLocked lx name a) = ag_AdjChangeCh a" "ag_AdjChangeCh (stopInterfaceLocked name a) = ag_AdjChangeCh a"
  "ag_adjEventCh (startInterfaceLocked lx name a) = ag_adjEventCh a" "ag_adjEventCh (stopInterfaceLocked name a) = ag_adjEventCh a"
  "ag_floodEngine (startInterfaceLocked lx name a) = ag_floodEngine a" "ag_floodEngine (stopInterfaceLocked name a) = ag_floodEngine a"
  "ag_engineBlocked (startInterfaceLocked lx name a) = ag_engineBlocked a" "ag_engineBlocked (stopInterfaceLocked name a) = ag_engineBlocked a"
  "ag_spfEngine (startInterfaceLocked lx name a) = ag_spfEngine a" "ag_spfEngine (stopInterfaceLocked name a) = ag_spfEngine a"
  "ag_programmedRIB (startInterfaceLocked lx name a) = ag_programmedRIB a" "ag_programmedRIB (stopInterfaceLocked name a) = ag_programmedRIB a"
  "ag_now (startInterfaceLocked lx name a) = ag_now a" "ag_now (stopInterfaceLocked name a) = ag_now a"
  "ag_spfRuns (startInterfaceLocked lx name a) = ag_spfRuns a" "ag_spfRuns (stopInterfaceLocked name a) = ag_spfRuns a"
  "ag_telemetry (startInterfaceLocked lx name a) = ag_telemetry a" "ag_telemetry (stopInterfaceLocked name a) = ag_telemetry a"
  using start_stop_frame(1) [of lx name a] start_stop_frame(2) [of name a] by auto

text \<open>Steps that change interfaces only keep the rest of the invariant.\<close>

lemma agent_wf_interfaces:
  assumes "agent_wf a" and "b = a\<lparr>ag_interfaces := is\<rparr>" and "interfaces_ok b"
  shows "agent_wf b"
  using assms by (auto simp: agent_wf_def config_ok_def queues_ok_def)

lemma start_wf: "agent_wf a \<Longrightarrow> agent_wf (startInterfaceLocked lx name a)"
  using start_stop_frame(1) agent_wf_interfaces start_ok agent_wf_def by metis

lemma stop_wf: "agent_wf a \<Longrightarrow> agent_wf (stopInterfaceLocked name a)"
  using start_stop_frame(2) agent_wf_interfaces stop_ok agent_wf_def by metis

section \<open>The turns of the event loop\<close>

lemma fold_keeps: "\<lbrakk>P s; \<And>x s. P s \<Longrightarrow> P (f x s)\<rbrakk> \<Longrightarrow> P (fold f xs s)"
  by (induction xs arbitrary: s) auto

lemma processConfigEvent_frame:
  assumes "processConfigEvent unmarshal ev a = Some a'"
  shows "a' = a\<lparr>ag_cfg := ag_cfg a', ag_pendingCfg := ag_pendingCfg a', ag_allocs := ag_allocs a'\<rparr>"
  using assms by (cases a) (auto simp: processConfigEvent_def Let_def split: if_splits sum.splits option.splits prod.splits)

lemma config_ok_pending:
  "\<lbrakk>config_ok a; distinct (cfg_Interfaces c)\<rbrakk> \<Longrightarrow>
   config_ok (a\<lparr>ag_pendingCfg := Some (ag_allocs a, c), ag_allocs := Suc (ag_allocs a)\<rparr>)"
  by (auto simp: config_ok_def less_Suc_eq)

lemma processConfigEvent_config:
  assumes "config_ok a" and "processConfigEvent unmarshal ev a = Some a'"
  shows "config_ok a'"
  using assms
  by (auto simp: processConfigEvent_def Let_def config_ok_pending ParseRiftData_interfaces distinct_gs_add config_ok_def
      split: if_splits sum.splits option.splits prod.splits)

lemma processConfigEvent_wf:
  assumes "agent_wf a" and "processConfigEvent unmarshal ev a = Some a'"
  shows "agent_wf a'"
proof -
  have "config_ok a'" using assms by (auto simp: agent_wf_def intro: processConfigEvent_config)
  moreover have "ag_interfaces a' = ag_interfaces a" "ag_AdjChangeCh a' = ag_AdjChangeCh a"
    "ag_adjEventCh a' = ag_adjEventCh a" "ag_floodEngine a' = ag_floodEngine a" "ag_spfEngine a' = ag_spfEngine a"
    by (subst processConfigEvent_frame [OF assms(2)], simp)+
  ultimately show ?thesis using assms(1) by (simp add: agent_wf_def interfaces_ok_def queues_ok_def)
qed

text \<open>The two loops of \<open>handleConfigChange\<close>.\<close>

definition stop_removed :: "Agent \<Rightarrow> Agent" where
  "stop_removed a =
     fold (\<lambda>name a. if \<not> HasInterface name (cfg_of a) then stopInterfaceLocked name a else a)
       (gm_keys (ag_interfaces a)) a"

definition start_added :: "linux \<Rightarrow> Agent \<Rightarrow> Agent" where
  "start_added lx a =
     fold (\<lambda>ifName a. if gm_get (ag_interfaces a) ifName = None then startInterfaceLocked lx ifName a else a)
       (cfg_Interfaces (cfg_of a)) a"

lemma handleConfigChange_alt:
  "handleConfigChange lx unmarshal ev a =
     (case processConfigEvent unmarshal ev a of
        None \<Rightarrow> None
      | Some a1 \<Rightarrow>
          if ce_JSPath ev \<noteq> ''.commit.end'' \<or> map_option fst (ag_cfg a1) = map_option fst (ag_cfg a) then Some a1
          else if ag_cfg a1 = None \<or> \<not> Valid (cfg_of a1) then Some a1
          else Some (start_added lx (stop_removed a1)))"
  by (simp only: handleConfigChange_def stop_removed_def start_added_def Let_def)

lemma stop_removed_wf: "agent_wf a \<Longrightarrow> agent_wf (stop_removed a)"
  unfolding stop_removed_def by (rule fold_keeps) (simp_all add: stop_wf)

lemma start_added_wf: "agent_wf a \<Longrightarrow> agent_wf (start_added lx a)"
  unfolding start_added_def by (rule fold_keeps) (simp_all add: start_wf)

lemma handleConfigChange_wf: "\<lbrakk>agent_wf a; handleConfigChange lx unmarshal ev a = Some a'\<rbrakk> \<Longrightarrow> agent_wf a'"
  by (auto simp: handleConfigChange_alt processConfigEvent_wf stop_removed_wf start_added_wf
      split: option.splits if_splits)

lemma handleInterfaceEvent_wf: "agent_wf a \<Longrightarrow> agent_wf (handleInterfaceEvent lx ev a)"
  by (simp add: handleInterfaceEvent_def Let_def start_wf stop_wf)

text \<open>Adjacency events.\<close>

lemma OpenFloodSocket_Some:
  "OpenFloodSocket lx t = Some t' \<Longrightarrow> t' = t\<lparr>tr_floodConn := True\<rparr>"
  by (auto simp: OpenFloodSocket_def split: if_splits)

lemma CloseFloodSocket_eq: "CloseFloodSocket t = t\<lparr>tr_floodConn := False\<rparr>"
  by (simp add: CloseFloodSocket_def)

lemma iface_flood_ok:
  "iface_ok name iface \<Longrightarrow> iface_ok name (iface\<lparr>is_transport := (is_transport iface)\<lparr>tr_floodConn := True\<rparr>, is_floodActive := True\<rparr>)"
  "iface_ok name iface \<Longrightarrow> iface_ok name (iface\<lparr>is_floodActive := False, is_transport := (is_transport iface)\<lparr>tr_floodConn := False\<rparr>\<rparr>)"
  by (simp_all add: iface_ok_def)

lemma push_telemetry_wf: "agent_wf a \<Longrightarrow> agent_wf (push_telemetry t a)"
  by (simp add: push_telemetry_def agent_wf_def interfaces_ok_def config_ok_def queues_ok_def)

lemma upd_iface_wf:
  assumes "agent_wf a" and "\<And>iface. gm_get (ag_interfaces a) name = Some iface \<Longrightarrow> iface_ok name (f iface)"
  shows "agent_wf (upd_iface name f a)"
  by (rule agent_wf_interfaces [OF assms(1)])
    (use assms in \<open>auto simp: upd_iface_def agent_wf_def intro: upd_iface_ok [unfolded upd_iface_def]\<close>)

lemma sendAdjChange_wf:
  assumes "agent_wf a" and "sendAdjChange ch a = Some a'" and "\<And>info. ac_Info ch = Some info \<Longrightarrow> ai_InterfaceName info = ac_InterfaceName ch"
  shows "agent_wf a'"
  using assms by (auto simp: sendAdjChange_def agent_wf_def interfaces_ok_def config_ok_def queues_ok_def split: if_splits)

lemma handleAdjacencyEvent_wf:
  assumes wf: "agent_wf a" and run: "handleAdjacencyEvent lx ev a = Some a'"
  shows "agent_wf a'"
proof -
  let ?name = "ae_InterfaceName ev"
  define b where "b = push_telemetry (case_prod AdjacencyTelemetry (updateAdjacencyTelemetry ev)) a"
  have b: "agent_wf b" using wf by (simp add: b_def push_telemetry_wf)
  then have ok: "iface_ok ?name iface" if "gm_get (ag_interfaces b) ?name = Some iface" for iface
    using that by (simp add: agent_wf_def interfaces_ok_def)
  have up: "agent_wf a'"
    if "gm_get (ag_interfaces b) ?name = Some iface" "OpenFloodSocket lx (is_transport iface) = Some tr"
      "sendAdjChange \<lparr>ac_InterfaceName = ?name, ac_Info = Some (adjacency_info ?name n tr)\<rparr>
        (upd_iface ?name (\<lambda>iface. iface\<lparr>is_transport := tr, is_floodActive := True\<rparr>) b) = Some a'" for iface tr n
    using that ok OpenFloodSocket_Some [OF that(2)] iface_flood_ok(1)
    by (intro sendAdjChange_wf [OF upd_iface_wf [OF b] that(3)]) (auto simp: adjacency_info_def)
  have down: "agent_wf (upd_iface ?name
      (\<lambda>iface. iface\<lparr>is_floodActive := False, is_transport := CloseFloodSocket (is_transport iface)\<rparr>) c)"
    if "sendAdjChange \<lparr>ac_InterfaceName = ?name, ac_Info = None\<rparr> b = Some c" for c
  proof -
    have "agent_wf c" by (rule sendAdjChange_wf [OF b that]) simp
    then show ?thesis
      by (rule upd_iface_wf) (use \<open>agent_wf c\<close> in \<open>simp add: CloseFloodSocket_eq agent_wf_def interfaces_ok_def iface_flood_ok(2)\<close>)
  qed
  show ?thesis
    using run b up down unfolding handleAdjacencyEvent_def Let_def b_def [symmetric]
    by (auto split: option.splits if_splits bool.splits)
qed

section \<open>The engines\<close>

lemma engines_ok_frame:
  "engines_ok fe e \<Longrightarrow> engines_ok (fe\<lparr>fe_LSDBChangeCh := b\<rparr>) e"
  "engines_ok fe e \<Longrightarrow> engines_ok (fe\<lparr>fe_clock := t\<rparr>) e"
  "\<lbrakk>engines_ok fe e; fe_FloodSendCh fe = fp # fps\<rbrakk> \<Longrightarrow> engines_ok (fe\<lparr>fe_FloodSendCh := fps\<rparr>) e"
  by (auto simp: engines_ok_def fe_ok_alt adjacencies_frame)

lemma engines_ok_run: "engines_ok fe e \<Longrightarrow> engines_ok fe (Engine_Run fe e)"
  by (simp add: engines_ok_def Engine_Run_def Let_def)

text \<open>Serving an event; a change of an adjacency carries the name of its interface.\<close>

lemma engines_ok_serve:
  assumes "engines_ok fe e" and "serve ev fe = Some fe'"
    and "\<And>ch info. ev = AdjChangeEv ch \<Longrightarrow> ac_Info ch = Some info \<Longrightarrow> ai_InterfaceName info = ac_InterfaceName ch"
  shows "engines_ok fe' e"
proof -
  have ok: "fe_ok fe" and wf: "gm_wf (fe_adjacencies fe)"
    and names: "gm_get (Adjacencies fe) name = Some info \<Longrightarrow> ai_InterfaceName info = name" for name info
    using assms(1) fe_okD(2) by (auto simp: engines_ok_def)
  have "ai_InterfaceName info = name" if "gm_get (Adjacencies fe') name = Some info" for name info
  proof (cases "\<exists>ch. ev = AdjChangeEv ch")
    case True
    then obtain ch where ev: "ev = AdjChangeEv ch" by blast
    with that serve_adj_change(1) [OF assms(2) [unfolded ev] wf, of name] names assms(3)
    show ?thesis by (auto split: if_splits)
  next
    case False
    with that serve_keeps [OF assms(2)] names show ?thesis by simp
  qed
  with assms(1) serve_ok [OF ok assms(2)] show ?thesis by (simp add: engines_ok_def)
qed

lemma agent_wf_engines:
  assumes "agent_wf a" and "ag_floodEngine b = Some fe" and "ag_spfEngine b = Some e" and "engines_ok fe e"
    and "ag_interfaces b = ag_interfaces a" "ag_cfg b = ag_cfg a" "ag_pendingCfg b = ag_pendingCfg a" "ag_allocs b = ag_allocs a"
    and "queues_ok b"
  shows "agent_wf b"
  using assms by (simp add: agent_wf_def interfaces_ok_def config_ok_def)

lemma agent_wfE:
  assumes "agent_wf a"
  obtains fe e where "ag_floodEngine a = Some fe" and "ag_spfEngine a = Some e" and "engines_ok fe e" and "queues_ok a"
  using assms by (auto simp: agent_wf_def)

lemma engine_step_wf:
  assumes "agent_wf a"
    and "\<And>ch info. ev = AdjChangeEv ch \<Longrightarrow> ac_Info ch = Some info \<Longrightarrow> ai_InterfaceName info = ac_InterfaceName ch"
  shows "agent_wf (engine_step ev a)"
proof -
  obtain fe e where *: "ag_floodEngine a = Some fe" "ag_spfEngine a = Some e" "engines_ok fe e" "queues_ok a"
    using assms(1) by (rule agent_wfE)
  show ?thesis
  proof (cases "serve ev fe")
    case None
    with * assms(1) show ?thesis
      by (auto simp: engine_step_def intro!: agent_wf_engines [OF assms(1)] simp: queues_ok_def)
  next
    case (Some fe')
    with * assms(1) engines_ok_serve [OF *(3) Some assms(2)] show ?thesis
      by (auto simp: engine_step_def intro!: agent_wf_engines [OF assms(1)] simp: queues_ok_def)
  qed
qed

lemma state_telemetry_wf: "\<lbrakk>agent_wf a; state_telemetry a = Some a'\<rbrakk> \<Longrightarrow> agent_wf a'"
  by (auto simp: state_telemetry_def push_telemetry_wf split: option.splits if_splits)

lemma runDisaggregation_frame:
  "\<exists>ps ch. runDisaggregation fe e a = a\<lparr>ag_lastDisaggPrefixes := ps, ag_DisaggUpdateCh := ch\<rparr>"
  by (cases a) (auto simp: runDisaggregation_def Let_def split: option.split)

text \<open>The parts of a run of the SPF timer.\<close>

definition after_spf :: "FloodEngine \<Rightarrow> Engine \<Rightarrow> Agent \<Rightarrow> Agent" where
  "after_spf fe e a =
     (let a = a\<lparr>ag_spfEngine := Some e, ag_spfRuns := ag_spfRuns a + 1\<rparr>
      in if slt LeafLevel (cfg_Level (cfg_of a)) then runDisaggregation fe e a else a)"

lemma after_spf_frame:
  "\<exists>ps ch. after_spf fe e a = a\<lparr>ag_spfEngine := Some e, ag_spfRuns := ag_spfRuns a + 1,
     ag_lastDisaggPrefixes := ps, ag_DisaggUpdateCh := ch\<rparr>"
proof -
  let ?b = "a\<lparr>ag_spfEngine := Some e, ag_spfRuns := ag_spfRuns a + 1\<rparr>"
  obtain ps ch where d: "runDisaggregation fe e ?b = ?b\<lparr>ag_lastDisaggPrefixes := ps, ag_DisaggUpdateCh := ch\<rparr>"
    using runDisaggregation_frame by blast
  have "?b = ?b\<lparr>ag_lastDisaggPrefixes := ag_lastDisaggPrefixes a, ag_DisaggUpdateCh := ag_DisaggUpdateCh a\<rparr>" by simp
  with d show ?thesis unfolding after_spf_def Let_def by metis
qed

lemma spf_round_alt:
  "spf_round call a s =
     (case (ag_floodEngine a, ag_spfEngine a) of
        (Some fe, Some e) \<Rightarrow>
          if ag_engineBlocked a then None
          else (case syncRoutes call (Engine_RIB (Engine_Run fe e)) (ag_programmedRIB a) s of
              None \<Rightarrow> None
            | Some (P, s) \<Rightarrow>
                map_option (\<lambda>a. (a, s)) (state_telemetry ((after_spf fe (Engine_Run fe e) a)\<lparr>ag_programmedRIB := P\<rparr>)))
      | _ \<Rightarrow> None)"
proof -
  have "ag_programmedRIB (after_spf fe e a) = ag_programmedRIB a" for fe e
    using after_spf_frame [of fe e a] by auto
  then show ?thesis
    unfolding spf_round_def Let_def after_spf_def by (simp split: option.split)
qed

lemma spf_round_wf:
  assumes "agent_wf a" and "spf_round call a s = Some (a', s')"
  shows "agent_wf a'"
proof -
  obtain fe e where *: "ag_floodEngine a = Some fe" "ag_spfEngine a = Some e" "engines_ok fe e" "queues_ok a"
    using assms(1) by (rule agent_wfE)
  let ?b = "\<lambda>P. (after_spf fe (Engine_Run fe e) a)\<lparr>ag_programmedRIB := P\<rparr>"
  obtain P where "state_telemetry (?b P) = Some a'"
    using assms(2) * by (auto simp: spf_round_alt split: if_splits option.splits prod.splits)
  moreover have "agent_wf (?b P)"
  proof -
    obtain ps ch where "after_spf fe (Engine_Run fe e) a = a\<lparr>ag_spfEngine := Some (Engine_Run fe e),
        ag_spfRuns := ag_spfRuns a + 1, ag_lastDisaggPrefixes := ps, ag_DisaggUpdateCh := ch\<rparr>"
      using after_spf_frame by blast
    with * show ?thesis
      by (intro agent_wf_engines [OF assms(1), of _ fe "Engine_Run fe e"]) (simp_all add: engines_ok_run queues_ok_def)
  qed
  ultimately show ?thesis by (rule state_telemetry_wf [rotated])
qed

lemma queues_ok_tl: "\<lbrakk>queues_ok a; ag_adjEventCh a = ev # evs\<rbrakk> \<Longrightarrow> queues_ok (a\<lparr>ag_adjEventCh := evs\<rparr>)"
  "\<lbrakk>queues_ok a; ag_AdjChangeCh a = ch # chs\<rbrakk> \<Longrightarrow> queues_ok (a\<lparr>ag_AdjChangeCh := chs\<rparr>)"
  by (auto simp: queues_ok_def)

lemma agent_wf_queues:
  "\<lbrakk>agent_wf a; queues_ok (a\<lparr>ag_adjEventCh := evs\<rparr>)\<rbrakk> \<Longrightarrow> agent_wf (a\<lparr>ag_adjEventCh := evs\<rparr>)"
  "\<lbrakk>agent_wf a; queues_ok (a\<lparr>ag_AdjChangeCh := chs\<rparr>)\<rbrakk> \<Longrightarrow> agent_wf (a\<lparr>ag_AdjChangeCh := chs\<rparr>)"
  "agent_wf (a\<lparr>ag_DisaggUpdateCh := d\<rparr>) = agent_wf a" "agent_wf (a\<lparr>ag_floodRecvCh := rps\<rparr>) = agent_wf a"
  "agent_wf (a\<lparr>ag_spfTimer := tm\<rparr>) = agent_wf a"
  by (simp_all add: agent_wf_def interfaces_ok_def config_ok_def queues_ok_def)

lemma eventLoop_wf:
  assumes "agent_wf a" and "eventLoop lx unmarshal call ev (a, s) = Some (a', s')"
  shows "agent_wf a'"
proof -
  obtain fe e where *: "ag_floodEngine a = Some fe" "ag_spfEngine a = Some e" "engines_ok fe e" "queues_ok a"
    using assms(1) by (rule agent_wfE)
  show ?thesis
  proof (cases ev)
    case AdjacencyEv
    then show ?thesis
      using assms agent_wf_queues(1) [OF assms(1) queues_ok_tl(1) [OF *(4)]]
      by (auto split: list.splits dest: handleAdjacencyEvent_wf)
  next
    case LSDBChangeEv
    then show ?thesis
      using assms * by (auto split: if_splits intro!: agent_wf_engines [OF assms(1), of _ _ e] simp: engines_ok_frame queues_ok_def)
  next
    case SpfTimerEv
    then show ?thesis
      using assms spf_round_wf [of "a\<lparr>ag_spfTimer := None\<rparr>"] by (auto simp: agent_wf_queues split: option.splits if_splits)
  qed (use assms in \<open>auto simp: handleInterfaceEvent_wf dest: handleConfigChange_wf state_telemetry_wf\<close>)
qed


section \<open>The goroutines\<close>

lemma react_events:
  assumes "lie_inv f"
  shows "\<forall>ev \<in> set (drop (length (fsm_stateChangeCh f)) (fsm_stateChangeCh (react i f))). ae_State ev = OneWay \<longleftrightarrow> ae_Neighbor ev = None"
  using react_inv [OF assms, of i] by (auto simp: lie_inv_def events_ok_def dest: in_set_dropD)

lemma lie_step_wf:
  assumes "agent_wf a"
  shows "agent_wf (lie_step ifName inp a)"
proof (cases "gm_get (ag_interfaces a) ifName")
  case None
  with assms show ?thesis by (simp add: lie_step_def)
next
  case (Some iface)
  with assms have ok: "iface_ok ifName iface" and inv: "lie_inv (is_lieIface iface)"
    by (auto simp: agent_wf_def interfaces_ok_def iface_ok_def)
  let ?f = "react inp (is_lieIface iface)"
  let ?b = "upd_iface ifName (\<lambda>iface. iface\<lparr>is_lieIface := ?f\<rparr>) a"
  have "agent_wf ?b"
    by (rule upd_iface_wf [OF assms])
      (use Some ok react_identity [OF inv, of inp] react_inv [OF inv, of inp] in \<open>simp add: iface_ok_def del: react.simps\<close>)
  moreover have "queues_ok a" using assms by (simp add: agent_wf_def)
  ultimately have "agent_wf (?b\<lparr>ag_adjEventCh := ag_adjEventCh a @
      drop (length (fsm_stateChangeCh (is_lieIface iface))) (fsm_stateChangeCh ?f)\<rparr>)"
    by (intro agent_wf_queues(1)) (use react_events [OF inv, of inp] in \<open>auto simp: queues_ok_def upd_iface_def simp del: react.simps\<close>)
  then show ?thesis using Some by (simp add: lie_step_def Let_def del: react.simps)
qed

lemma floodSendLoop_frame:
  assumes "ag_floodEngine a = Some fe"
  shows "snd (floodSendLoop a) = (case fe_FloodSendCh fe of [] \<Rightarrow> a
     | fp # fps \<Rightarrow> a\<lparr>ag_floodEngine := Some (fe\<lparr>fe_FloodSendCh := fps\<rparr>)\<rparr>)"
  using assms by (auto simp: floodSendLoop_def Let_def split: list.split option.split sum.split)

lemma floodSendLoop_wf:
  assumes "agent_wf a"
  shows "agent_wf (snd (floodSendLoop a))"
proof -
  obtain fe e where *: "ag_floodEngine a = Some fe" "ag_spfEngine a = Some e" "engines_ok fe e" "queues_ok a"
    using assms by (rule agent_wfE)
  then show ?thesis
    using assms
    by (auto simp: floodSendLoop_frame engines_ok_frame queues_ok_def split: list.split intro!: agent_wf_engines [OF assms])
qed

lemma process_step_wf:
  assumes "process_step unmarshal call x y" and "agent_wf (fst x)"
  shows "agent_wf (fst y)"
  using assms
proof (cases rule: process_step.cases)
  case (loop lx ev a s a' s')
  with assms(2) show ?thesis by (simp add: eventLoop_wf)
next
  case (adj_change a ch chs s)
  then have q: "queues_ok a" using assms(2) by (simp add: agent_wf_def)
  then have "agent_wf (a\<lparr>ag_AdjChangeCh := chs\<rparr>)"
    using adj_change assms(2) by (intro agent_wf_queues(2) queues_ok_tl(2)) simp_all
  moreover have "ac_Info ch = Some info \<Longrightarrow> ai_InterfaceName info = ac_InterfaceName ch" for info
    using q adj_change(4) by (simp add: queues_ok_def)
  ultimately show ?thesis using adj_change by (auto intro: engine_step_wf)
next
  case (time a t s)
  from assms(2) obtain fe e where "ag_floodEngine a = Some fe" "ag_spfEngine a = Some e" "engines_ok fe e" "queues_ok a"
    using time by (auto elim: agent_wfE)
  with time assms(2) show ?thesis
    by (auto intro!: agent_wf_engines [of a] simp: engines_ok_frame queues_ok_def)
qed (auto simp: lie_step_wf floodSendLoop_wf agent_wf_queues intro!: engine_step_wf simp del: react.simps)

text \<open>The start.\<close>

lemma config_ok_New: "config_ok (agent_New t)"
  by (simp add: config_ok_def agent_New_def)

lemma waitForConfig_frame:
  "\<lbrakk>waitForConfig unmarshal evs a = Some (b, a'); config_ok a\<rbrakk> \<Longrightarrow>
   config_ok a' \<and> a' = a\<lparr>ag_cfg := ag_cfg a', ag_pendingCfg := ag_pendingCfg a', ag_allocs := ag_allocs a'\<rparr>"
proof (induction evs arbitrary: a)
  case (Cons ev evs)
  then obtain a1 where a1: "processConfigEvent unmarshal ev a = Some a1" by (auto split: option.splits)
  note f = processConfigEvent_frame [OF a1] and ok = processConfigEvent_config [OF Cons.prems(2) a1]
  show ?case
  proof (cases "ag_cfg a1 \<noteq> None \<and> Valid (cfg_of a1)")
    case True
    with Cons.prems a1 f ok show ?thesis by auto
  next
    case False
    then have "waitForConfig unmarshal evs a1 = Some (b, a')" using Cons.prems a1 by (auto split: if_splits)
    from Cons.IH [OF this ok] have "config_ok a'"
      and 1: "a' = a1\<lparr>ag_cfg := ag_cfg a', ag_pendingCfg := ag_pendingCfg a', ag_allocs := ag_allocs a'\<rparr>" by blast+
    moreover have "a' = a\<lparr>ag_cfg := ag_cfg a', ag_pendingCfg := ag_pendingCfg a', ag_allocs := ag_allocs a'\<rparr>"
      by (subst 1, subst f) simp
    ultimately show ?thesis by blast
  qed
qed simp

lemma startConfiguredInterfaces_frame:
  "ag_cfg (startConfiguredInterfaces lx a) = ag_cfg a \<and> ag_pendingCfg (startConfiguredInterfaces lx a) = ag_pendingCfg a \<and>
   ag_allocs (startConfiguredInterfaces lx a) = ag_allocs a \<and> ag_AdjChangeCh (startConfiguredInterfaces lx a) = ag_AdjChangeCh a \<and>
   ag_adjEventCh (startConfiguredInterfaces lx a) = ag_adjEventCh a \<and> ag_floodEngine (startConfiguredInterfaces lx a) = ag_floodEngine a \<and>
   ag_spfEngine (startConfiguredInterfaces lx a) = ag_spfEngine a"
  unfolding startConfiguredInterfaces_def by (rule fold_keeps) simp_all

lemma started_wf:
  assumes "waitForConfig unmarshal evs (agent_New t) = Some (True, a)" and "start_engines lx a = Some a'"
  shows "agent_wf a'"
proof -
  obtain c p n where a: "config_ok a" "a = (agent_New t)\<lparr>ag_cfg := c, ag_pendingCfg := p, ag_allocs := n\<rparr>"
    using waitForConfig_frame [OF assms(1) config_ok_New] by blast
  obtain ps where "discoverLocalPrefixes lx = Some ps" using assms(2) by (auto simp: start_engines_def)
  then obtain b where b: "b = a\<lparr>ag_floodRecvCh := [],
         ag_floodEngine := Some (NewFloodEngine (cfg_SystemID (cfg_of a)) (cfg_Level (cfg_of a))
           (''rift-'' @ fmt_d (sint (cfg_SystemID (cfg_of a)))) ps (ag_now a)),
         ag_spfEngine := Some (NewEngine (cfg_SystemID (cfg_of a)) (cfg_Level (cfg_of a)))\<rparr>"
    and a': "a' = startConfiguredInterfaces lx b"
    using assms(2) by (auto simp: start_engines_def)
  have "interfaces_ok b" unfolding b by (simp add: a(2) agent_New_def interfaces_ok_def)
  then have "interfaces_ok (startConfiguredInterfaces lx b)"
    unfolding startConfiguredInterfaces_def by (rule fold_keeps) (rule start_ok)
  moreover have "config_ok b" using a(1) by (simp add: b config_ok_def)
  moreover have "queues_ok b" by (simp add: b a(2) agent_New_def queues_ok_def)
  moreover have engines: "engines_ok (NewFloodEngine s l nm ps now) (NewEngine s l)" for s l nm now
    by (simp add: engines_ok_def NewEngine_def NewFloodEngine_ok) (simp add: Adjacencies_def NewFloodEngine_def gm_map_def)
  moreover note frame = startConfiguredInterfaces_frame [of lx b, folded a']
  ultimately have "interfaces_ok a'" "config_ok a'" "queues_ok a'"
    using config_ok_cong [of a' b] queues_ok_cong [of a' b] by (simp_all add: a')
  moreover have "ag_floodEngine a' = Some (NewFloodEngine (cfg_SystemID (cfg_of a)) (cfg_Level (cfg_of a))
      (''rift-'' @ fmt_d (sint (cfg_SystemID (cfg_of a)))) ps (ag_now a))"
    "ag_spfEngine a' = Some (NewEngine (cfg_SystemID (cfg_of a)) (cfg_Level (cfg_of a)))"
    using frame by (simp_all add: b)
  ultimately show ?thesis unfolding agent_wf_def using engines by blast
qed

section \<open>Properties\<close>

text \<open>
  C4 \<^bold>\<open>The agent stays well-formed.\<close> Whatever configuration it was started with, whatever notifications,
  datagrams, ticks and answers of the kernel and of the NDK service follow, and however the goroutines
  interleave: every running interface is registered under its own name with a machine for its own link, has
  its flood socket open exactly while its receive loop runs, and satisfies the invariant of the LIE machine; the
  committed and the pending configuration are different objects; no more changes wait for the flood engine than
  its channel holds, and each names its own interface; and the flood engine satisfies its invariant,
  files every adjacency under the interface it is on, and has the identity of the SPF engine.
\<close>

theorem process_invariant:
  assumes "process_reachable unmarshal call (a, s)"
  shows "agent_wf a"
proof -
  have "process_reachable unmarshal call x \<Longrightarrow> agent_wf (fst x)" for x
    by (induction rule: process_reachable.induct) (auto simp: started_wf dest: process_step_wf)
  with assms show ?thesis by fastforce
qed

text \<open>A spine with system id 7 and one interface.\<close>

definition ex_unmarshal :: "string \<Rightarrow> riftJSON option" where
  "ex_unmarshal data = Some \<lparr>rj_AdminState = None, rj_SystemID = Some ''7'', rj_Level = Some 1\<rparr>"

definition ex_start :: "ConfigEvent list" where
  "ex_start =
     [\<lparr>ce_JSPath = ''.rift'', ce_PathWithKeys = '''', ce_Keys = [], ce_Data = ''''\<rparr>,
      \<lparr>ce_JSPath = ''.rift.interface'', ce_PathWithKeys = '''', ce_Keys = [''ethernet-1/1''], ce_Data = ''''\<rparr>,
      \<lparr>ce_JSPath = ''.commit.end'', ce_PathWithKeys = '''', ce_Keys = [], ce_Data = ''''\<rparr>]"

definition ex_linux :: linux where
  "ex_linux = \<lparr>lx_addrs = (\<lambda>_. Some [''10.0.0.1/31'']), lx_interfaces = Some [], lx_ifindex = (\<lambda>_. Some 3),
     lx_recv = (\<lambda>_. True), lx_send = (\<lambda>_ _. True), lx_flood = (\<lambda>_ _. True)\<rparr>"

definition ex_config :: Config where
  "ex_config = \<lparr>cfg_AdminState = ''enable'', cfg_SystemID = 7, cfg_Level = 1, cfg_Interfaces = [''ethernet-1/1'']\<rparr>"

lemma ex_Sscanf: "Sscanf_u64 ''7'' = Some 7"
  by (simp add: Sscanf_u64_def is_digit_def dec_val_def digit_val_def)

lemma ex_waited: "waitForConfig ex_unmarshal ex_start (agent_New 0) = Some (True, (agent_New 0)\<lparr>ag_cfg := Some (0, ex_config), ag_allocs := 1\<rparr>)"
  by (simp add: ex_start_def processConfigEvent_def ParseRiftData_def ex_unmarshal_def ex_Sscanf agent_New_def ex_config_def
      ExtractInterfaceName_def HasPrefix_def Valid_def gs_add_def)

lemma ex_prefix: "ParsePrefix4 ''10.0.0.1/31'' = Some ([10, 0, 0, 1], 31)"
  by code_simp

definition ex_transport :: InterfaceTransport where
  "ex_transport = \<lparr>tr_ifName = ''ethernet-1/1'', tr_parent = ''e1-1'', tr_sub = ''e1-1.0'', tr_localAddr = Addr4 0x0A000001,
     tr_linkID = 3, tr_floodConn = False\<rparr>"

definition ex_agent :: Agent where
  "ex_agent = (agent_New 0)\<lparr>ag_cfg := Some (0, ex_config), ag_allocs := 1,
     ag_interfaces := [(''ethernet-1/1'', \<lparr>is_transport = ex_transport,
       is_lieIface = NewFSM 7 1 ''rift-7'' ''ethernet-1/1'' 3 0, is_floodActive = False\<rparr>)],
     ag_floodEngine := Some (NewFloodEngine 7 1 ''rift-7'' [] 0), ag_spfEngine := Some (NewEngine 7 1)\<rparr>"

lemma ex_started: "start_engines ex_linux ((agent_New 0)\<lparr>ag_cfg := Some (0, ex_config), ag_allocs := 1\<rparr>) = Some ex_agent"
proof -
  have d: "fmt_d 7 = ''7''" by code_simp
  have w: "(word_of_bytes [10, 0, 0, 1] :: 32 word) = 0x0A000001" by code_simp
  have n: "LinuxInterfaceNames ''ethernet-1/1'' = (''e1-1'', ''e1-1.0'')" by code_simp
  show ?thesis
    by (simp add: start_engines_def discoverLocalPrefixes_def DiscoverAllPrefixes_def ex_linux_def startConfiguredInterfaces_def
        startInterfaceLocked_def new_interface_def n DiscoverInterfaceAddr_def ex_prefix w transport_New_def d ex_config_def
        agent_New_def ex_agent_def ex_transport_def gm_put_def)
qed


lemma ex_reachable: "process_reachable ex_unmarshal call (ex_agent, s)"
  using ex_waited ex_started by (rule process_reachable.started)

theorem process_invariant_witness:
  "agent_wf (lie_step ''ethernet-1/1'' (Tick_at 0) ex_agent)"
proof -
  let ?call = "\<lambda>req s :: unit. (StatusSuccess, s)"
  have "process_step ex_unmarshal ?call (ex_agent, ()) (lie_step ''ethernet-1/1'' (Tick_at (ag_now ex_agent)) ex_agent, ())"
    by (rule process_step.lie_tick)
  from process_invariant [OF process_reachable.stepped [OF ex_reachable this]]
  show ?thesis by (simp add: ex_agent_def agent_New_def del: react.simps)
qed

end
