(* ===== verification/Agent_Fib.thy ===== *)
theory Agent_Fib
  imports Agent_Routes
begin

text \<open>
  What the forwarding table holds after the agent has synced: the documented behaviour of the route
  service, the relation between the agent's memory and the table, and its preservation by every sync.
\<close>

section \<open>The documented service\<close>

text \<open>
  The agent's part of the table: next-hop groups, routes, and between \<open>SyncStart\<close> and \<open>SyncEnd\<close> the
  routes added in the sync window. "SyncEnd automatically removes any routes not added during the sync window"
  (\<open>agent.go\<close>); the other requests add and delete what they name.
\<close>

record fib =
  fib_nhgs :: "string \<times> string \<Rightarrow> byte list list option"
  fib_routes :: "string \<times> IpAddrPrefLen \<Rightarrow> (string \<times> 32 word) option"
  fib_window :: "(string \<times> IpAddrPrefLen) set option"

definition route_key :: "NdkRoute \<Rightarrow> string \<times> IpAddrPrefLen" where
  "route_key r = (ro_NetworkInstanceName r, ro_IpPrefix r)"

fun documented :: "ndk_request \<Rightarrow> fib \<Rightarrow> fib" where
  "documented SyncStart f = f\<lparr>fib_window := Some {}\<rparr>"
| "documented SyncEnd f =
     f\<lparr>fib_routes := (case fib_window f of None \<Rightarrow> fib_routes f | Some added \<Rightarrow> fib_routes f |` added),
       fib_window := None\<rparr>"
| "documented (NextHopGroupAddOrUpdate name netInst hops) f = f\<lparr>fib_nhgs := (fib_nhgs f)((name, netInst) \<mapsto> hops)\<rparr>"
| "documented (NextHopGroupDelete keys) f = f\<lparr>fib_nhgs := fib_nhgs f |` (- set keys)\<rparr>"
| "documented (RouteAddOrUpdate routes) f =
     f\<lparr>fib_routes := fold (\<lambda>r m. m(route_key r \<mapsto> (ro_NexthopGroupName r, ro_Metric r))) routes (fib_routes f),
       fib_window := map_option (\<lambda>added. added \<union> route_key ` set routes) (fib_window f)\<rparr>"
| "documented (RouteDelete keys) f = f\<lparr>fib_routes := fib_routes f |` (- set keys)\<rparr>"

text \<open>A service with a view of its table behaves as documented when it answers with success.\<close>

definition ndk_documented :: "'s ndk \<Rightarrow> ('s \<Rightarrow> fib) \<Rightarrow> bool" where
  "ndk_documented call view \<longleftrightarrow>
     (\<forall>req s. fst (call req s) = StatusSuccess \<longrightarrow> view (snd (call req s)) = documented req (view s))"

definition ndk_succeeds :: "'s ndk \<Rightarrow> bool" where
  "ndk_succeeds call \<longleftrightarrow> (\<forall>req s. fst (call req s) = StatusSuccess)"

lemma rpc_success:
  "ndk_documented call view \<Longrightarrow> fst (call req s) = StatusSuccess \<Longrightarrow>
   \<exists>s'. rpc call req s = (None, s') \<and> view s' = documented req (view s)"
proof -
  assume "ndk_documented call view" and ok: "fst (call req s) = StatusSuccess"
  then have "view (snd (call req s)) = documented req (view s)" by (simp add: ndk_documented_def)
  with ok show ?thesis by (cases "call req s") (simp add: rpc_def)
qed

lemma ndk_succeedsD: "ndk_succeeds call \<Longrightarrow> fst (call req s) = StatusSuccess"
  by (simp add: ndk_succeeds_def)

lemma rpc_ok:
  assumes "ndk_documented call view" "ndk_succeeds call"
  shows "\<exists>s'. rpc call req s = (None, s') \<and> view s' = documented req (view s)"
  using rpc_success [OF assms(1)] assms(2) by (simp add: ndk_succeeds_def)

section \<open>Memory and table\<close>

definition hop_bytes :: "Addr list \<Rightarrow> byte list list" where
  "hop_bytes addrs = map (\<lambda>a. the (As4 a)) addrs"

definition in_sync :: "(string, programmedRoute) gomap \<Rightarrow> fib \<Rightarrow> bool" where
  "in_sync P f \<longleftrightarrow> gm_wf P \<and>
     (\<forall>(p, pr) \<in> set P. prefix_text p \<and> pr_nhgName pr = nhgName p \<and>
        fib_nhgs f (nhgName p, networkInstance) = Some (hop_bytes (pr_nhAddrs pr))) \<and>
     fib_routes f = map_of (map (\<lambda>(p, pr). ((networkInstance, ndk_prefix p), (pr_nhgName pr, pr_metric pr))) P)"

text \<open>A RIB that can be programmed: keys are texts of prefixes, next hops have IPv4 addresses.\<close>

definition rib_ok :: "RIB \<Rightarrow> bool" where
  "rib_ok rib \<longleftrightarrow> gm_wf rib \<and>
     (\<forall>(p, r) \<in> set (usable_routes rib). prefix_text p \<and> (\<forall>nh \<in> set (rt_NextHops r). As4 (nh_Address nh) \<noteq> None))"

lemma programmed_of_set: "(p, pr) \<in> set (programmed_of rib) \<longleftrightarrow> (\<exists>r. (p, r) \<in> set (usable_routes rib) \<and> pr = record_of p r)"
  by (auto simp: programmed_of_def)

lemma update_nhgs_view:
  assumes "ndk_documented call view" "\<And>n i h s. fst (call (NextHopGroupAddOrUpdate n i h) s) = StatusSuccess"
    and "\<forall>(n, as) \<in> set N. None \<notin> As4 ` set as"
  shows "\<exists>s'. update_nhgs call N s = Some s' \<and> view s' = (view s)\<lparr>fib_nhgs :=
    fib_nhgs (view s) ++ map_of (rev (map (\<lambda>(n, as). ((n, networkInstance), hop_bytes as)) N))\<rparr>"
  using assms(3)
proof (induction N arbitrary: s)
  case Nil
  then show ?case by (simp add: update_nhgs_def)
next
  case (Cons a N)
  obtain n as where a: "a = (n, as)" by (cases a)
  obtain s1 where s1: "rpc call (NextHopGroupAddOrUpdate n networkInstance (hop_bytes as)) s = (None, s1)"
    "view s1 = (view s)\<lparr>fib_nhgs := (fib_nhgs (view s))((n, networkInstance) \<mapsto> hop_bytes as)\<rparr>"
    using rpc_success [OF assms(1,2)] by fastforce
  have "None \<notin> set (map addrToNDK as)" using Cons.prems by (auto simp: a addrToNDK_def)
  moreover have "map (the \<circ> addrToNDK) as = hop_bytes as" by (simp add: hop_bytes_def addrToNDK_def)
  ultimately have "AddOrUpdateNextHopGroup call n networkInstance as s = Some (None, s1)"
    using s1(1) by (simp add: AddOrUpdateNextHopGroup_def)
  then have "update_nhgs call (a # N) s = update_nhgs call N s1"
    by (simp add: a update_nhgs_def)
  moreover obtain s' where "update_nhgs call N s1 = Some s'"
    "view s' = (view s1)\<lparr>fib_nhgs := fib_nhgs (view s1) ++
      map_of (rev (map (\<lambda>(n, as). ((n, networkInstance), hop_bytes as)) N))\<rparr>"
    using Cons.IH Cons.prems by (meson list.set_intros(2))
  ultimately show ?case using s1(2) by (simp add: a map_add_def fun_eq_iff split: option.split)
qed

lemma fold_route_upd:
  "fold (\<lambda>r m. m(k r \<mapsto> v r)) rs m = m ++ map_of (rev (map (\<lambda>r. (k r, v r)) rs))"
  by (induction rs arbitrary: m) (simp_all add: map_add_def fun_eq_iff split: option.split)

lemma restrict_map_add:
  "dom n \<subseteq> A \<Longrightarrow> A \<subseteq> dom n \<Longrightarrow> (m ++ n) |` A = n"
  by (rule ext) (auto simp: restrict_map_def map_add_def split: option.split)

lemma map_of_rev_distinct: "distinct (map fst xs) \<Longrightarrow> map_of (rev xs) = map_of xs"
  by (subst map_of_inject_set) (simp_all add: rev_map [symmetric])

text \<open>The window: whatever the table held, it holds exactly the routes added in it.\<close>

lemma sync_window:
  assumes "ndk_documented call view" "ndk_succeeds call"
    and "\<forall>r \<in> set rs. parses (re_Prefix r)" and "distinct (map (ndk_prefix \<circ> re_Prefix) rs)"
  shows "\<exists>s'. (let (err, s1) = RouteSyncStart call s; (_, s2) = AddOrUpdateRoutes call networkInstance rs s1;
      (_, s3) = RouteSyncEnd call s2 in (err, s3)) = (None, s') \<and>
    view s' = (view s)\<lparr>fib_routes := map_of (map (\<lambda>r. ((networkInstance, ndk_prefix (re_Prefix r)), (re_NHGName r, re_Metric r))) rs),
      fib_window := None\<rparr>"
proof -
  let ?ks = "map (\<lambda>r. ((networkInstance, ndk_prefix (re_Prefix r)), (re_NHGName r, re_Metric r))) rs"
  obtain s1 where s1: "RouteSyncStart call s = (None, s1)" "view s1 = (view s)\<lparr>fib_window := Some {}\<rparr>"
    using rpc_ok [OF assms(1,2), of SyncStart s] by (auto simp: RouteSyncStart_def)
  obtain e s2 where s2: "AddOrUpdateRoutes call networkInstance rs s1 = (e, s2)"
    "view s2 = (view s1)\<lparr>fib_routes := fib_routes (view s1) ++ map_of (rev ?ks), fib_window := Some (fst ` set ?ks)\<rparr>"
  proof (cases "rs = []")
    case True
    then show ?thesis using that [of None s1] s1(2) by (simp add: AddOrUpdateRoutes_def)
  next
    case False
    obtain s2 where s2: "rpc call (RouteAddOrUpdate (map (ndk_route networkInstance) rs)) s1 = (None, s2)"
      "view s2 = documented (RouteAddOrUpdate (map (ndk_route networkInstance) rs)) (view s1)"
      using rpc_ok [OF assms(1,2)] by blast
    then show ?thesis
      using that [of None s2] False assms(3) s1(2)
      by (simp add: AddOrUpdateRoutes_ok fold_map comp_def ndk_route_def route_key_def fold_route_upd image_image)
  qed
  obtain s3 where s3: "RouteSyncEnd call s2 = (None, s3)" "view s3 = documented SyncEnd (view s2)"
    using rpc_ok [OF assms(1,2), of SyncEnd s2] by (auto simp: RouteSyncEnd_def)
  have "distinct (map fst ?ks)"
    using assms(4) by (simp add: comp_def distinct_map inj_on_def)
  then have "map_of (rev ?ks) = map_of ?ks" by (rule map_of_rev_distinct)
  moreover have "dom (map_of (rev ?ks)) = fst ` set ?ks" by (simp add: dom_map_of_conv_image_fst)
  ultimately have "view s3 = (view s)\<lparr>fib_routes := map_of ?ks, fib_window := None\<rparr>"
    using s3(2) s2(2) s1(2) restrict_map_add [of "map_of (rev ?ks)" "fst ` set ?ks"] by simp
  then show ?thesis by (simp add: s1(1) s2(1) s3(1))
qed


section \<open>A sync keeps memory and table together\<close>

lemma DeleteNextHopGroups_view:
  assumes "ndk_documented call view" "ndk_succeeds call"
  shows "\<exists>s'. DeleteNextHopGroups call networkInstance names s = (None, s') \<and>
    view s' = (view s)\<lparr>fib_nhgs := fib_nhgs (view s) |` (- (\<lambda>n. (n, networkInstance)) ` set names)\<rparr>"
  using rpc_ok [OF assms, of "NextHopGroupDelete (map (\<lambda>n. (n, networkInstance)) names)" s]
  by (cases "names = []") (auto simp: DeleteNextHopGroups_def restrict_map_def)

lemma usable_get:
  "gm_wf rib \<Longrightarrow> (p, r) \<in> set (usable_routes rib) \<longleftrightarrow> gm_get rib p = Some r \<and> rt_NextHops r \<noteq> []"
  by (auto simp: usable_routes_def gm_get_in)

lemma usable_text: "rib_ok rib \<Longrightarrow> (p, r) \<in> set (usable_routes rib) \<Longrightarrow> prefix_text p"
  by (auto simp: rib_ok_def)

lemma usable_keys_inj:
  assumes "rib_ok rib" and "\<And>p q. prefix_text p \<Longrightarrow> prefix_text q \<Longrightarrow> f p = f q \<Longrightarrow> p = q"
  shows "distinct (map (\<lambda>(p, r). f p) (usable_routes rib))"
proof -
  have "distinct (map fst (usable_routes rib))" using assms(1) usable_distinct by (simp add: rib_ok_def)
  moreover have "inj_on f (fst ` set (usable_routes rib))"
  proof (rule inj_onI)
    fix p q assume "p \<in> fst ` set (usable_routes rib)" "q \<in> fst ` set (usable_routes rib)" and eq: "f p = f q"
    then obtain r r' where "(p, r) \<in> set (usable_routes rib)" "(q, r') \<in> set (usable_routes rib)" by auto
    then show "p = q" using usable_text [OF assms(1)] assms(2) eq by blast
  qed
  ultimately have "distinct (map f (map fst (usable_routes rib)))" by (simp only: distinct_map set_map simp_thms)
  then show ?thesis by (simp add: case_prod_unfold comp_def)
qed

lemma nhgs_after_updates:
  assumes sync: "in_sync P f" and ok: "rib_ok rib" and p: "(p, r) \<in> set (usable_routes rib)"
  shows "(fib_nhgs f ++ map_of (rev (map (\<lambda>(n, as). ((n, networkInstance), hop_bytes as))
      (map (\<lambda>(p, r). (nhgName p, map nh_Address (rt_NextHops r))) (filter (nhg_changed P) (usable_routes rib))))))
      (nhgName p, networkInstance) = Some (hop_bytes (map nh_Address (rt_NextHops r)))"
proof -
  let ?U = "filter (nhg_changed P) (usable_routes rib)"
  let ?N = "map (\<lambda>(n, as). ((n, networkInstance), hop_bytes as)) (map (\<lambda>(p, r). (nhgName p, map nh_Address (rt_NextHops r))) ?U)"
  have "distinct (map (\<lambda>(p, r). (nhgName p, networkInstance)) (usable_routes rib))"
    using ok prefix_nhgName_inj by (intro usable_keys_inj) auto
  then have "distinct (map (\<lambda>(p, r). (nhgName p, networkInstance)) ?U)" by (rule distinct_map_filter)
  then have dist: "distinct (map fst ?N)" by (simp add: comp_def case_prod_unfold)
  show ?thesis
  proof (cases "nhg_changed P (p, r)")
    case True
    with p have "((nhgName p, networkInstance), hop_bytes (map nh_Address (rt_NextHops r))) \<in> set ?N" by force
    then have "map_of ?N (nhgName p, networkInstance) = Some (hop_bytes (map nh_Address (rt_NextHops r)))"
      using dist by (rule map_of_is_SomeI [rotated])
    then show ?thesis unfolding map_of_rev_distinct [OF dist] by (simp add: map_add_def)
  next
    case False
    then obtain pr where pr: "gm_get P p = Some pr" "pr_nhAddrs pr = map nh_Address (rt_NextHops r)"
      by (auto simp: nhg_changed_def split: option.splits)
    then have "fib_nhgs f (nhgName p, networkInstance) = Some (hop_bytes (map nh_Address (rt_NextHops r)))"
      using sync gm_get_inD [OF pr(1)] by (auto simp: in_sync_def)
    moreover have "map_of ?N (nhgName p, networkInstance) = None"
    proof (rule ccontr)
      assume "map_of ?N (nhgName p, networkInstance) \<noteq> None"
      then obtain q r' where q: "(q, r') \<in> set (usable_routes rib)" "nhg_changed P (q, r')" "nhgName q = nhgName p"
        by (auto simp: map_of_eq_None_iff)
      have "q = p" using q(3) usable_text [OF ok q(1)] usable_text [OF ok p] by (rule prefix_nhgName_inj [rotated 2])
      moreover have "distinct (map fst (usable_routes rib))" using ok usable_distinct by (simp add: rib_ok_def)
      ultimately have "r' = r" using q(1) p by (auto dest: eq_key_imp_eq_value)
      with q(2) False \<open>q = p\<close> show False by simp
    qed
    ultimately show ?thesis unfolding map_of_rev_distinct [OF dist] by (simp add: map_add_def)
  qed
qed

lemma sync_step:
  assumes "ndk_documented call view" "ndk_succeeds call" and sync: "in_sync P (view s)" and ok: "rib_ok rib"
  shows "\<exists>P' s'. syncRoutes call rib P s = Some (P', s') \<and> P' = programmed_of rib \<and> in_sync P' (view s')"
proof -
  let ?U = "usable_routes rib"
  let ?as = "map (\<lambda>(p, r). entry_of p r) ?U"
  let ?N = "map (\<lambda>(p, r). (nhgName p, map nh_Address (rt_NextHops r))) (filter (nhg_changed P) ?U)"
  let ?stale = "stale_nhgs P (programmed_of rib)"
  have wf: "gm_wf rib" using ok by (simp add: rib_ok_def)
  note plan = sync_plan_eq [OF wf, of P]
  have routes: "map_of (map (\<lambda>r. ((networkInstance, ndk_prefix (re_Prefix r)), re_NHGName r, re_Metric r)) ?as) =
      map_of (map (\<lambda>(p, pr). ((networkInstance, ndk_prefix p), (pr_nhgName pr, pr_metric pr))) (programmed_of rib))"
    by (rule arg_cong [where f = map_of])
      (simp add: programmed_of_def entry_of_def record_of_def comp_def case_prod_unfold)
  show ?thesis
  proof (cases "?as = [] \<and> P = []")
    case True
    then have "programmed_of rib = []" by (simp add: programmed_of_def)
    with True sync show ?thesis by (simp add: syncRoutes_def sync_plan_eq [OF wf])
  next
    case False
    have addrs: "\<forall>(n, as) \<in> set ?N. None \<notin> As4 ` set as"
    proof (rule ballI, rule case_prodI2)
      fix x n hops assume "x \<in> set ?N" "x = (n, hops)"
      then obtain p r where "(p, r) \<in> set ?U" "hops = map nh_Address (rt_NextHops r)" by auto
      with ok show "None \<notin> As4 ` set hops" unfolding rib_ok_def by fastforce
    qed
    obtain s1 where s1: "update_nhgs call ?N s = Some s1" "view s1 = (view s)\<lparr>fib_nhgs :=
        fib_nhgs (view s) ++ map_of (rev (map (\<lambda>(n, as). ((n, networkInstance), hop_bytes as)) ?N))\<rparr>"
      using update_nhgs_view [OF assms(1) ndk_succeedsD [OF assms(2)] addrs] by blast
    have parse: "\<forall>r \<in> set ?as. parses (re_Prefix r)"
      using usable_text [OF ok] prefix_text_parses by (auto simp: entry_of_def)
    have "distinct (map (\<lambda>(p, r). ndk_prefix p) ?U)"
      using ok ndk_prefix_inj by (intro usable_keys_inj) auto
    then have dist: "distinct (map (ndk_prefix \<circ> re_Prefix) ?as)"
      by (simp add: comp_def case_prod_unfold entry_of_def)
    obtain s3 where s3: "(let (err, s1) = RouteSyncStart call s1; (_, s2) = AddOrUpdateRoutes call networkInstance ?as s1;
      (_, s3) = RouteSyncEnd call s2 in (err, s3)) = (None, s3)"
      "view s3 = (view s1)\<lparr>fib_routes := map_of (map (\<lambda>r. ((networkInstance, ndk_prefix (re_Prefix r)), re_NHGName r, re_Metric r)) ?as),
        fib_window := None\<rparr>"
      using sync_window [OF assms(1,2) parse dist, of s1] by blast
    obtain s4 where s4: "DeleteNextHopGroups call networkInstance ?stale s3 = (None, s4)"
      "view s4 = (view s3)\<lparr>fib_nhgs := fib_nhgs (view s3) |` (- (\<lambda>n. (n, networkInstance)) ` set ?stale)\<rparr>"
      using DeleteNextHopGroups_view [OF assms(1,2)] by blast
    have "syncRoutes call rib P s = Some (programmed_of rib, s4)"
      using False s1(1) s3(1) s4(1) by (auto simp: syncRoutes_def plan Let_def split: prod.splits)
    moreover have "in_sync (programmed_of rib) (view s4)"
      unfolding in_sync_def
    proof (intro conjI)
      show "gm_wf (programmed_of rib)"
        using usable_distinct [OF wf] by (simp add: gm_wf_def programmed_of_def comp_def case_prod_unfold)
      show "fib_routes (view s4) = map_of (map (\<lambda>(p, pr). ((networkInstance, ndk_prefix p), (pr_nhgName pr, pr_metric pr)))
          (programmed_of rib))"
        unfolding routes [symmetric] using s4(2) s3(2) by simp
      show "\<forall>(p, pr) \<in> set (programmed_of rib). prefix_text p \<and> pr_nhgName pr = nhgName p \<and>
          fib_nhgs (view s4) (nhgName p, networkInstance) = Some (hop_bytes (pr_nhAddrs pr))"
      proof (intro ballI, clarify)
        fix p pr assume "(p, pr) \<in> set (programmed_of rib)"
        then obtain r where r: "(p, r) \<in> set ?U" "pr = record_of p r" by (auto simp: programmed_of_set)
        have txp: "prefix_text p" using usable_text [OF ok r(1)] .
        have "gm_get (programmed_of rib) p \<noteq> None"
          using r(1) usable_get [OF wf, of p r] by (simp add: gm_get_programmed_of [OF wf])
        moreover have "prefix_text q" if "(q, qr) \<in> set P" for q qr using sync that by (auto simp: in_sync_def)
        ultimately have "nhgName p \<notin> set ?stale"
          using prefix_nhgName_inj [OF txp] by (fastforce simp: stale_nhgs_eq)
        then have "fib_nhgs (view s4) (nhgName p, networkInstance) = fib_nhgs (view s1) (nhgName p, networkInstance)"
          using s4(2) s3(2) by (auto simp: restrict_map_def)
        also have "\<dots> = Some (hop_bytes (map nh_Address (rt_NextHops r)))"
          using nhgs_after_updates [OF sync ok r(1)] s1(2) by simp
        finally show "prefix_text p \<and> pr_nhgName pr = nhgName p \<and>
            fib_nhgs (view s4) (nhgName p, networkInstance) = Some (hop_bytes (pr_nhAddrs pr))"
          using txp r(2) by (simp add: record_of_def)
      qed
    qed
    ultimately show ?thesis by simp
  qed
qed
lemma record_of_simps:
  "pr_nhgName (record_of p r) = nhgName p" "pr_metric (record_of p r) = rt_Metric r"
  by (simp_all add: record_of_def)

section \<open>Properties\<close>

text \<open>The agent syncs one RIB after the other.\<close>

definition sync_all ::
  "'s ndk \<Rightarrow> RIB list \<Rightarrow> (string, programmedRoute) gomap \<times> 's \<Rightarrow> ((string, programmedRoute) gomap \<times> 's) option" where
  "sync_all call = fold_opt (\<lambda>rib (P, s). syncRoutes call rib P s)"

lemma sync_all_step:
  assumes "ndk_documented call view" "ndk_succeeds call" and "in_sync P (view s)" and "\<forall>rib \<in> set ribs. rib_ok rib"
  shows "\<exists>P' s'. sync_all call ribs (P, s) = Some (P', s') \<and> in_sync P' (view s') \<and>
    (ribs \<noteq> [] \<longrightarrow> P' = programmed_of (last ribs))"
  using assms(3,4)
proof (induction ribs arbitrary: P s)
  case (Cons rib ribs)
  obtain P1 s1 where "syncRoutes call rib P s = Some (P1, s1)" "P1 = programmed_of rib" "in_sync P1 (view s1)"
    using sync_step [OF assms(1,2) Cons.prems(1), of rib] Cons.prems(2) by auto
  then show ?case using Cons.IH [of P1 s1] Cons.prems(2) by (auto simp: sync_all_def)
qed (simp add: sync_all_def)

text \<open>
  C3 \<^bold>\<open>The forwarding table follows the RIB.\<close> While the service answers with success, any sequence of
  syncs of RIBs that can be programmed, from a state in which memory and table agree, leaves in the table
  exactly one route for each prefix with next hops of the last RIB, with its metric and its own next-hop
  group, and every such group holds exactly the next-hop addresses of the route. Memory and table
  agree again.
\<close>

theorem fib_follows_rib:
  assumes "ndk_documented call view" and "ndk_succeeds call" and "in_sync P (view s)"
    and "\<forall>rib \<in> set ribs. rib_ok rib" and "ribs \<noteq> []"
  shows "\<exists>P' s'. sync_all call ribs (P, s) = Some (P', s') \<and> in_sync P' (view s') \<and>
    (\<forall>k n m. fib_routes (view s') k = Some (n, m) \<longleftrightarrow>
       (\<exists>p r. gm_get (last ribs) p = Some r \<and> rt_NextHops r \<noteq> [] \<and>
          k = (''default'', ndk_prefix p) \<and> n = nhgName p \<and> m = rt_Metric r)) \<and>
    (\<forall>p r. gm_get (last ribs) p = Some r \<and> rt_NextHops r \<noteq> [] \<longrightarrow>
       fib_nhgs (view s') (nhgName p, ''default'') = Some (map (\<lambda>nh. the (As4 (nh_Address nh))) (rt_NextHops r)))"
proof -
  let ?rib = "last ribs"
  obtain s' where s': "sync_all call ribs (P, s) = Some (programmed_of ?rib, s')" "in_sync (programmed_of ?rib) (view s')"
    using sync_all_step [OF assms(1-4)] assms(5) by blast
  have ok: "rib_ok ?rib" using assms(4,5) by simp
  then have wf: "gm_wf ?rib" by (simp add: rib_ok_def)
  let ?key = "\<lambda>p. (''default'', ndk_prefix p)"
  let ?rs = "map (\<lambda>(p, pr). (?key p, (pr_nhgName pr, pr_metric pr))) (programmed_of ?rib)"
  have routes: "fib_routes (view s') = map_of ?rs" using s'(2) by (simp add: in_sync_def)
  have "distinct (map (\<lambda>(p, r). ?key p) (usable_routes ?rib))"
    using ok ndk_prefix_inj by (intro usable_keys_inj) auto
  then have "distinct (map fst ?rs)" by (simp add: programmed_of_def comp_def case_prod_unfold)
  then have "fib_routes (view s') k = Some (n, m) \<longleftrightarrow> (k, n, m) \<in> set ?rs" for k n m
    unfolding routes by (rule map_of_eq_Some_iff)
  moreover have "(k, n, m) \<in> set ?rs \<longleftrightarrow> (\<exists>p r. (p, r) \<in> set (usable_routes ?rib) \<and> k = ?key p \<and> n = nhgName p \<and> m = rt_Metric r)"
    for k n m
  proof -
    have "(k, n, m) \<in> set ?rs \<longleftrightarrow>
        (\<exists>p pr. (p, pr) \<in> set (programmed_of ?rib) \<and> k = ?key p \<and> n = pr_nhgName pr \<and> m = pr_metric pr)"
      by force
    also have "\<dots> \<longleftrightarrow> (\<exists>p r. (p, r) \<in> set (usable_routes ?rib) \<and> k = ?key p \<and> n = nhgName p \<and> m = rt_Metric r)"
      unfolding programmed_of_set by (metis record_of_simps(1,2))
    finally show ?thesis .
  qed
  moreover have "fib_nhgs (view s') (nhgName p, ''default'') = Some (map (\<lambda>nh. the (As4 (nh_Address nh))) (rt_NextHops r))"
    if "(p, r) \<in> set (usable_routes ?rib)" for p r
  proof -
    have "(p, record_of p r) \<in> set (programmed_of ?rib)" using that by (auto simp: programmed_of_set)
    with s'(2) show ?thesis by (auto simp: in_sync_def hop_bytes_def record_of_def comp_def)
  qed
  ultimately show ?thesis using s' usable_get [OF wf] by auto
qed

text \<open>A service that does what is documented, and a RIB with one route.\<close>

definition ref_ndk :: "fib ndk" where
  "ref_ndk req f = (StatusSuccess, documented req f)"

lemma ref_ndk_ok: "ndk_documented ref_ndk (\<lambda>f. f)" "ndk_succeeds ref_ndk"
  by (simp_all add: ndk_documented_def ndk_succeeds_def ref_ndk_def)

definition empty_fib :: fib where
  "empty_fib = \<lparr>fib_nhgs = Map.empty, fib_routes = Map.empty, fib_window = None\<rparr>"

definition ex_rib :: "string \<Rightarrow> 32 word \<Rightarrow> RIB" where
  "ex_rib p a = [(p, \<lparr>rt_Prefix = p, rt_Metric = 1, rt_RouteType = 8,
     rt_NextHops = [\<lparr>nh_NeighborID = 1, nh_Address = Addr4 a, nh_Interface = ''e1''\<rparr>]\<rparr>)]"

lemma ex_text: "prefix_text ''0.0.0.0/0''"
proof -
  have d: "digit 0 = CHR ''0''" by simp
  then have "''0.0.0.0/0'' = addr_text 0 0 0 0 @ CHR ''/'' # fmt_d 0"
    by (simp add: addr_text_def fmt_d_def dec.simps) (simp only: d)
  then show ?thesis unfolding prefix_text_def by (intro exI [of _ 0] exI conjI) auto
qed

lemma ex_rib_ok: "rib_ok (ex_rib ''0.0.0.0/0'' a)"
  by (simp add: rib_ok_def ex_rib_def gm_wf_def usable_routes_def As4_def ex_text)

lemma in_sync_empty: "in_sync [] empty_fib"
  by (simp add: in_sync_def gm_wf_def empty_fib_def)

theorem fib_follows_rib_witness:
  "\<exists>P' f. sync_all ref_ndk [ex_rib ''0.0.0.0/0'' 1] ([], empty_fib) = Some (P', f) \<and>
     fib_nhgs f (nhgName ''0.0.0.0/0'', ''default'') = Some [bytes4 (1 :: 32 word)]"
proof -
  have "gm_get (ex_rib ''0.0.0.0/0'' 1) ''0.0.0.0/0'' = Some (snd (hd (ex_rib ''0.0.0.0/0'' 1)))"
    by (simp add: ex_rib_def gm_get_def)
  then show ?thesis
    using fib_follows_rib [OF ref_ndk_ok, of "[]" empty_fib "[ex_rib ''0.0.0.0/0'' 1]"] in_sync_empty ex_rib_ok
    by (fastforce simp: ex_rib_def As4_def)
qed

text \<open>
  C35 \<^bold>\<open>One prefix that does not parse empties the forwarding table.\<close> If any prefix with next hops in the RIB
  is no text of an IPv4 prefix - such as one announced with a length above 32 - a sync against a service
  that always succeeds leaves no route of the agent at all in the table, and the agent records all of
  them as programmed.
\<close>

theorem unparsable_prefix_empties_fib:
  assumes "ndk_documented call view" and "ndk_succeeds call" and "gm_wf rib"
    and "\<forall>(q, r) \<in> set rib. \<forall>nh \<in> set (rt_NextHops r). As4 (nh_Address nh) \<noteq> None"
    and "gm_get rib p = Some r" and "rt_NextHops r \<noteq> []" and "ParsePrefix4 p = None"
  shows "\<exists>s'. syncRoutes call rib P s = Some (programmed_of rib, s') \<and> fib_routes (view s') = Map.empty"
proof -
  let ?U = "usable_routes rib"
  let ?as = "map (\<lambda>(p, r). entry_of p r) ?U"
  let ?N = "map (\<lambda>(p, r). (nhgName p, map nh_Address (rt_NextHops r))) (filter (nhg_changed P) ?U)"
  let ?stale = "stale_nhgs P (programmed_of rib)"
  have p: "(p, r) \<in> set ?U" using assms(5,6) usable_get [OF assms(3)] by blast
  then have bad: "\<exists>e \<in> set ?as. \<not> parses (re_Prefix e)"
    using assms(7) by (force simp: entry_of_def parses_def)
  have "\<forall>(n, hops) \<in> set ?N. None \<notin> As4 ` set hops"
    using assms(4) unfolding usable_routes_def by fastforce
  then obtain s1 where s1: "update_nhgs call ?N s = Some s1"
    using update_nhgs_view [OF assms(1) ndk_succeedsD [OF assms(2)]] by blast
  obtain s2 where s2: "RouteSyncStart call s1 = (None, s2)" "fib_window (view s2) = Some {}"
    using rpc_ok [OF assms(1,2), of SyncStart s1] by (auto simp: RouteSyncStart_def)
  obtain e where e: "AddOrUpdateRoutes call networkInstance ?as s2 = (Some e, s2)"
    using AddOrUpdateRoutes_error [OF bad, of call networkInstance s2] by blast
  obtain s3 where s3: "RouteSyncEnd call s2 = (None, s3)" "view s3 = documented SyncEnd (view s2)"
    using rpc_ok [OF assms(1,2), of SyncEnd s2] by (auto simp: RouteSyncEnd_def)
  obtain s4 where s4: "DeleteNextHopGroups call networkInstance ?stale s3 = (None, s4)"
    "fib_routes (view s4) = fib_routes (view s3)"
    using DeleteNextHopGroups_view [OF assms(1,2)] by fastforce
  have "?as \<noteq> []" using p by auto
  then have "syncRoutes call rib P s = Some (programmed_of rib, s4)"
    using s1 s2(1) e s3(1) s4(1) by (simp add: syncRoutes_def sync_plan_eq [OF assms(3)] Let_def)
  moreover have "fib_routes (view s4) = Map.empty" using s4(2) s3(2) s2(2) by simp
  ultimately show ?thesis by blast
qed

theorem unparsable_prefix_empties_fib_witness:
  "\<exists>f. syncRoutes ref_ndk (ex_rib ''0.0.0.0/0'' 1 @ ex_rib ''10.0.0.0/33'' 1)
      [(''0.0.0.0/0'', record_of ''0.0.0.0/0'' (snd (hd (ex_rib ''0.0.0.0/0'' 1))))] empty_fib =
    Some (programmed_of (ex_rib ''0.0.0.0/0'' 1 @ ex_rib ''10.0.0.0/33'' 1), f) \<and> fib_routes f = Map.empty"
proof (rule unparsable_prefix_empties_fib [OF ref_ndk_ok])
  show "ParsePrefix4 ''10.0.0.0/33'' = None" by code_simp
  show "gm_get (ex_rib ''0.0.0.0/0'' 1 @ ex_rib ''10.0.0.0/33'' 1) ''10.0.0.0/33'' = Some (snd (hd (ex_rib ''10.0.0.0/33'' 1)))"
    by (simp add: ex_rib_def gm_get_def)
qed (simp_all add: ex_rib_def gm_wf_def As4_def)

text \<open>
  \<^bold>\<open>A failed next-hop group is not retried.\<close> Whatever the service answered to the other requests of
  a sync, once its \<open>SyncStart\<close> succeeded the next sync of the same RIB asks for no next-hop group: a group
  that could not be added stays missing as long as the next hops of its route do not change.
\<close>

theorem failed_group_not_retried:
  assumes "gm_wf rib" and "\<And>s. fst (call SyncStart s) = StatusSuccess"
    and "syncRoutes call rib P s = Some (P', s')"
  shows "fst (snd (sync_plan P' rib)) = []"
proof -
  note plan = sync_plan_eq [OF assms(1)]
  have start: "RouteSyncStart call t = (None, snd (call SyncStart t))" for t
    using assms(2) [of t] by (cases "call SyncStart t") (simp add: RouteSyncStart_def rpc_def)
  have "P' = programmed_of rib \<or> usable_routes rib = []"
    using assms(3) by (auto simp: syncRoutes_def plan start Let_def split: if_splits option.splits prod.splits)
  moreover have "\<not> nhg_changed (programmed_of rib) (q, r)" if "(q, r) \<in> set (usable_routes rib)" for q r
    using that usable_get [OF assms(1), of q r] by (simp add: nhg_changed_def gm_get_programmed_of [OF assms(1)] record_of_def)
  ultimately show ?thesis by (auto simp: plan filter_empty_conv)
qed

definition no_groups :: "fib ndk" where
  "no_groups req f = (case req of NextHopGroupAddOrUpdate _ _ _ \<Rightarrow> (StatusFailure, f) | _ \<Rightarrow> (StatusSuccess, documented req f))"

theorem failed_group_not_retried_witness:
  "\<exists>P' f. syncRoutes no_groups (ex_rib ''0.0.0.0/0'' 1) [] empty_fib = Some (P', f) \<and>
     fib_nhgs f (nhgName ''0.0.0.0/0'', ''default'') = None \<and> fst (snd (sync_plan P' (ex_rib ''0.0.0.0/0'' 1))) = []"
proof -
  have wf: "gm_wf (ex_rib ''0.0.0.0/0'' 1)" by (simp add: ex_rib_def gm_wf_def)
  have start: "fst (no_groups SyncStart s) = StatusSuccess" for s by (simp add: no_groups_def)
  have parses: "parses ''0.0.0.0/0''" using ex_text by (rule prefix_text_parses)
  obtain P' f where P': "syncRoutes no_groups (ex_rib ''0.0.0.0/0'' 1) [] empty_fib = Some (P', f)"
    "fib_nhgs f (nhgName ''0.0.0.0/0'', ''default'') = None"
    using parses by (simp add: syncRoutes_def sync_plan_eq [OF wf, unfolded ex_rib_def] usable_routes_def ex_rib_def nhg_changed_def
        entry_of_def update_nhgs_def AddOrUpdateNextHopGroup_def addrToNDK_def As4_def rpc_def no_groups_def
        RouteSyncStart_def RouteSyncEnd_def AddOrUpdateRoutes_ok DeleteNextHopGroups_def stale_nhgs_eq empty_fib_def Let_def)
  with failed_group_not_retried [OF wf start P'(1)] show ?thesis by blast
qed

lemma resync_plan:
  assumes "gm_wf rib"
  shows "filter (nhg_changed (programmed_of rib)) (usable_routes rib) = []" "stale_nhgs (programmed_of rib) (programmed_of rib) = []"
proof -
  have "\<not> nhg_changed (programmed_of rib) (q, r)" if "(q, r) \<in> set (usable_routes rib)" for q r
    using that usable_get [OF assms, of q r] by (simp add: nhg_changed_def gm_get_programmed_of [OF assms] record_of_def)
  then show "filter (nhg_changed (programmed_of rib)) (usable_routes rib) = []" by (auto simp: filter_empty_conv)
  show "stale_nhgs (programmed_of rib) (programmed_of rib) = []"
    by (auto simp: stale_nhgs_eq filter_empty_conv gm_get_def map_of_eq_None_iff) force
qed

lemma sync_start_fails:
  assumes "ndk_documented bad view"
    and bad: "\<And>req s. fst (bad req s) = (if req = SyncStart then StatusFailure else StatusSuccess)"
      "\<And>s. view (snd (bad SyncStart s)) = view s"
    and P: "in_sync P (view s)" and rib: "rib_ok rib" and p1: "(p, r) \<in> set (usable_routes rib)"
  shows "\<exists>s1. syncRoutes bad rib P s = Some (P, s1) \<and>
    fib_nhgs (view s1) (nhgName p, ''default'') = Some (hop_bytes (map nh_Address (rt_NextHops r)))"
proof -
  have wf: "gm_wf rib" using rib by (simp add: rib_ok_def)
  let ?N = "map (\<lambda>(p, r). (nhgName p, map nh_Address (rt_NextHops r))) (filter (nhg_changed P) (usable_routes rib))"
  have "\<forall>(n, hops) \<in> set ?N. None \<notin> As4 ` set hops"
  proof (rule ballI, rule case_prodI2)
    fix x n hops assume "x \<in> set ?N" "x = (n, hops)"
    then obtain q r where "(q, r) \<in> set (usable_routes rib)" "hops = map nh_Address (rt_NextHops r)" by auto
    with rib show "None \<notin> As4 ` set hops" unfolding rib_ok_def by fastforce
  qed
  then obtain s0 where s0: "update_nhgs bad ?N s = Some s0" "view s0 = (view s)\<lparr>fib_nhgs :=
      fib_nhgs (view s) ++ map_of (rev (map (\<lambda>(n, as). ((n, ''default''), hop_bytes as)) ?N))\<rparr>"
    using update_nhgs_view [OF assms(1), of ?N s] bad(1) by (simp only: ndk_request.distinct if_False) blast
  obtain s1 where s1: "RouteSyncStart bad s0 = (Some ErrStatus, s1)" "view s1 = view s0"
    using bad(1) [of SyncStart s0] bad(2) [of s0]
    by (cases "bad SyncStart s0") (simp add: RouteSyncStart_def rpc_def)
  have first: "syncRoutes bad rib P s = Some (P, s1)"
    using p1 s0(1) s1(1) by (auto simp: syncRoutes_def sync_plan_eq [OF wf] Let_def)
  have group: "fib_nhgs (view s1) (nhgName p, ''default'') = Some (hop_bytes (map nh_Address (rt_NextHops r)))"
    using nhgs_after_updates [OF P rib p1] s0(2) s1(2) by simp
  from first group show ?thesis by blast
qed

lemma resync_keeps_groups:
  assumes call: "ndk_documented call view" "ndk_succeeds call" and rib: "rib_ok rib"
    and p0: "(p, r) \<in> set (usable_routes rib)"
  shows "\<exists>s2. syncRoutes call rib (programmed_of rib) s = Some (programmed_of rib, s2) \<and>
    fib_routes (view s2) (''default'', ndk_prefix p) = Some (nhgName p, rt_Metric r) \<and>
    fib_nhgs (view s2) = fib_nhgs (view s)"
proof -
  have wf: "gm_wf rib" using rib by (simp add: rib_ok_def)
  let ?as = "map (\<lambda>(p, r). entry_of p r) (usable_routes rib)"
  have parse: "\<forall>r \<in> set ?as. parses (re_Prefix r)"
    using usable_text [OF rib] prefix_text_parses by (auto simp: entry_of_def)
  have "distinct (map (\<lambda>(p, r). ndk_prefix p) (usable_routes rib))"
    using rib ndk_prefix_inj by (intro usable_keys_inj) auto
  then have dist: "distinct (map (ndk_prefix \<circ> re_Prefix) ?as)" by (simp add: comp_def case_prod_unfold entry_of_def)
  obtain s3 where s3: "(let (err, s1) = RouteSyncStart call s; (_, s2) = AddOrUpdateRoutes call ''default'' ?as s1;
      (_, s3) = RouteSyncEnd call s2 in (err, s3)) = (None, s3)"
      "view s3 = (view s)\<lparr>fib_routes := map_of (map (\<lambda>r. ((''default'', ndk_prefix (re_Prefix r)), re_NHGName r, re_Metric r)) ?as),
        fib_window := None\<rparr>"
    using sync_window [OF call parse dist, of s] by blast
  have "syncRoutes call rib (programmed_of rib) s = Some ((programmed_of rib), s3)"
    using p0 s3(1) by (auto simp: syncRoutes_def sync_plan_eq [OF wf] resync_plan [OF wf] update_nhgs_def
        DeleteNextHopGroups_def Let_def split: prod.splits)
  moreover have "fib_routes (view s3) (''default'', ndk_prefix p) = Some (nhgName p, rt_Metric r)"
  proof -
    have "((''default'', ndk_prefix p), nhgName p, rt_Metric r) \<in>
        set (map (\<lambda>r. ((''default'', ndk_prefix (re_Prefix r)), re_NHGName r, re_Metric r)) ?as)"
      using p0 by (force simp: entry_of_def)
    moreover have "distinct (map fst (map (\<lambda>r. ((''default'', ndk_prefix (re_Prefix r)), re_NHGName r, re_Metric r)) ?as))"
      using dist by (simp add: comp_def distinct_map inj_on_def)
    ultimately have "map_of (map (\<lambda>r. ((''default'', ndk_prefix (re_Prefix r)), re_NHGName r, re_Metric r)) ?as)
        (''default'', ndk_prefix p) = Some (nhgName p, rt_Metric r)" by (simp only: map_of_is_SomeI)
    moreover have "fib_routes (view s3) = map_of (map (\<lambda>r. ((''default'', ndk_prefix (re_Prefix r)), re_NHGName r, re_Metric r)) ?as)"
      using s3(2) by simp
    ultimately show ?thesis by (simp only:)
  qed
  moreover have "fib_nhgs (view s3) = fib_nhgs (view s)" using s3(2) by simp
  ultimately show ?thesis by blast
qed

text \<open>
  C36 \<^bold>\<open>An interrupted sync can leave routes on the wrong next hops.\<close> Next-hop groups are changed before
  \<open>SyncStart\<close>, but remembered only after it. If \<open>SyncStart\<close> fails once while the next hops of a prefix
  have changed, and the old RIB is synced again, everything succeeding, then the route of the prefix
  has the next hops of the RIB that was never programmed, and no group is sent to correct them.
\<close>

theorem interrupted_sync_misroutes:
  assumes "ndk_documented call view" "ndk_succeeds call" and "ndk_documented bad view"
    and "\<And>req s. fst (bad req s) = (if req = SyncStart then StatusFailure else StatusSuccess)"
    and "\<And>s. view (snd (bad SyncStart s)) = view s"
    and "in_sync (programmed_of rib0) (view s)" and "rib_ok rib0" and "rib_ok rib1"
    and "gm_get rib0 p = Some r0" "rt_NextHops r0 \<noteq> []" and "gm_get rib1 p = Some r1" "rt_NextHops r1 \<noteq> []"
  shows "\<exists>s1 s2. syncRoutes bad rib1 (programmed_of rib0) s = Some (programmed_of rib0, s1) \<and>
    syncRoutes call rib0 (programmed_of rib0) s1 = Some (programmed_of rib0, s2) \<and>
    fib_routes (view s2) (''default'', ndk_prefix p) = Some (nhgName p, rt_Metric r0) \<and>
    fib_nhgs (view s2) (nhgName p, ''default'') = Some (hop_bytes (map nh_Address (rt_NextHops r1)))"
proof -
  have p: "(p, r0) \<in> set (usable_routes rib0)" "(p, r1) \<in> set (usable_routes rib1)"
    using assms(7-12) usable_get by (auto simp: rib_ok_def)
  obtain s1 where s1: "syncRoutes bad rib1 (programmed_of rib0) s = Some (programmed_of rib0, s1)"
    "fib_nhgs (view s1) (nhgName p, ''default'') = Some (hop_bytes (map nh_Address (rt_NextHops r1)))"
    using sync_start_fails [OF assms(3-6,8) p(2)] by blast
  with resync_keeps_groups [OF assms(1,2,7) p(1), of s1] show ?thesis by auto
qed

text \<open>A service whose \<open>SyncStart\<close> fails.\<close>

definition no_start :: "fib ndk" where
  "no_start req f = (if req = SyncStart then (StatusFailure, f) else (StatusSuccess, documented req f))"

theorem interrupted_sync_misroutes_witness:
  "\<exists>f f1 f2. sync_all ref_ndk [ex_rib ''0.0.0.0/0'' 1] ([], empty_fib) = Some (programmed_of (ex_rib ''0.0.0.0/0'' 1), f) \<and>
     syncRoutes no_start (ex_rib ''0.0.0.0/0'' 2) (programmed_of (ex_rib ''0.0.0.0/0'' 1)) f =
       Some (programmed_of (ex_rib ''0.0.0.0/0'' 1), f1) \<and>
     syncRoutes ref_ndk (ex_rib ''0.0.0.0/0'' 1) (programmed_of (ex_rib ''0.0.0.0/0'' 1)) f1 =
       Some (programmed_of (ex_rib ''0.0.0.0/0'' 1), f2) \<and>
     fib_nhgs f2 (nhgName ''0.0.0.0/0'', ''default'') = Some [bytes4 (2 :: 32 word)]"
proof -
  obtain f where f: "sync_all ref_ndk [ex_rib ''0.0.0.0/0'' 1] ([], empty_fib) = Some (programmed_of (ex_rib ''0.0.0.0/0'' 1), f)"
    "in_sync (programmed_of (ex_rib ''0.0.0.0/0'' 1)) f"
    using sync_all_step [OF ref_ndk_ok, of "[]" empty_fib "[ex_rib ''0.0.0.0/0'' 1]"] in_sync_empty ex_rib_ok by auto
  have bad: "ndk_documented no_start (\<lambda>f. f)" by (simp add: ndk_documented_def no_start_def)
  have fails: "fst (no_start req f) = (if req = SyncStart then StatusFailure else StatusSuccess)" for req f
    by (simp add: no_start_def)
  have keeps: "snd (no_start SyncStart f) = f" for f by (simp add: no_start_def)
  have get: "gm_get (ex_rib ''0.0.0.0/0'' a) ''0.0.0.0/0'' = Some (snd (hd (ex_rib ''0.0.0.0/0'' a)))"
    "rt_NextHops (snd (hd (ex_rib ''0.0.0.0/0'' a))) \<noteq> []" for a
    by (simp_all add: ex_rib_def gm_get_def)
  obtain f1 f2 where "syncRoutes no_start (ex_rib ''0.0.0.0/0'' 2) (programmed_of (ex_rib ''0.0.0.0/0'' 1)) f =
       Some (programmed_of (ex_rib ''0.0.0.0/0'' 1), f1)"
     "syncRoutes ref_ndk (ex_rib ''0.0.0.0/0'' 1) (programmed_of (ex_rib ''0.0.0.0/0'' 1)) f1 =
       Some (programmed_of (ex_rib ''0.0.0.0/0'' 1), f2)"
     "fib_nhgs f2 (nhgName ''0.0.0.0/0'', ''default'') =
       Some (hop_bytes (map nh_Address (rt_NextHops (snd (hd (ex_rib ''0.0.0.0/0'' 2))))))"
    using interrupted_sync_misroutes [OF ref_ndk_ok bad fails keeps f(2) ex_rib_ok ex_rib_ok get get [of 2]] by blast
  with f(1) show ?thesis by (auto simp: ex_rib_def hop_bytes_def As4_def)
qed

text \<open>
  \<^bold>\<open>Withdrawal empties the table.\<close> When memory and table agree and the service succeeds, withdrawing
  removes every route and every next-hop group that was programmed, and forgets them.
\<close>

theorem withdraw_clears:
  assumes "ndk_documented call view" and "ndk_succeeds call" and "in_sync P (view s)"
  shows "\<exists>s'. withdrawAllRoutes call P s = ([], s') \<and> fib_routes (view s') = Map.empty \<and>
    (\<forall>p pr. gm_get P p = Some pr \<longrightarrow> fib_nhgs (view s') (pr_nhgName pr, ''default'') = None) \<and> in_sync [] (view s')"
proof (cases "P = []")
  case True
  with assms(3) show ?thesis by (auto simp: withdrawAllRoutes_def in_sync_def gm_get_def)
next
  case False
  let ?keys = "map (\<lambda>c. (''default'', ndk_prefix c)) (map fst P)"
  have prs: "\<forall>c \<in> set (map fst P). parses c"
    using assms(3) prefix_text_parses by (fastforce simp: in_sync_def)
  obtain s1 where s1: "rpc call (RouteDelete ?keys) s = (None, s1)" "view s1 = documented (RouteDelete ?keys) (view s)"
    using rpc_ok [OF assms(1,2)] by blast
  then have del: "DeleteRoutes call ''default'' (map fst P) s = (None, s1)"
    using False by (simp add: DeleteRoutes_ok [OF prs])
  obtain s2 where s2: "DeleteNextHopGroups call ''default'' (map (nhgName \<circ> fst) P) s1 = (None, s2)"
    "view s2 = (view s1)\<lparr>fib_nhgs := fib_nhgs (view s1) |` (- (\<lambda>n. (n, ''default'')) ` set (map (nhgName \<circ> fst) P))\<rparr>"
    using DeleteNextHopGroups_view [OF assms(1,2)] by blast
  have "fib_routes (view s) = map_of (map (\<lambda>(p, pr). ((''default'', ndk_prefix p), (pr_nhgName pr, pr_metric pr))) P)"
    using assms(3) by (simp add: in_sync_def)
  then have "dom (fib_routes (view s)) = set ?keys" by (force simp: dom_map_of_conv_image_fst)
  then have routes: "fib_routes (view s2) = Map.empty"
    using s1(2) s2(2) by (auto simp: fun_eq_iff restrict_map_def)
  moreover have "fib_nhgs (view s2) (pr_nhgName pr, ''default'') = None" if "gm_get P p = Some pr" for p pr
  proof -
    have "(p, pr) \<in> set P" using that by (rule gm_get_inD)
    with assms(3) have "pr_nhgName pr = nhgName p" "nhgName p \<in> set (map (nhgName \<circ> fst) P)"
      by (force simp: in_sync_def)+
    then show ?thesis using s2(2) by (simp add: restrict_map_def)
  qed
  ultimately show ?thesis
    using False del s2(1) by (auto simp: withdrawAllRoutes_def in_sync_def gm_wf_def)
qed

theorem withdraw_clears_witness:
  "\<exists>P f f'. sync_all ref_ndk [ex_rib ''0.0.0.0/0'' 1] ([], empty_fib) = Some (P, f) \<and> P \<noteq> [] \<and>
     withdrawAllRoutes ref_ndk P f = ([], f') \<and> fib_routes f' = Map.empty"
proof -
  obtain f where f: "sync_all ref_ndk [ex_rib ''0.0.0.0/0'' 1] ([], empty_fib) = Some (programmed_of (ex_rib ''0.0.0.0/0'' 1), f)"
    "in_sync (programmed_of (ex_rib ''0.0.0.0/0'' 1)) f"
    using sync_all_step [OF ref_ndk_ok, of "[]" empty_fib "[ex_rib ''0.0.0.0/0'' 1]"] in_sync_empty ex_rib_ok by auto
  have "programmed_of (ex_rib ''0.0.0.0/0'' 1) \<noteq> []" by (simp add: programmed_of_def usable_routes_def ex_rib_def)
  with f withdraw_clears [OF ref_ndk_ok f(2)] show ?thesis by blast
qed

end
