(* ===== verification/Agent_Props.thy ===== *)
theory Agent_Props
  imports Agent_Inv Agent_Fib
begin

text \<open>
  What the agent does with configurations, interface and adjacency events and the SPF timer, and where it
  loses track: interfaces added late, interfaces that go down, and a flood engine that waits for ever.
\<close>

section \<open>Reconciling the interfaces\<close>

lemma stop_removed_fold:
  assumes "gm_wf (ag_interfaces a)"
  shows "let b = fold (\<lambda>name a. if \<not> HasInterface name (cfg_of a) then stopInterfaceLocked name a else a) ks a
    in gm_wf (ag_interfaces b) \<and> ag_cfg b = ag_cfg a \<and>
       (\<forall>k. gm_get (ag_interfaces b) k =
          (if k \<in> set ks \<and> \<not> HasInterface k (cfg_of a) then None else gm_get (ag_interfaces a) k))"
  using assms
proof (induction ks arbitrary: a)
  case (Cons k ks)
  let ?b = "if \<not> HasInterface k (cfg_of a) then stopInterfaceLocked k a else a"
  have "gm_wf (ag_interfaces ?b)" "ag_cfg ?b = ag_cfg a"
    "gm_get (ag_interfaces ?b) k' = (if k' = k \<and> \<not> HasInterface k (cfg_of a) then None else gm_get (ag_interfaces a) k')" for k'
    using Cons.prems by (auto simp: stopInterfaceLocked_def go_map_laws)
  with Cons.IH [of ?b] show ?case by (auto simp: Let_def)
qed simp

lemma stop_removed_get:
  assumes "gm_wf (ag_interfaces a)"
  shows "gm_get (ag_interfaces (stop_removed a)) k = (if HasInterface k (cfg_of a) then gm_get (ag_interfaces a) k else None)"
    and "ag_cfg (stop_removed a) = ag_cfg a"
proof -
  have "k \<in> set (gm_keys (ag_interfaces a)) \<longleftrightarrow> gm_get (ag_interfaces a) k \<noteq> None" by (rule gm.keys_get)
  then show "gm_get (ag_interfaces (stop_removed a)) k = (if HasInterface k (cfg_of a) then gm_get (ag_interfaces a) k else None)"
    "ag_cfg (stop_removed a) = ag_cfg a"
    using stop_removed_fold [OF assms, of "gm_keys (ag_interfaces a)"] by (auto simp: stop_removed_def Let_def)
qed

lemma new_interface_cong: "\<lbrakk>ag_cfg b = ag_cfg a; ag_now b = ag_now a\<rbrakk> \<Longrightarrow> new_interface lx b k = new_interface lx a k"
  by (simp only: new_interface_def)

lemma start_added_fold:
  "let b = fold (\<lambda>ifName a. if gm_get (ag_interfaces a) ifName = None then startInterfaceLocked lx ifName a else a) ks a
   in gm_get (ag_interfaces b) k =
     (case gm_get (ag_interfaces a) k of
        Some iface \<Rightarrow> Some iface
      | None \<Rightarrow> if k \<in> set ks then new_interface lx a k else None)"
proof (induction ks arbitrary: a)
  case (Cons n ks)
  let ?b = "if gm_get (ag_interfaces a) n = None then startInterfaceLocked lx n a else a"
  have "new_interface lx ?b k = new_interface lx a k" by (rule new_interface_cong) simp_all
  moreover have "gm_get (ag_interfaces ?b) k =
      (if k = n \<and> gm_get (ag_interfaces a) n = None then new_interface lx a n else gm_get (ag_interfaces a) k)"
    by (auto simp: startInterfaceLocked_def go_map_laws split: option.split)
  ultimately show ?case using Cons.IH [of ?b] by (auto simp: Let_def split: option.splits)
qed (simp split: option.split)

lemma stop_start_frame:
  "ag_floodEngine (stop_removed a) = ag_floodEngine a \<and> ag_spfEngine (stop_removed a) = ag_spfEngine a \<and>
   ag_AdjChangeCh (stop_removed a) = ag_AdjChangeCh a \<and> ag_now (stop_removed a) = ag_now a \<and>
   ag_pendingCfg (stop_removed a) = ag_pendingCfg a"
  "ag_floodEngine (start_added lx a) = ag_floodEngine a \<and> ag_spfEngine (start_added lx a) = ag_spfEngine a \<and>
   ag_AdjChangeCh (start_added lx a) = ag_AdjChangeCh a \<and> ag_cfg (start_added lx a) = ag_cfg a \<and>
   ag_pendingCfg (start_added lx a) = ag_pendingCfg a"
  unfolding stop_removed_def start_added_def by (rule fold_keeps; simp)+

text \<open>
  C19 \<^bold>\<open>A committed configuration is carried out.\<close> The end of a commit that replaces the configuration by a valid
  one leaves exactly the configured interfaces running, as far as the kernel lets them start: those that
  are configured and already run keep their transport and LIE machine - with the system id and level they were
  started with - the others are started afresh, and interfaces that are not configured are gone.
  Nothing is said to the flood engine: both engines keep their state, the identity of the old
  configuration and the adjacencies of the stopped interfaces included.
\<close>

theorem config_commit_reconciles:
  assumes "agent_wf a" and "ce_JSPath ev = ''.commit.end''" and "ag_pendingCfg a = Some (p, c)" and "Valid c"
  shows "\<exists>a'. handleConfigChange lx unmarshal ev a = Some a' \<and> ag_cfg a' = Some (p, c) \<and> ag_pendingCfg a' = None \<and>
    (\<forall>k. gm_get (ag_interfaces a') k =
       (if \<not> HasInterface k c then None
        else case gm_get (ag_interfaces a) k of
            Some iface \<Rightarrow> Some iface
          | None \<Rightarrow> new_interface lx (a\<lparr>ag_cfg := Some (p, c)\<rparr>) k)) \<and>
    ag_floodEngine a' = ag_floodEngine a \<and> ag_spfEngine a' = ag_spfEngine a \<and> ag_AdjChangeCh a' = ag_AdjChangeCh a"
proof -
  define b where "b = a\<lparr>ag_cfg := Some (p, c), ag_pendingCfg := None\<rparr>"
  have wf: "gm_wf (ag_interfaces b)" using assms(1) by (simp add: agent_wf_def interfaces_ok_def b_def)
  have new: "map_option fst (ag_cfg b) \<noteq> map_option fst (ag_cfg a)"
    using assms(1,3) by (cases "ag_cfg a") (auto simp: agent_wf_def config_ok_def b_def)
  have "processConfigEvent unmarshal ev a = Some b"
    using assms(2,3) by (simp add: processConfigEvent_def b_def)
  then have run: "handleConfigChange lx unmarshal ev a = Some (start_added lx (stop_removed b))"
    using new assms(2,4) by (simp add: handleConfigChange_alt) (simp add: b_def)
  have "new_interface lx (stop_removed b) k = new_interface lx (a\<lparr>ag_cfg := Some (p, c)\<rparr>) k" for k
    by (rule new_interface_cong) (simp_all add: stop_removed_get(2) [OF wf] stop_start_frame, simp_all add: b_def)
  then have "gm_get (ag_interfaces (start_added lx (stop_removed b))) k =
       (if \<not> HasInterface k c then None
        else case gm_get (ag_interfaces a) k of
            Some iface \<Rightarrow> Some iface
          | None \<Rightarrow> new_interface lx (a\<lparr>ag_cfg := Some (p, c)\<rparr>) k)" for k
    using start_added_fold [of lx "cfg_Interfaces c" "stop_removed b" k]
    by (simp add: start_added_def stop_removed_get [OF wf] Let_def) (auto simp: HasInterface_def b_def split: option.split)
  moreover have "ag_cfg b = Some (p, c)" "ag_pendingCfg b = None" "ag_floodEngine b = ag_floodEngine a"
    "ag_spfEngine b = ag_spfEngine a" "ag_AdjChangeCh b = ag_AdjChangeCh a" by (simp_all add: b_def)
  ultimately show ?thesis using run by (simp add: stop_start_frame stop_removed_get(2) [OF wf])
qed

text \<open>The example agent stays well-formed while a commit moves its interface.\<close>

lemma ex_agent_wf: "agent_wf ex_agent"
  by (rule started_wf [OF ex_waited ex_started])

definition ex_commit :: Agent where
  "ex_commit = ex_agent\<lparr>ag_pendingCfg := Some (1, ex_config\<lparr>cfg_Interfaces := [''ethernet-1/2'']\<rparr>), ag_allocs := 2\<rparr>"

lemma ex_commit_wf: "agent_wf ex_commit"
  using ex_agent_wf
  by (simp add: ex_commit_def agent_wf_def interfaces_ok_def config_ok_def queues_ok_def ex_agent_def agent_New_def ex_config_def)

theorem config_commit_reconciles_witness:
  "\<exists>a'. handleConfigChange ex_linux ex_unmarshal (ex_start ! 2) ex_commit = Some a' \<and>
     gm_get (ag_interfaces a') ''ethernet-1/1'' = None"
proof -
  have "ce_JSPath (ex_start ! 2) = ''.commit.end''"
    "ag_pendingCfg ex_commit = Some (1, ex_config\<lparr>cfg_Interfaces := [''ethernet-1/2'']\<rparr>)"
    "Valid (ex_config\<lparr>cfg_Interfaces := [''ethernet-1/2'']\<rparr>)" "\<not> HasInterface ''ethernet-1/1'' (ex_config\<lparr>cfg_Interfaces := [''ethernet-1/2'']\<rparr>)"
    by (simp_all add: ex_start_def ex_commit_def Valid_def ex_config_def HasInterface_def)
  then show ?thesis using config_commit_reconciles [OF ex_commit_wf, of "ex_start ! 2"] by fastforce
qed

text \<open>
  C38 \<^bold>\<open>An interface added to the running configuration is never started by it.\<close> Without a pending configuration,
  the notification of a new interface enters it into the current configuration, and the end of the commit
  then does nothing, since the configuration is still the same object: the interface is configured, and
  no interface has been started.
\<close>

theorem late_interface_not_started:
  assumes "ag_pendingCfg a = None" and "ag_cfg a = Some (p, c)" and "ce_JSPath ev = ''.rift.interface''"
    and "ExtractInterfaceName (ce_PathWithKeys ev) = Some (k, True)" and "ce_JSPath ev' = ''.commit.end''"
  shows "\<exists>a'. Option.bind (handleConfigChange lx unmarshal ev a) (handleConfigChange lx unmarshal ev') = Some a' \<and>
    HasInterface k (cfg_of a') \<and> ag_interfaces a' = ag_interfaces a"
proof -
  let ?a = "a\<lparr>ag_cfg := Some (p, c\<lparr>cfg_Interfaces := gs_add k (cfg_Interfaces c)\<rparr>)\<rparr>"
  have "handleConfigChange lx unmarshal ev a = Some ?a"
    using assms(1-4) by (simp add: handleConfigChange_alt processConfigEvent_def)
  moreover have "handleConfigChange lx unmarshal ev' ?a = Some ?a"
    using assms(1,5) by (simp add: handleConfigChange_alt processConfigEvent_def)
  ultimately show ?thesis by (simp add: HasInterface_def)
qed

theorem late_interface_not_started_witness:
  "\<exists>a'. Option.bind (handleConfigChange ex_linux ex_unmarshal
       \<lparr>ce_JSPath = ''.rift.interface'', ce_PathWithKeys = iface_prefix @ ''ethernet-1/2'' @ iface_suffix,
        ce_Keys = [], ce_Data = ''''\<rparr> ex_agent) (handleConfigChange ex_linux ex_unmarshal (ex_start ! 2)) = Some a' \<and>
     HasInterface ''ethernet-1/2'' (cfg_of a') \<and> gm_get (ag_interfaces a') ''ethernet-1/2'' = None"
proof -
  have e: "ExtractInterfaceName (iface_prefix @ ''ethernet-1/2'' @ iface_suffix) = Some (''ethernet-1/2'', True)"
    by code_simp
  show ?thesis
    using late_interface_not_started [of ex_agent 0 ex_config
        "\<lparr>ce_JSPath = ''.rift.interface'', ce_PathWithKeys = iface_prefix @ ''ethernet-1/2'' @ iface_suffix,
        ce_Keys = [], ce_Data = ''''\<rparr>" "''ethernet-1/2''" "ex_start ! 2" ex_linux ex_unmarshal] e
    by (auto simp: ex_agent_def agent_New_def ex_start_def gm_get_def)
qed

section \<open>Interfaces that go down\<close>

text \<open>The flood engine has an adjacency on the interface, and no change of it is waiting.\<close>

definition stranded :: "string \<Rightarrow> AdjacencyInfo \<Rightarrow> Agent \<Rightarrow> bool" where
  "stranded k info a \<longleftrightarrow> (\<exists>fe. ag_floodEngine a = Some fe \<and> gm_get (Adjacencies fe) k = Some info) \<and>
     (\<forall>ch \<in> set (ag_AdjChangeCh a). ac_InterfaceName ch \<noteq> k)"

lemma stranded_cong:
  "\<lbrakk>ag_floodEngine b = ag_floodEngine a; ag_AdjChangeCh b = ag_AdjChangeCh a\<rbrakk> \<Longrightarrow> stranded k info b = stranded k info a"
  by (simp add: stranded_def)

lemma stranded_engine:
  "\<lbrakk>ag_floodEngine a = Some fe; ag_floodEngine b = Some fe'; Adjacencies fe' = Adjacencies fe;
    ag_AdjChangeCh b = ag_AdjChangeCh a\<rbrakk> \<Longrightarrow> stranded k info b = stranded k info a"
  by (simp add: stranded_def)

lemma handleConfigChange_engine:
  assumes "handleConfigChange lx unmarshal ev a = Some a'"
  shows "ag_floodEngine a' = ag_floodEngine a" and "ag_AdjChangeCh a' = ag_AdjChangeCh a"
proof -
  obtain a1 where a1: "processConfigEvent unmarshal ev a = Some a1"
    and a': "a' = a1 \<or> a' = start_added lx (stop_removed a1)"
    using assms by (auto simp: handleConfigChange_alt split: option.splits if_splits)
  have "ag_floodEngine a1 = ag_floodEngine a" "ag_AdjChangeCh a1 = ag_AdjChangeCh a"
    by (subst processConfigEvent_frame [OF a1], simp)+
  with a' show "ag_floodEngine a' = ag_floodEngine a" "ag_AdjChangeCh a' = ag_AdjChangeCh a"
    by (auto simp: stop_start_frame)
qed

lemma state_telemetry_frame: "state_telemetry a = Some a' \<Longrightarrow> \<exists>ts. a' = a\<lparr>ag_telemetry := ts\<rparr>"
  by (cases a) (auto simp: state_telemetry_def push_telemetry_def split: option.splits if_splits)

lemma spf_round_engine:
  assumes "spf_round call a s = Some (a', s')"
  shows "ag_floodEngine a' = ag_floodEngine a" and "ag_AdjChangeCh a' = ag_AdjChangeCh a"
proof -
  obtain fe e P where "state_telemetry ((after_spf fe (Engine_Run fe e) a)\<lparr>ag_programmedRIB := P\<rparr>) = Some a'"
    using assms by (auto simp: spf_round_alt split: option.splits if_splits)
  then obtain ts where "a' = (after_spf fe (Engine_Run fe e) a)\<lparr>ag_programmedRIB := P, ag_telemetry := ts\<rparr>"
    using state_telemetry_frame by fastforce
  moreover obtain ps ch where "after_spf fe (Engine_Run fe e) a = a\<lparr>ag_spfEngine := Some (Engine_Run fe e),
      ag_spfRuns := ag_spfRuns a + 1, ag_lastDisaggPrefixes := ps, ag_DisaggUpdateCh := ch\<rparr>"
    using after_spf_frame by blast
  ultimately show "ag_floodEngine a' = ag_floodEngine a" "ag_AdjChangeCh a' = ag_AdjChangeCh a" by simp_all
qed

text \<open>An adjacency event of an interface that does not run tells the flood engine nothing.\<close>

lemma handleAdjacencyEvent_stranded:
  assumes "stranded k info a" and "gm_get (ag_interfaces a) k = None" and "handleAdjacencyEvent lx ev a = Some a'"
  shows "stranded k info a'"
proof (cases "ae_InterfaceName ev = k")
  case True
  with assms show ?thesis
    by (auto simp: handleAdjacencyEvent_def Let_def push_telemetry_def stranded_def split: if_splits)
next
  case False
  with assms show ?thesis
    by (auto simp: handleAdjacencyEvent_def Let_def push_telemetry_def sendAdjChange_def upd_iface_def stranded_def
        split: if_splits option.splits bool.splits)
qed

lemma eventLoop_stranded:
  assumes "stranded k info a" and "gm_get (ag_interfaces a) k = None" and "eventLoop lx unmarshal call ev (a, s) = Some (a', s')"
  shows "stranded k info a'"
proof (cases ev)
  case (InterfaceEv ie)
  have "ag_floodEngine (handleInterfaceEvent lx ie a) = ag_floodEngine a" "ag_AdjChangeCh (handleInterfaceEvent lx ie a) = ag_AdjChangeCh a"
    by (simp_all add: handleInterfaceEvent_def Let_def)
  with InterfaceEv assms stranded_cong [of "handleInterfaceEvent lx ie a" a k info] show ?thesis by simp
next
  case (ConfigEv ce)
  then have "handleConfigChange lx unmarshal ce a = Some a'" using assms(3) by auto
  from handleConfigChange_engine [OF this] show ?thesis using assms(1) stranded_cong [of a' a k info] by simp
next
  case AdjacencyEv
  then show ?thesis
    using assms handleAdjacencyEvent_stranded [of k info "a\<lparr>ag_adjEventCh := tl (ag_adjEventCh a)\<rparr>"]
    by (auto simp: stranded_def split: list.splits)
next
  case LSDBChangeEv
  obtain fe where fe: "ag_floodEngine a = Some fe" using assms(1) by (auto simp: stranded_def)
  with LSDBChangeEv assms show ?thesis
    using stranded_engine [OF fe, of a' "fe\<lparr>fe_LSDBChangeCh := False\<rparr>" k info]
    by (auto simp: adjacencies_frame split: if_splits)
next
  case SpfTimerEv
  with assms show ?thesis
    using spf_round_engine [of call "a\<lparr>ag_spfTimer := None\<rparr>" s a' s'] stranded_cong [of a' a k info]
    by (auto split: option.splits if_splits)
next
  case LSDBTickEv
  with assms show ?thesis by (auto simp: stranded_def dest!: state_telemetry_frame)
qed

lemma engine_step_stranded:
  assumes "stranded k info a" and "agent_wf a" and "\<And>ch. ev = AdjChangeEv ch \<Longrightarrow> ac_InterfaceName ch \<noteq> k"
  shows "stranded k info (engine_step ev a)"
proof -
  obtain fe where fe: "ag_floodEngine a = Some fe" "gm_get (Adjacencies fe) k = Some info" "gm_wf (fe_adjacencies fe)"
    using assms(1,2) fe_okD(2) by (auto simp: stranded_def agent_wf_def engines_ok_def)
  have "gm_get (Adjacencies fe') k = Some info" if "serve ev fe = Some fe'" for fe'
  proof (cases "\<exists>ch. ev = AdjChangeEv ch")
    case True
    then obtain ch where ev: "ev = AdjChangeEv ch" by blast
    with serve_adj_change(1) [OF that [unfolded ev] fe(3), of k] assms(3) fe(2) show ?thesis by simp
  next
    case False
    with serve_keeps [OF that] fe(2) show ?thesis by simp
  qed
  then show ?thesis
    using assms(1) fe(1,2) by (auto simp: engine_step_def stranded_def split: option.split)
qed

lemma process_step_stranded:
  assumes "process_step unmarshal call x y" and "stranded k info (fst x)" and "agent_wf (fst x)"
    and "gm_get (ag_interfaces (fst x)) k = None"
  shows "stranded k info (fst y)"
  using assms
proof (cases rule: process_step.cases)
  case (loop lx ev a s a' s')
  with assms show ?thesis by (auto intro: eventLoop_stranded)
next
  case (lie_tick a s ifName)
  with assms(2) show ?thesis
    by (auto simp: lie_step_def upd_iface_def stranded_def Let_def split: option.split simp del: react.simps)
next
  case (lie_packet a ifName iface ip data rp s)
  with assms(2) show ?thesis
    by (auto simp: lie_step_def upd_iface_def stranded_def Let_def split: option.split simp del: react.simps)
next
  case (adj_change a ch chs s)
  have "agent_wf (a\<lparr>ag_AdjChangeCh := chs\<rparr>)"
    using adj_change assms(3) by (intro agent_wf_queues(2) queues_ok_tl(2)) (simp_all add: agent_wf_def)
  moreover have "stranded k info (a\<lparr>ag_AdjChangeCh := chs\<rparr>)" "ac_InterfaceName ch \<noteq> k"
    using adj_change assms(2) by (auto simp: stranded_def)
  ultimately show ?thesis using adj_change by (auto intro!: engine_step_stranded)
next
  case (disagg a pes s)
  then have "stranded k info (a\<lparr>ag_DisaggUpdateCh := None\<rparr>)" using assms(2) by (simp add: stranded_def)
  with disagg assms(3) show ?thesis by (auto intro!: engine_step_stranded simp: agent_wf_queues)
next
  case (received a rp rps s)
  then have "stranded k info (a\<lparr>ag_floodRecvCh := rps\<rparr>)" using assms(2) by (simp add: stranded_def)
  with received assms(3) show ?thesis by (auto intro!: engine_step_stranded simp: agent_wf_queues)
next
  case (ticked ev a s)
  with assms show ?thesis by (auto intro!: engine_step_stranded)
next
  case (sent a s)
  with assms(2) show ?thesis
    by (auto simp: stranded_def floodSendLoop_frame adjacencies_frame split: list.splits)
next
  case (time a t s)
  with assms(2) show ?thesis by (auto simp: stranded_def adjacencies_frame)
qed (auto simp: stranded_def)

text \<open>
  C37 \<^bold>\<open>A link that goes down keeps its adjacency.\<close> When the NDK reports a running interface down, it is stopped
  and the flood engine is not told: whatever happens from then on - LIE hold times, received packets,
  lifetimes, runs of the SPF timer - as long as the interface is not running again, the engine has the
  adjacency it had on the interface, which is what TIEs and routes are computed from.
\<close>

theorem oper_down_strands_adjacency:
  assumes "agent_wf a" and "ag_floodEngine a = Some fe" and "gm_get (Adjacencies fe) k = Some info"
    and "\<forall>ch \<in> set (ag_AdjChangeCh a). ac_InterfaceName ch \<noteq> k"
    and "ag_cfg a \<noteq> None" and "HasInterface k (cfg_of a)" and "gm_get (ag_interfaces a) k \<noteq> None"
    and "ie_Name ev = k" and "\<not> ie_OperUp ev" and "ie_AdminUp ev \<or> ie_MTU ev \<noteq> 0"
    and "(\<lambda>x y. process_step unmarshal call x y \<and> gm_get (ag_interfaces (fst y)) k = None)\<^sup>*\<^sup>*
           (handleInterfaceEvent lx ev a, s) (a', s')"
  shows "gm_get (ag_interfaces a') k = None \<and>
    (\<exists>fe'. ag_floodEngine a' = Some fe' \<and> gm_get (Adjacencies fe') k = Some info)"
proof -
  let ?b = "handleInterfaceEvent lx ev a"
  have b: "?b = stopInterfaceLocked k a"
    using assms(5-10) by (auto simp: handleInterfaceEvent_def Let_def)
  have "gm_wf (ag_interfaces a)" using assms(1) by (simp add: agent_wf_def interfaces_ok_def)
  then have start: "gm_get (ag_interfaces ?b) k = None" "stranded k info ?b"
    using assms(2-4) by (auto simp: b stopInterfaceLocked_def go_map_laws stranded_def)
  have wf: "agent_wf ?b" using assms(1) by (rule handleInterfaceEvent_wf)
  have "gm_get (ag_interfaces (fst x)) k = None \<and> stranded k info (fst x) \<and> agent_wf (fst x)"
    if "(\<lambda>x y. process_step unmarshal call x y \<and> gm_get (ag_interfaces (fst y)) k = None)\<^sup>*\<^sup>* (?b, s) x" for x
    using that
  proof (induction rule: rtranclp_induct)
    case (step x y)
    then show ?case using process_step_stranded process_step_wf by blast
  qed (use start wf in simp)
  from this [OF assms(11)] show ?thesis by (auto simp: stranded_def)
qed

text \<open>A link down of the example agent, once its engine has an adjacency on the link.\<close>

definition ex_info :: AdjacencyInfo where
  "ex_info = \<lparr>ai_InterfaceName = ''ethernet-1/1'', ai_NeighborID = 9, ai_NeighborLevel = 0, ai_NeighborAddr = Addr4 0x0A000000,
     ai_FloodPort = 915, ai_LocalLinkID = 3, ai_NeighborLinkID = 4\<rparr>"

definition ex_up :: Agent where
  "ex_up = ex_agent\<lparr>ag_floodEngine := Some ((NewFloodEngine 7 1 ''rift-7'' [] 0)
     \<lparr>fe_adjacencies := [(''ethernet-1/1'', newAdjFloodState ex_info)]\<rparr>)\<rparr>"

lemma ex_up_wf: "agent_wf ex_up"
proof -
  have "fe_ok ((NewFloodEngine 7 1 ''rift-7'' [] 0)\<lparr>fe_adjacencies := [(''ethernet-1/1'', newAdjFloodState ex_info)]\<rparr>)"
    by (simp add: fe_ok_def NewFloodEngine_def NewLSDB_def db_ok_def gm_wf_def newAdjFloodState_def adj_ok_def)
  then have "engines_ok ((NewFloodEngine 7 1 ''rift-7'' [] 0)
      \<lparr>fe_adjacencies := [(''ethernet-1/1'', newAdjFloodState ex_info)]\<rparr>) (NewEngine 7 1)"
    by (auto simp: engines_ok_def NewEngine_def NewFloodEngine_def Adjacencies_def gm_map_def gm_get_def newAdjFloodState_def
        ex_info_def split: if_splits)
  with ex_agent_wf show ?thesis
    by (auto simp: agent_wf_def ex_up_def interfaces_ok_def config_ok_def queues_ok_def ex_agent_def)
qed

theorem oper_down_strands_adjacency_witness:
  "\<exists>fe'. ag_floodEngine (handleInterfaceEvent ex_linux
       \<lparr>ie_Name = ''ethernet-1/1'', ie_AdminUp = True, ie_OperUp = False, ie_MTU = 9232\<rparr> ex_up) = Some fe' \<and>
     gm_get (Adjacencies fe') ''ethernet-1/1'' = Some ex_info"
proof -
  have "ag_floodEngine ex_up = Some ((NewFloodEngine 7 1 ''rift-7'' [] 0)
      \<lparr>fe_adjacencies := [(''ethernet-1/1'', newAdjFloodState ex_info)]\<rparr>)" by (simp add: ex_up_def)
  from oper_down_strands_adjacency [OF ex_up_wf this, where k = "''ethernet-1/1''" and info = ex_info and lx = ex_linux and s = "()"
      and ev = "\<lparr>ie_Name = ''ethernet-1/1'', ie_AdminUp = True, ie_OperUp = False, ie_MTU = 9232\<rparr>"
      and unmarshal = ex_unmarshal and call = "\<lambda>req s. (StatusSuccess, s)", OF _ _ _ _ _ _ _ _ rtranclp.rtrancl_refl]
  show ?thesis
    by (simp add: Adjacencies_def gm_map_def gm_get_def newAdjFloodState_def ex_up_def ex_agent_def agent_New_def
        HasInterface_def ex_config_def)
qed

section \<open>From an adjacency event to the flood engine\<close>

lemma lsdb_change_set: "serve (AdjChangeEv ch) fe = Some fe' \<Longrightarrow> fe_LSDBChangeCh fe'"
  by (auto simp: handleAdjChange_def notifyLSDBChange_def split: Option.bind_splits)

lemma serve_adj_ok:
  assumes "fe_ok fe"
  obtains fe' where "serve (AdjChangeEv ch) fe = Some fe'"
  using serve_safe [OF assms, of "AdjChangeEv ch"] by auto

text \<open>The change an adjacency event of a running interface sends.\<close>

definition change_of :: "AdjacencyEvent \<Rightarrow> InterfaceTransport \<Rightarrow> AdjacencyChange" where
  "change_of ev t =
     \<lparr>ac_InterfaceName = ae_InterfaceName ev,
      ac_Info = (if ae_State ev = ThreeWay then map_option (\<lambda>n. adjacency_info (ae_InterfaceName ev) n t) (ae_Neighbor ev)
        else None)\<rparr>"

lemma adjacency_turn:
  assumes "ag_floodEngine a = Some fe" and "ag_adjEventCh a = ev # evs" and "ag_AdjChangeCh a = []"
    and "gm_get (ag_interfaces a) (ae_InterfaceName ev) = Some iface"
    and "ae_State ev = ThreeWay \<Longrightarrow> ae_Neighbor ev \<noteq> None \<and> OpenFloodSocket lx (is_transport iface) \<noteq> None"
  shows "\<exists>is ts iface'. eventLoop lx unmarshal call AdjacencyEv (a, s) =
      Some (a\<lparr>ag_adjEventCh := evs, ag_interfaces := is, ag_telemetry := ts, ag_AdjChangeCh := [change_of ev (is_transport iface)]\<rparr>, s) \<and>
    gm_get is (ae_InterfaceName ev) = Some iface' \<and> is_lieIface iface' = is_lieIface iface \<and>
    is_floodActive iface' = (ae_State ev = ThreeWay) \<and> tr_floodConn (is_transport iface') = (ae_State ev = ThreeWay)"
proof (cases "ae_State ev = ThreeWay")
  case True
  then obtain n tr where n: "ae_Neighbor ev = Some n" and tr: "OpenFloodSocket lx (is_transport iface) = Some tr"
    using assms(5) by auto
  have "tr = (is_transport iface)\<lparr>tr_floodConn := True\<rparr>" using tr by (rule OpenFloodSocket_Some)
  then show ?thesis
    using assms(1-4) True n tr
    by (cases a) (auto simp: handleAdjacencyEvent_def push_telemetry_def sendAdjChange_def upd_iface_def change_of_def
        adjacency_info_def Let_def go_map_laws)
next
  case False
  then show ?thesis
    using assms(1-4)
    by (cases a) (auto simp: handleAdjacencyEvent_def push_telemetry_def sendAdjChange_def upd_iface_def change_of_def
        CloseFloodSocket_eq Let_def go_map_laws)
qed

text \<open>
  C18 \<^bold>\<open>An adjacency event reaches the flood engine.\<close> The turn of the event loop that serves the notification of a
  running interface, and the turn of the flood engine that takes the change it sends, leave the engine with
  exactly the adjacency of the notification on that interface - the neighbor, its level, address and flood
  port and both link identifiers if the machine has reached \<open>ThreeWay\<close>, none otherwise - with every other
  adjacency as before and the SPF notification set; and the flood socket of the interface is open and its
  receive loop running exactly if the state is \<open>ThreeWay\<close>.
\<close>

theorem adjacency_event_reaches_engine:
  assumes "agent_wf a" and "\<not> ag_engineBlocked a" and "ag_floodEngine a = Some fe"
    and "ag_adjEventCh a = ev # evs" and "ag_AdjChangeCh a = []"
    and "gm_get (ag_interfaces a) (ae_InterfaceName ev) = Some iface"
    and "OpenFloodSocket lx (is_transport iface) \<noteq> None"
  shows "\<exists>a1 ch fe'. eventLoop lx unmarshal call AdjacencyEv (a, s) = Some (a1, s) \<and> ag_AdjChangeCh a1 = [ch] \<and>
    (let a2 = engine_step (AdjChangeEv ch) (a1\<lparr>ag_AdjChangeCh := []\<rparr>) in
     \<not> ag_engineBlocked a2 \<and> ag_floodEngine a2 = Some fe' \<and> fe_LSDBChangeCh fe' \<and>
     (\<forall>k. gm_get (Adjacencies fe') k =
        (if k \<noteq> ae_InterfaceName ev then gm_get (Adjacencies fe) k
         else if ae_State ev = ThreeWay then map_option (\<lambda>n. adjacency_info k n (is_transport iface)) (ae_Neighbor ev)
         else None)) \<and>
     (\<exists>iface'. gm_get (ag_interfaces a2) (ae_InterfaceName ev) = Some iface' \<and>
        is_floodActive iface' = (ae_State ev = ThreeWay) \<and> tr_floodConn (is_transport iface') = (ae_State ev = ThreeWay)))"
proof -
  let ?ch = "change_of ev (is_transport iface)"
  have ok: "fe_ok fe" using assms(1,3) by (auto simp: agent_wf_def engines_ok_def)
  have "queues_ok a" using assms(1) by (simp add: agent_wf_def)
  then have "ae_State ev = ThreeWay \<Longrightarrow> ae_Neighbor ev \<noteq> None" using assms(4) by (auto simp: queues_ok_def)
  then obtain "is" ts iface' where turn: "eventLoop lx unmarshal call AdjacencyEv (a, s) =
      Some (a\<lparr>ag_adjEventCh := evs, ag_interfaces := is, ag_telemetry := ts, ag_AdjChangeCh := [?ch]\<rparr>, s)"
    and i: "gm_get is (ae_InterfaceName ev) = Some iface'" "is_floodActive iface' = (ae_State ev = ThreeWay)"
      "tr_floodConn (is_transport iface') = (ae_State ev = ThreeWay)"
    using adjacency_turn [OF assms(3-6), of lx unmarshal call s] assms(7) by auto
  obtain fe' where fe': "serve (AdjChangeEv ?ch) fe = Some fe'" using serve_adj_ok [OF ok] .
  show ?thesis
    using turn i fe' assms(2,3) serve_adj_change [OF fe' fe_okD(2) [OF ok]]
    by (intro exI [of _ "a\<lparr>ag_adjEventCh := evs, ag_interfaces := is, ag_telemetry := ts, ag_AdjChangeCh := [?ch]\<rparr>"] exI [of _ ?ch]
        exI [of _ fe']) (simp add: engine_step_def Let_def change_of_def del: serve.simps)
qed

definition ex_event :: "State \<Rightarrow> AdjacencyEvent" where
  "ex_event st = \<lparr>ae_InterfaceName = ''ethernet-1/1'', ae_State = st,
     ae_Neighbor = (if st = OneWay then None else
       Some \<lparr>ns_SystemID = 9, ns_Level = 0, ns_LinkID = 4, ns_Address = Addr4 0x0A000000, ns_Name = ''leaf'',
         ns_FloodPort = 915, ns_Holdtime = 3\<rparr>)\<rparr>"

lemma ex_event_wf: "agent_wf a \<Longrightarrow> agent_wf (a\<lparr>ag_adjEventCh := [ex_event st]\<rparr>)"
  by (rule agent_wf_queues(1)) (auto simp: agent_wf_def queues_ok_def ex_event_def)

theorem adjacency_event_reaches_engine_witness:
  "\<exists>a1 ch fe'. eventLoop ex_linux ex_unmarshal (\<lambda>req s. (StatusSuccess, s)) AdjacencyEv
       (ex_agent\<lparr>ag_adjEventCh := [ex_event ThreeWay]\<rparr>, ()) = Some (a1, ()) \<and>
     ag_floodEngine (engine_step (AdjChangeEv ch) (a1\<lparr>ag_AdjChangeCh := []\<rparr>)) = Some fe' \<and>
     gm_get (Adjacencies fe') ''ethernet-1/1'' = Some ex_info"
proof -
  let ?a = "ex_agent\<lparr>ag_adjEventCh := [ex_event ThreeWay]\<rparr>"
  have a: "\<not> ag_engineBlocked ?a" "ag_floodEngine ?a = Some (NewFloodEngine 7 1 ''rift-7'' [] 0)"
    "ag_adjEventCh ?a = ex_event ThreeWay # []" "ag_AdjChangeCh ?a = []"
    "gm_get (ag_interfaces ?a) (ae_InterfaceName (ex_event ThreeWay)) = Some (snd (hd (ag_interfaces ex_agent)))"
    "OpenFloodSocket ex_linux (is_transport (snd (hd (ag_interfaces ex_agent)))) \<noteq> None"
    "adjacency_info ''ethernet-1/1'' (the (ae_Neighbor (ex_event ThreeWay))) (is_transport (snd (hd (ag_interfaces ex_agent)))) = ex_info"
    by (simp_all add: ex_agent_def agent_New_def ex_event_def gm_get_def OpenFloodSocket_def ex_linux_def adjacency_info_def
        ex_transport_def ex_info_def)
  obtain a1 ch fe' where run: "eventLoop ex_linux ex_unmarshal (\<lambda>req s. (StatusSuccess, s)) AdjacencyEv (?a, ()) = Some (a1, ())"
    and reached: "let a2 = engine_step (AdjChangeEv ch) (a1\<lparr>ag_AdjChangeCh := []\<rparr>) in
       \<not> ag_engineBlocked a2 \<and> ag_floodEngine a2 = Some fe' \<and> fe_LSDBChangeCh fe' \<and>
       (\<forall>k. gm_get (Adjacencies fe') k =
          (if k \<noteq> ae_InterfaceName (ex_event ThreeWay) then gm_get (Adjacencies (NewFloodEngine 7 1 ''rift-7'' [] 0)) k
           else if ae_State (ex_event ThreeWay) = ThreeWay
           then map_option (\<lambda>n. adjacency_info k n (is_transport (snd (hd (ag_interfaces ex_agent))))) (ae_Neighbor (ex_event ThreeWay))
           else None))"
    using adjacency_event_reaches_engine [OF ex_event_wf [OF ex_agent_wf] a(1-6), of ex_unmarshal "\<lambda>req s. (StatusSuccess, s)" "()"]
    unfolding Let_def by blast
  from reached have "ag_floodEngine (engine_step (AdjChangeEv ch) (a1\<lparr>ag_AdjChangeCh := []\<rparr>)) = Some fe'"
    and "gm_get (Adjacencies fe') ''ethernet-1/1'' = Some ex_info"
    using a(7) by (simp_all add: Let_def ex_event_def)
  with run show ?thesis by blast
qed

section \<open>From an adjacency to the forwarding table\<close>

lemma Engine_Run_cong:
  "\<lbrakk>fe_lsdb fe' = fe_lsdb fe; Adjacencies fe' = Adjacencies fe\<rbrakk> \<Longrightarrow> Engine_Run fe' e = Engine_Run fe e"
  by (simp add: Engine_Run_def)

lemma state_telemetry_returns:
  assumes "ag_floodEngine a = Some fe" and "ag_spfEngine a = Some e" and "\<not> ag_engineBlocked a"
  shows "\<exists>ts. state_telemetry a = Some (a\<lparr>ag_telemetry := ts\<rparr>)"
  using assms by (auto simp: state_telemetry_def updateStateTelemetry_def lsdb_summaries_eq push_telemetry_def)

lemma spf_round_syncs:
  assumes "ndk_documented call view" and "ndk_succeeds call" and "in_sync (ag_programmedRIB a) (view s)"
    and "ag_floodEngine a = Some fe" and "ag_spfEngine a = Some e" and "\<not> ag_engineBlocked a"
    and "rib_ok (Engine_RIB (Engine_Run fe e))"
  shows "\<exists>a' s'. spf_round call a s = Some (a', s') \<and> in_sync (ag_programmedRIB a') (view s') \<and>
    ag_programmedRIB a' = programmed_of (Engine_RIB (Engine_Run fe e)) \<and> ag_now a' = ag_now a"
proof -
  let ?rib = "Engine_RIB (Engine_Run fe e)"
  obtain s' where s': "syncRoutes call ?rib (ag_programmedRIB a) s = Some (programmed_of ?rib, s')"
    "in_sync (programmed_of ?rib) (view s')"
    using sync_step [OF assms(1-3,7)] by blast
  obtain ps ch where after: "after_spf fe (Engine_Run fe e) a = a\<lparr>ag_spfEngine := Some (Engine_Run fe e),
      ag_spfRuns := ag_spfRuns a + 1, ag_lastDisaggPrefixes := ps, ag_DisaggUpdateCh := ch\<rparr>"
    using after_spf_frame by blast
  let ?b = "(after_spf fe (Engine_Run fe e) a)\<lparr>ag_programmedRIB := programmed_of ?rib\<rparr>"
  obtain ts where "state_telemetry ?b = Some (?b\<lparr>ag_telemetry := ts\<rparr>)"
    using state_telemetry_returns [of ?b fe "Engine_Run fe e"] assms(4,6) by (auto simp: after)
  then have "spf_round call a s = Some (?b\<lparr>ag_telemetry := ts\<rparr>, s')"
    using assms(4-6) s'(1) by (simp add: spf_round_alt)
  with s'(2) show ?thesis by (simp add: after)
qed

text \<open>
  The turns that carry a change of the topology to the table: the event loop takes the notification, 100
  milliseconds pass, the timer fires.
\<close>

lemma change_reaches_table:
  assumes "ndk_documented call view" and "ndk_succeeds call" and "in_sync (ag_programmedRIB a) (view s)"
    and "ag_floodEngine a = Some fe" and "ag_spfEngine a = Some e" and "\<not> ag_engineBlocked a" and "fe_LSDBChangeCh fe"
    and "rib_ok (Engine_RIB (Engine_Run fe e))"
  shows "\<exists>a' s'. (process_step unmarshal call ^^ 3) (a, s) (a', s') \<and> in_sync (ag_programmedRIB a') (view s') \<and>
    ag_programmedRIB a' = programmed_of (Engine_RIB (Engine_Run fe e)) \<and> ag_now a' = ag_now a + spf_delay"
proof -
  let ?fe1 = "fe\<lparr>fe_LSDBChangeCh := False\<rparr>" and ?t = "ag_now a + spf_delay"
  let ?a1 = "a\<lparr>ag_floodEngine := Some ?fe1, ag_spfTimer := Some ?t\<rparr>"
  let ?a2 = "?a1\<lparr>ag_now := ?t, ag_floodEngine := map_option (\<lambda>fe. fe\<lparr>fe_clock := ?t\<rparr>) (ag_floodEngine ?a1)\<rparr>"
  let ?b = "?a2\<lparr>ag_spfTimer := None\<rparr>"
  have same: "Engine_Run (?fe1\<lparr>fe_clock := ?t\<rparr>) e = Engine_Run fe e"
    by (rule Engine_Run_cong) (simp_all add: adjacencies_frame)
  then obtain a' s' where r: "spf_round call ?b s = Some (a', s')" "in_sync (ag_programmedRIB a') (view s')"
    "ag_programmedRIB a' = programmed_of (Engine_RIB (Engine_Run fe e))" "ag_now a' = ?t"
    using spf_round_syncs [OF assms(1,2), of ?b s "?fe1\<lparr>fe_clock := ?t\<rparr>" e] assms(3,5,6,8) by auto
  have "eventLoop undefined unmarshal call LSDBChangeEv (a, s) = Some (?a1, s)" using assms(4,7) by simp
  then have 1: "process_step unmarshal call (a, s) (?a1, s)" by (rule process_step.loop)
  have 2: "process_step unmarshal call (?a1, s) (?a2, s)" by (rule process_step.time) simp
  have "eventLoop undefined unmarshal call SpfTimerEv (?a2, s) = Some (a', s')" using r(1) by simp
  then have 3: "process_step unmarshal call (?a2, s) (a', s')" by (rule process_step.loop)
  have "(process_step unmarshal call ^^ 3) (a, s) (a', s')"
    using 1 2 3 by (auto simp: numeral_3_eq_3 relcompp_apply)
  with r show ?thesis by blast
qed

lemma hops_on_adjacencies:
  assumes "engines_ok fe e" and "gm_get (Adjacencies fe) k = None"
    and "gm_get (Engine_RIB (Engine_Run fe e)) p = Some r" and "nh \<in> set (rt_NextHops r)"
  shows "nh_Interface nh \<noteq> k"
proof -
  obtain name info where m: "(name, info) \<in> set (Adjacencies fe)" and i: "nh_Interface nh = ai_InterfaceName info"
    using engine_live [OF assms(3)] assms(4) unfolding live_hops_def by (metis adj_hop_simps(3) imageE prod.collapse)
  have "gm_wf (Adjacencies fe)" using assms(1) fe_okD(2) by (simp add: engines_ok_def Adjacencies_def)
  then have get: "gm_get (Adjacencies fe) name = Some info" using m by (simp add: gm_get_in)
  then have "ai_InterfaceName info = name" using assms(1) by (simp add: engines_ok_def)
  with get assms(2) i show ?thesis by auto
qed

text \<open>
  C9 \<^bold>\<open>Losing an adjacency withdraws it from the forwarding table.\<close> When the LIE machine of a running interface
  reports a state other than \<open>ThreeWay\<close>, no other change waits, and the service answers with success, five
  turns of the goroutines - the event loop, the flood engine, the event loop again, 100 milliseconds, the SPF
  timer - bring the forwarding table in agreement with the RIB computed without the adjacency, provided that
  RIB can be programmed: no route of it has a next hop on the interface.
\<close>

theorem adjacency_loss_reroutes:
  assumes "ndk_documented call view" and "ndk_succeeds call" and "agent_wf a" and "\<not> ag_engineBlocked a"
    and "ag_floodEngine a = Some fe" and "ag_spfEngine a = Some e" and "ag_adjEventCh a = ev # evs" and "ag_AdjChangeCh a = []"
    and "gm_get (ag_interfaces a) (ae_InterfaceName ev) = Some iface" and "ae_State ev \<noteq> ThreeWay"
    and "in_sync (ag_programmedRIB a) (view s)"
    and "serve (AdjChangeEv \<lparr>ac_InterfaceName = ae_InterfaceName ev, ac_Info = None\<rparr>) fe = Some fe'"
    and "rib_ok (Engine_RIB (Engine_Run fe' e))"
  shows "\<exists>a' s'. (process_step unmarshal call ^^ 5) (a, s) (a', s') \<and> ag_now a' = ag_now a + 100000000 \<and>
    in_sync (ag_programmedRIB a') (view s') \<and> ag_programmedRIB a' = programmed_of (Engine_RIB (Engine_Run fe' e)) \<and>
    (\<forall>p r. gm_get (Engine_RIB (Engine_Run fe' e)) p = Some r \<longrightarrow>
       (\<forall>nh \<in> set (rt_NextHops r). nh_Interface nh \<noteq> ae_InterfaceName ev))"
proof -
  let ?ch = "change_of ev (is_transport iface)"
  have ch: "?ch = \<lparr>ac_InterfaceName = ae_InterfaceName ev, ac_Info = None\<rparr>" using assms(10) by (simp add: change_of_def)
  have eng: "engines_ok fe e" using assms(3,5,6) by (auto simp: agent_wf_def)
  have wf: "gm_wf (fe_adjacencies fe)" using eng fe_okD(2) by (simp add: engines_ok_def)
  obtain "is" ts where turn: "eventLoop undefined unmarshal call AdjacencyEv (a, s) =
      Some (a\<lparr>ag_adjEventCh := evs, ag_interfaces := is, ag_telemetry := ts, ag_AdjChangeCh := [?ch]\<rparr>, s)" (is "_ = Some (?a1, s)")
    using adjacency_turn [OF assms(5,7-9), of undefined unmarshal call s] assms(10) by blast
  let ?a2 = "?a1\<lparr>ag_AdjChangeCh := [], ag_floodEngine := Some fe'\<rparr>"
  have 1: "process_step unmarshal call (a, s) (?a1, s)" using turn by (rule process_step.loop)
  have "engine_step (AdjChangeEv ?ch) (?a1\<lparr>ag_AdjChangeCh := []\<rparr>) = ?a2"
    using assms(4,5,12) by (simp add: engine_step_def ch del: serve.simps)
  then have 2: "process_step unmarshal call (?a1, s) (?a2, s)"
    using process_step.adj_change [of ?a1 ?ch "[]" unmarshal call s] assms(4) by simp
  obtain a' s' where 3: "(process_step unmarshal call ^^ 3) (?a2, s) (a', s')" "in_sync (ag_programmedRIB a') (view s')"
    "ag_programmedRIB a' = programmed_of (Engine_RIB (Engine_Run fe' e))" "ag_now a' = ag_now ?a2 + spf_delay"
    using change_reaches_table [OF assms(1,2), of ?a2 s fe' e unmarshal] assms(4,6,11,13) lsdb_change_set [OF assms(12)] by auto
  have "(process_step unmarshal call ^^ Suc (Suc 3)) (a, s) (a', s')"
    using 1 2 3(1) relpowp_Suc_I2 by metis
  then have steps: "(process_step unmarshal call ^^ 5) (a, s) (a', s')" by (simp add: eval_nat_numeral)
  have "gm_get (Adjacencies fe') (ae_InterfaceName ev) = None"
    using serve_adj_change(1) [OF assms(12) wf, of "ae_InterfaceName ev"] by simp
  moreover have "engines_ok fe' e" using eng assms(12) by (rule engines_ok_serve) auto
  ultimately have "\<forall>p r. gm_get (Engine_RIB (Engine_Run fe' e)) p = Some r \<longrightarrow>
      (\<forall>nh \<in> set (rt_NextHops r). nh_Interface nh \<noteq> ae_InterfaceName ev)"
    using hops_on_adjacencies by blast
  moreover have "ag_now a' = ag_now a + 100000000" using 3(4) by simp
  ultimately show ?thesis using steps 3(2,3) by blast
qed

lemma gm_empty: "(\<And>k. gm_get m k = None) \<Longrightarrow> m = []"
  by (cases m) (auto simp: gm_get_def split: if_splits, metis option.distinct(1))

theorem adjacency_loss_reroutes_witness:
  "\<exists>a' s'. (process_step ex_unmarshal ref_ndk ^^ 5) (ex_up\<lparr>ag_adjEventCh := [ex_event OneWay]\<rparr>, empty_fib) (a', s') \<and>
     ag_now a' = 100000000 \<and> in_sync (ag_programmedRIB a') s'"
proof -
  let ?a = "ex_up\<lparr>ag_adjEventCh := [ex_event OneWay]\<rparr>" and ?k = "''ethernet-1/1''"
  let ?fe = "(NewFloodEngine 7 1 ''rift-7'' [] 0)\<lparr>fe_adjacencies := [(?k, newAdjFloodState ex_info)]\<rparr>"
  let ?ch = "\<lparr>ac_InterfaceName = ?k, ac_Info = None\<rparr>"
  have a: "\<not> ag_engineBlocked ?a" "ag_floodEngine ?a = Some ?fe" "ag_spfEngine ?a = Some (NewEngine 7 1)"
    "ag_adjEventCh ?a = ex_event OneWay # []" "ag_AdjChangeCh ?a = []"
    "gm_get (ag_interfaces ?a) (ae_InterfaceName (ex_event OneWay)) = Some (snd (hd (ag_interfaces ex_agent)))"
    "ae_State (ex_event OneWay) \<noteq> ThreeWay" "in_sync (ag_programmedRIB ?a) (id empty_fib)" "ag_now ?a = 0"
    by (simp_all add: ex_up_def ex_agent_def agent_New_def ex_event_def gm_get_def in_sync_empty)
  have eng: "engines_ok ?fe (NewEngine 7 1)" using ex_up_wf by (simp add: agent_wf_def ex_up_def ex_agent_def)
  then have ok: "fe_ok ?fe" by (simp add: engines_ok_def)
  obtain fe' where fe': "serve (AdjChangeEv ?ch) ?fe = Some fe'" using serve_adj_ok [OF ok] .
  have "gm_get (Adjacencies fe') k = None" for k
    using serve_adj_change(1) [OF fe' fe_okD(2) [OF ok], of k] by (auto simp: Adjacencies_def gm_map_def gm_get_def)
  then have "Adjacencies fe' = []" by (rule gm_empty)
  then have "gm_get (Engine_RIB (Engine_Run fe' (NewEngine 7 1))) p = None" for p
    using engine_live [of fe' "NewEngine 7 1" p] by (cases "gm_get (Engine_RIB (Engine_Run fe' (NewEngine 7 1))) p") (auto simp: live_hops_def)
  then have "Engine_RIB (Engine_Run fe' (NewEngine 7 1)) = []" by (rule gm_empty)
  then have "rib_ok (Engine_RIB (Engine_Run fe' (NewEngine 7 1)))" by (simp add: rib_ok_def usable_routes_def)
  with adjacency_loss_reroutes [OF ref_ndk_ok ex_event_wf [OF ex_up_wf] a(1-8), of fe' ex_unmarshal] fe' a(9)
  show ?thesis by (fastforce simp: ex_event_def)
qed

section \<open>A flood engine that never comes back\<close>

text \<open>The reports of the whole state, as opposed to those of one adjacency.\<close>

fun is_state_report :: "telemetry \<Rightarrow> bool" where
  "is_state_report (StateTelemetry _) = True"
| "is_state_report (AdjacencyTelemetry _ _) = False"

lemma adjacency_report [simp]: "\<not> is_state_report (case p of (path, t) \<Rightarrow> AdjacencyTelemetry path t)"
  by (cases p) simp

text \<open>What no step changes while the flood engine is blocked.\<close>

definition frozen :: "Agent \<times> 's \<Rightarrow> Agent \<times> 's \<Rightarrow> bool" where
  "frozen x y \<longleftrightarrow> snd y = snd x \<and> ag_engineBlocked (fst y) \<and> ag_programmedRIB (fst y) = ag_programmedRIB (fst x) \<and>
     ag_spfEngine (fst y) = ag_spfEngine (fst x) \<and> ag_spfRuns (fst y) = ag_spfRuns (fst x) \<and>
     map_option Adjacencies (ag_floodEngine (fst y)) = map_option Adjacencies (ag_floodEngine (fst x)) \<and>
     filter is_state_report (ag_telemetry (fst y)) = filter is_state_report (ag_telemetry (fst x))"

lemma frozen_trans: "\<lbrakk>frozen x y; frozen y z\<rbrakk> \<Longrightarrow> frozen x z"
  by (simp add: frozen_def)

lemma stop_start_frozen:
  "ag_engineBlocked (stop_removed a) = ag_engineBlocked a \<and> ag_programmedRIB (stop_removed a) = ag_programmedRIB a \<and>
   ag_spfRuns (stop_removed a) = ag_spfRuns a \<and> ag_telemetry (stop_removed a) = ag_telemetry a"
  "ag_engineBlocked (start_added lx a) = ag_engineBlocked a \<and> ag_programmedRIB (start_added lx a) = ag_programmedRIB a \<and>
   ag_spfRuns (start_added lx a) = ag_spfRuns a \<and> ag_telemetry (start_added lx a) = ag_telemetry a"
  unfolding stop_removed_def start_added_def by (rule fold_keeps; simp)+

lemma handleConfigChange_frozen:
  assumes "handleConfigChange lx unmarshal ev a = Some a'" and "ag_engineBlocked a"
  shows "frozen (a, s) (a', s)"
proof -
  obtain a1 where a1: "processConfigEvent unmarshal ev a = Some a1"
    and a': "a' = a1 \<or> a' = start_added lx (stop_removed a1)"
    using assms by (auto simp: handleConfigChange_alt split: option.splits if_splits)
  have "ag_floodEngine a1 = ag_floodEngine a" "ag_engineBlocked a1 = ag_engineBlocked a" "ag_spfEngine a1 = ag_spfEngine a"
    "ag_programmedRIB a1 = ag_programmedRIB a" "ag_spfRuns a1 = ag_spfRuns a" "ag_telemetry a1 = ag_telemetry a"
    by (subst processConfigEvent_frame [OF a1], simp)+
  with a' assms(2) show ?thesis by (auto simp: frozen_def stop_start_frame stop_start_frozen)
qed

lemma handleAdjacencyEvent_frozen:
  assumes "handleAdjacencyEvent lx ev a = Some a'" and "ag_engineBlocked a"
  shows "frozen (a, s) (a', s)"
  using assms
  by (auto simp: handleAdjacencyEvent_def Let_def push_telemetry_def sendAdjChange_def upd_iface_def frozen_def
      split: if_splits option.splits bool.splits)

lemma eventLoop_frozen:
  assumes "eventLoop lx unmarshal call ev (a, s) = Some (a', s')" and "ag_engineBlocked a"
  shows "frozen (a, s) (a', s')"
proof (cases ev)
  case (InterfaceEv ie)
  with assms show ?thesis by (auto simp: handleInterfaceEvent_def Let_def frozen_def)
next
  case (ConfigEv ce)
  with assms show ?thesis by (auto intro: handleConfigChange_frozen)
next
  case AdjacencyEv
  then show ?thesis
    using assms handleAdjacencyEvent_frozen [of lx _ "a\<lparr>ag_adjEventCh := tl (ag_adjEventCh a)\<rparr>" a' s]
    by (auto simp: frozen_def split: list.splits)
next
  case LSDBChangeEv
  with assms show ?thesis by (auto simp: frozen_def adjacencies_frame split: if_splits option.splits)
next
  case SpfTimerEv
  with assms show ?thesis by (auto simp: frozen_def spf_round_alt split: option.splits if_splits)
next
  case LSDBTickEv
  with assms show ?thesis by (auto simp: frozen_def state_telemetry_def split: option.splits if_splits)
qed

lemma process_step_frozen:
  assumes "process_step unmarshal call x y" and "ag_engineBlocked (fst x)"
  shows "frozen x y"
  using assms
proof (cases rule: process_step.cases)
  case (loop lx ev a s a' s')
  with assms(2) show ?thesis using eventLoop_frozen by simp
next
  case (sent a s)
  with assms(2) show ?thesis
    by (cases "ag_floodEngine a")
      (auto simp: floodSendLoop_def frozen_def adjacencies_frame Let_def split: list.splits option.splits sum.splits)
next
  case (time a t s)
  with assms(2) show ?thesis
    by (cases "ag_floodEngine a") (auto simp: frozen_def adjacencies_frame)
next
  case (ticked ev a s)
  with assms(2) show ?thesis by (auto simp: engine_step_def frozen_def split: option.split)
qed (auto simp: lie_step_def upd_iface_def frozen_def Let_def split: option.split simp del: react.simps)

lemma blocked_turns:
  assumes "ag_engineBlocked a" and "ag_floodEngine a \<noteq> None"
  shows "eventLoop lx unmarshal call LSDBTickEv (a, s) = None"
    and "\<lbrakk>ag_spfTimer a = Some deadline; deadline \<le> ag_now a\<rbrakk> \<Longrightarrow> eventLoop lx unmarshal call SpfTimerEv (a, s) = None"
  using assms by (auto simp: state_telemetry_def spf_round_def split: option.split)

text \<open>
  C30 \<^bold>\<open>Re-origination freezes the router.\<close> Once a lifetime tick would leave a TIE of the node's own with a positive
  lifetime below \<open>ReoriginateBeforeExpiry\<close>, the flood engine waits for ever, and whatever happens afterwards,
  no route is programmed or withdrawn again: no SPF run completes, the routes of the last run stay in the table,
  the route service is asked nothing, and the engine's adjacencies stay as they are. Adjacencies are still reported, but
  the state as a whole never again. At any later time the turn of the event loop that serves the expired SPF timer
  or the telemetry tick does not return; as the loop serves one event after the other, that turn is its last.
\<close>

theorem reorigination_freezes_routes:
  assumes "agent_wf a" and "\<not> ag_engineBlocked a" and "ag_floodEngine a = Some fe"
    and "LSDB_Get (fe_lsdb fe) i = Some x" and "Originator i = fe_systemID fe"
    and "0 < sint (le_RemainingLifetime x - 1)" and "slt (le_RemainingLifetime x - 1) ReoriginateBeforeExpiry"
    and "(process_step unmarshal call)\<^sup>*\<^sup>* (engine_step LifetimeTickEv a, s) (a', s')"
  shows "s' = s \<and> ag_programmedRIB a' = ag_programmedRIB a \<and> ag_spfEngine a' = ag_spfEngine a \<and> ag_spfRuns a' = ag_spfRuns a \<and>
    map_option Adjacencies (ag_floodEngine a') = Some (Adjacencies fe) \<and>
    filter is_state_report (ag_telemetry a') = filter is_state_report (ag_telemetry a) \<and>
    eventLoop lx unmarshal call LSDBTickEv (a', s') = None \<and>
    (\<forall>deadline. ag_spfTimer a' = Some deadline \<and> deadline \<le> ag_now a' \<longrightarrow>
       eventLoop lx unmarshal call SpfTimerEv (a', s') = None)"
proof -
  let ?b = "engine_step LifetimeTickEv a"
  have "fe_ok fe" using assms(1,3) by (auto simp: agent_wf_def engines_ok_def)
  then have "serve LifetimeTickEv fe = None" using tickLifetimes_blocks assms(4-7) by simp
  then have b: "?b = a\<lparr>ag_engineBlocked := True\<rparr>" using assms(2,3) by (simp add: engine_step_def)
  have "frozen (?b, s) x" if "(process_step unmarshal call)\<^sup>*\<^sup>* (?b, s) x" for x
    using that
  proof (induction rule: rtranclp_induct)
    case base
    show ?case by (simp add: frozen_def b)
  next
    case (step x y)
    then show ?case using process_step_frozen [OF step(2)] frozen_trans by (fastforce simp: frozen_def)
  qed
  from this [OF assms(8)] have f: "frozen (?b, s) (a', s')" .
  then have "ag_engineBlocked a'" "ag_floodEngine a' \<noteq> None" using assms(3) by (auto simp: frozen_def b)
  note turns = blocked_turns [OF this, where lx = lx and unmarshal = unmarshal and call = call and s = s']
  show ?thesis using f assms(3) turns by (auto simp: frozen_def b simp del: eventLoop.simps)
qed

text \<open>The example agent with its own TIE one second before the limit.\<close>

definition ex_due :: Agent where
  "ex_due = ex_agent\<lparr>ag_floodEngine := Some (put_entry ((self_entry (TIEID 2 7 2 1) zero_TIEElement (NewFloodEngine 7 1 ''rift-7'' [] 0))
     \<lparr>le_RemainingLifetime := 3600\<rparr>) (NewFloodEngine 7 1 ''rift-7'' [] 0))\<rparr>"

lemma ex_due_wf: "agent_wf ex_due"
proof -
  let ?e = "(self_entry (TIEID 2 7 2 1) zero_TIEElement (NewFloodEngine 7 1 ''rift-7'' [] 0))\<lparr>le_RemainingLifetime := 3600\<rparr>"
  have "fe_ok (put_entry ?e (NewFloodEngine 7 1 ''rift-7'' [] 0))"
    by (rule put_entry_ok [OF NewFloodEngine_ok]) (simp add: self_entry_def NewFloodEngine_def)
  then have "engines_ok (put_entry ?e (NewFloodEngine 7 1 ''rift-7'' [] 0)) (NewEngine 7 1)"
    by (simp add: engines_ok_def NewEngine_def Adjacencies_def) (simp add: NewFloodEngine_def gm_map_def)
  with ex_agent_wf show ?thesis
    by (auto simp: agent_wf_def ex_due_def interfaces_ok_def config_ok_def queues_ok_def ex_agent_def)
qed

theorem reorigination_freezes_routes_witness:
  "ag_spfRuns (snd (floodSendLoop (engine_step LifetimeTickEv ex_due))) = 0 \<and> ag_engineBlocked (engine_step LifetimeTickEv ex_due) \<and>
   eventLoop ex_linux ex_unmarshal (\<lambda>req s :: unit. (StatusSuccess, s)) LSDBTickEv
     (snd (floodSendLoop (engine_step LifetimeTickEv ex_due)), ()) = None"
proof -
  let ?call = "\<lambda>req s :: unit. (StatusSuccess, s)"
  let ?fe0 = "NewFloodEngine 7 1 ''rift-7'' [] 0"
  let ?e = "(self_entry (TIEID 2 7 2 1) zero_TIEElement ?fe0)\<lparr>le_RemainingLifetime := 3600\<rparr>"
  have d: "\<not> ag_engineBlocked ex_due" "ag_floodEngine ex_due = Some (put_entry ?e ?fe0)" "ag_spfRuns ex_due = 0"
    by (simp_all add: ex_due_def ex_agent_def agent_New_def)
  have g: "LSDB_Get (fe_lsdb (put_entry ?e ?fe0)) (TIEID 2 7 2 1) = Some ?e" by (simp add: self_entry_def)
  have l: "Originator (TIEID 2 7 2 1) = fe_systemID (put_entry ?e ?fe0)" "0 < sint (le_RemainingLifetime ?e - 1)"
    "slt (le_RemainingLifetime ?e - 1) ReoriginateBeforeExpiry"
    by (simp_all add: NewFloodEngine_def word_sless_alt)
  have "(process_step ex_unmarshal ?call)\<^sup>*\<^sup>* (engine_step LifetimeTickEv ex_due, ()) (snd (floodSendLoop (engine_step LifetimeTickEv ex_due)), ())"
    by (rule r_into_rtranclp) (rule process_step.sent)
  from reorigination_freezes_routes [OF ex_due_wf d(1,2) g l this, of ex_linux]
  have "ag_spfRuns (snd (floodSendLoop (engine_step LifetimeTickEv ex_due))) = 0"
    "eventLoop ex_linux ex_unmarshal ?call LSDBTickEv (snd (floodSendLoop (engine_step LifetimeTickEv ex_due)), ()) = None"
    using d(3) by (simp_all del: eventLoop.simps)
  moreover have "tickLifetimes (put_entry ?e ?fe0) = None"
    using ex_due_wf d(2) g l by (intro tickLifetimes_blocks) (auto simp: agent_wf_def engines_ok_def)
  ultimately show ?thesis using d by (simp add: engine_step_def del: eventLoop.simps)
qed

end
