(* ===== verification/Spec2Isabelle.thy ===== *)
theory Spec2Isabelle
  imports Tie_Examples Lie_Adjacency Transport_Netns Transport_Props Agent_Props
begin

text \<open>
  \<^bold>\<open>A RIFT agent for SR Linux.\<close>

  The program is a routing agent for fat-tree fabrics (RIFT, RFC 9692) that runs beside SR Linux. It takes its
  configuration from the NDK service, forms adjacencies with the neighbors on each interface, floods
  topology information elements (TIEs), computes routes from them, and programs these through the NDK service.
  This library models all of its Go code except \<open>main\<close> and proves what makes it correct; where the code falls
  short, a theorem says how. The theories are in the order of the code's packages:

  \<^item> \<^bold>\<open>Types.\<close> \<open>Rift_Prelude\<close>: Go integers as words with their signed order, results with an error, Go maps as
    association lists behind the locale \<open>go_map\<close>. \<open>Rift_Types\<close>: \<open>encoding/types.go\<close> and \<open>common.go\<close>.
    \<open>Go_Text\<close>, \<open>Go_Heap\<close>: what the code uses of the Go library, \<open>%d\<close>, \<open>netip.ParsePrefix\<close> on IPv4 prefixes and
    \<open>container/heap\<close>, the last behind the locale \<open>min_queue\<close>.
  \<^item> \<^bold>\<open>Wire format.\<close> \<open>Thrift_Wire\<close>, \<open>Codec_Encode\<close>, \<open>Codec_Decode\<close>: \<open>encoding/codec.go\<close>, one definition per
    method; every reader is an instance of the locale \<open>reader\<close> (it returns, and leaves a suffix of its input).
    \<open>Codec_Roundtrip\<close>, \<open>Codec_Skip\<close>: decoding and skipping undo encoding. \<open>Envelope\<close>: \<open>encoding/envelope.go\<close> and
    the packet functions of \<open>transport/udp.go\<close>.
  \<^item> \<^bold>\<open>Transport.\<close> \<open>Transport\<close>: the rest of \<open>transport/udp.go\<close> as the agent sees it. \<open>Transport_Sockets\<close>: the system
    calls behind it, over the documented behaviour of the kernel; no file descriptor is lost on any error path.
    \<open>Transport_Netns\<close>: lookups in the namespaces, and why one fixed view of the kernel is enough for the agent.
    \<open>Transport_Props\<close>: the sizes of TIDE datagrams.
  \<^item> \<^bold>\<open>Adjacencies.\<close> \<open>Lie_FSM\<close>: \<open>lie/fsm.go\<close> and \<open>lie/interface.go\<close>. \<open>Lie_Props\<close>: the queue-driven machine
    refines a specification with one step per input. \<open>Lie_Adjacency\<close>: the handshake, the end of an adjacency and
    the invariants of all runs.
  \<^item> \<^bold>\<open>Flooding.\<close> \<open>Tie_LSDB\<close>: \<open>tie/lsdb.go\<close>, behind the locale \<open>tie_store\<close>. \<open>Tie_Scope\<close>: \<open>tie/scope.go\<close> and the
    acceptance rule. \<open>Tie_Originate\<close>: \<open>tie/types.go\<close>, \<open>tie/originate.go\<close> and the queue operations of
    \<open>tie/flood.go\<close>. \<open>Tie_Flood\<close>: its handlers, and the engine as a step relation. \<open>Tie_Flood_Props\<close>: the contract
    of a handler (locale \<open>flood_handler\<close>) and that each of them keeps it. \<open>Tie_Sync\<close>, \<open>Tie_Exchange\<close>,
    \<open>Tie_Converge\<close>: runs, handlers branch by branch, and the steps of an exchange of TIEs. \<open>Tie_Frame\<close>: only
    adjacency changes change the adjacencies. \<open>Tie_Round\<close>: a whole TIDE round between two engines.
    \<open>Tie_Examples\<close>: a leaf and a spine.
  \<^item> \<^bold>\<open>Routes.\<close> \<open>Spf_Rib\<close>: \<open>spf/types.go\<close> and \<open>spf/helpers.go\<close>. \<open>Spf_North\<close>: \<open>spf/northbound.go\<close>. \<open>Spf_South\<close>,
    \<open>Spf_Dijkstra\<close>, \<open>Spf_South_Props\<close>: \<open>spf/southbound.go\<close>. \<open>Spf_Disagg\<close>: \<open>spf/disagg.go\<close>. \<open>Spf_Engine\<close>:
    \<open>spf/spf.go\<close>.
  \<^item> \<^bold>\<open>NDK.\<close> \<open>Ndk_Client\<close>: \<open>ndk/client.go\<close> and \<open>ndk/notifications.go\<close>. \<open>Ndk_Routes\<close>: \<open>ndk/routes.go\<close>.
  \<^item> \<^bold>\<open>Agent.\<close> \<open>Config\<close>: \<open>config/config.go\<close>. \<open>Telemetry\<close>, \<open>Agent_Routes\<close>, \<open>Agent\<close>: \<open>agent/agent.go\<close> and
    \<open>agent/disagg.go\<close>. \<open>Agent_Fib\<close>: the forwarding table follows the RIB. \<open>Agent_Inv\<close>: the invariant of the
    process. \<open>Agent_Props\<close>: what configuration, interface and adjacency events and the timer achieve.

  \<^bold>\<open>State and interaction.\<close> A Go struct is a record, a handler a function from state to state. The process is
  \<open>process_step\<close>: a turn of \<open>eventLoop\<close>, an input of a LIE state machine, an event of the flood engine, a packet
  sent or received, or time passing, in any order. Channels are fields holding what waits in them: the state
  machines write \<open>ag_adjEventCh\<close>, the event loop writes \<open>ag_AdjChangeCh\<close> and \<open>ag_DisaggUpdateCh\<close>, the receive
  loops \<open>ag_floodRecvCh\<close>, the flood engine \<open>fe_FloodSendCh\<close> and \<open>fe_LSDBChangeCh\<close>. The handlers of different
  goroutines are atomic to each other, except for the lock of the database: it is part of the model, since the
  flood engine can wait for a lock that it holds itself. \<open>None\<close> is a panic or a call that does not return.

  \<^bold>\<open>What is not under the sources\<close> is a parameter: the NDK service manager and route service (\<open>call\<close>), the Linux
  kernel (\<open>lx\<close>, \<open>sys\<close>) and \<open>json.Unmarshal\<close> (\<open>unmarshal\<close>). Every property that assumes something of them names
  it (\<open>ndk_documented\<close>, \<open>ndk_succeeds\<close>, \<open>sys_documented\<close>, \<open>returns_to\<close>), and its witness instantiates it with a
  concrete service or kernel. The order of Go map iteration is that of the association list, so a property
  for all lists holds for every order.

  \<^bold>\<open>Bounds and fuel.\<close> Integers are words of the width the code uses. There is no fuel: the readers, \<open>skip\<close> and the
  chunks of TIDE packets recurse on a shorter input, the FSM queue has the weight \<open>queue_weight\<close>, and the
  Dijkstra loop has a measure on the nodes and their distances (\<open>southbound_returns\<close>). The round trip holds
  for packets whose collections have at most 10000 elements and strings at most 1048576 bytes, the limits
  of the decoder; the shortest-path theorems hold while no sum of costs leaves the signed 32-bit range
  (\<open>costs_ok\<close>).

  \<^bold>\<open>Kinds of properties.\<close> Round trips and termination of the codec; refinement, invariants and liveness of the
  LIE machine; invariants, exact effects and convergence of flooding; equivalence of the route computation with
  shortest walks and best routes; refinement of the RIB by the forwarding table over any sequence of syncs;
  invariant of the whole process; error behaviour where the code loses track (prefixes that do not parse,
  interrupted syncs, interfaces going down or added late, the lock-up of re-origination).

  \<^bold>\<open>Not modelled.\<close> \<open>cmd/rift-srl/main.go\<close> only wires the logger, signals and the agent; logging and the JSON
  text of telemetry have no effect on the state; closing by context cancellation ends a run at any step;
  the capacity of channels is modelled where a full one blocks the event loop (\<open>AdjChangeCh\<close>). \<open>keepAlive\<close> of
  \<open>agent.go\<close> only repeats \<open>KeepAlive\<close>, which is modelled, and is no step of the process. Packets
  in \<open>FloodSendCh\<close> are values, though \<open>bumpOwnTIE\<close> changes in place a TIE that a queued packet may share. The
  unused constants of \<open>common.go\<close> are left out, as is \<open>Event.String\<close>.
\<close>

end
